theory Spec2Isabelle
  imports Complex_Main "HOL-Library.Product_Lexorder" "HOL-Library.Char_ord"
    "HOL-Library.List_Lexorder"
begin

section \<open>Floating-point cells with a missing value\<close>

text \<open>
  Every numeric column of the pipeline is a float32 column in which a missing cell is NaN.
  A cell is modelled as \<open>real option\<close>: \<open>None\<close> is NaN, \<open>Some x\<close> a finite value (the
  columns hold cumulative counts). A comparison with NaN is false, as in NumPy.
\<close>

type_synonym f32 = "real option"

definition isnan :: "f32 \<Rightarrow> bool" where
  "isnan x = (x = None)"

definition gt :: "f32 \<Rightarrow> f32 \<Rightarrow> bool" where
  "gt x y = (case x of None \<Rightarrow> False | Some a \<Rightarrow> (case y of None \<Rightarrow> False | Some b \<Rightarrow> a > b))"

definition gt0 :: "f32 \<Rightarrow> bool" where
  "gt0 x = (case x of None \<Rightarrow> False | Some a \<Rightarrow> a > 0)"

definition eq0 :: "f32 \<Rightarrow> bool" where
  "eq0 x = (case x of None \<Rightarrow> False | Some a \<Rightarrow> a = 0)"

definition nan_to_num :: "real \<Rightarrow> f32 \<Rightarrow> real" where
  "nan_to_num d x = (case x of None \<Rightarrow> d | Some a \<Rightarrow> a)"

datatype error = RuntimeError | ValueError | IndexError

section \<open>The causal ordering evaluator\<close>

text \<open>
  \<open>_first_increment_index_np\<close>: \<open>np.diff(v, prepend=v[0])\<close> is the list of differences
  between each element and its predecessor, with 0 in front; the result is the first
  index with a positive difference, or NaN (\<open>None\<close>). The source's repair of a NaN
  difference at index 0 cannot fire: the function is only called on sequences that went
  through \<open>nan_to_num\<close>.
\<close>

definition first_increment_index_np :: "real list \<Rightarrow> nat option" where
  "first_increment_index_np v =
     (case v of
        [] \<Rightarrow> None
      | v0 # _ \<Rightarrow>
          (let d = map2 (\<lambda>a b. a - b) v (v0 # v);
               idx = filter (\<lambda>k. d ! k > 0) [0..<length d]
           in case idx of [] \<Rightarrow> None | k # _ \<Rightarrow> Some k))"

fun cummax :: "real \<Rightarrow> real list \<Rightarrow> real list" where
  "cummax m [] = []"
| "cummax m (x # xs) = max m x # cummax (max m x) xs"

definition maximum_accumulate :: "real list \<Rightarrow> real list" where
  "maximum_accumulate v = (case v of [] \<Rightarrow> [] | x # xs \<Rightarrow> x # cummax x xs)"

text \<open>
  \<open>_compute_causal_flags_for_pairs\<close>: \<open>groups_index\<close> is the dictionary from a pair to the
  row indices of the pair, walked in insertion order. \<open>take_rows a idx\<close> is \<open>a[idx]\<close>, which
  raises IndexError for an index beyond the array; \<open>set_rows ok idx\<close> is the assignment
  \<open>ok[idx] = True\<close>. \<open>np.maximum.accumulate\<close> is the running maximum. The two flag arrays
  are the loop's state.
\<close>

definition take_rows :: "'a list \<Rightarrow> nat list \<Rightarrow> 'a list" where
  "take_rows a idx = map (\<lambda>i. a ! i) idx"

definition set_rows :: "bool list \<Rightarrow> nat list \<Rightarrow> bool list" where
  "set_rows ok idx = fold (\<lambda>i acc. acc[i := True]) idx ok"

definition launch_not_before :: "nat option \<Rightarrow> nat option \<Rightarrow> bool" where
  "launch_not_before o_i l_i =
     (case o_i of None \<Rightarrow> False | Some a \<Rightarrow> (case l_i of None \<Rightarrow> False | Some b \<Rightarrow> b \<ge> a))"

definition side_flag :: "f32 list \<Rightarrow> f32 list \<Rightarrow> nat list \<Rightarrow> bool" where
  "side_flag o_arr l_arr idx =
     (let o_seq = map (nan_to_num 0) (take_rows o_arr idx);
          l_seq = map (nan_to_num 0) (take_rows l_arr idx);
          o_m = maximum_accumulate o_seq;
          l_m = maximum_accumulate l_seq;
          o_i = first_increment_index_np o_m;
          l_i = first_increment_index_np l_m
      in launch_not_before o_i l_i)"

definition rows_in_range :: "nat list \<Rightarrow> 'a list \<Rightarrow> bool" where
  "rows_in_range idx a = list_all (\<lambda>i. i < length a) idx"

fun causal_loop ::
  "('k \<times> nat list) list \<Rightarrow> f32 list \<Rightarrow> f32 list \<Rightarrow> f32 list \<Rightarrow> f32 list \<Rightarrow>
   bool list \<times> bool list \<Rightarrow> error + (bool list \<times> bool list)" where
  "causal_loop [] o1 l1 o2 l2 oks = Inr oks"
| "causal_loop ((key, idx) # rest) o1 l1 o2 l2 (flags1, flags2) =
     (if rows_in_range idx o1 \<and> rows_in_range idx l1 \<and>
         rows_in_range idx o2 \<and> rows_in_range idx l2
      then causal_loop rest o1 l1 o2 l2
             (if side_flag o1 l1 idx then set_rows flags1 idx else flags1,
              if side_flag o2 l2 idx then set_rows flags2 idx else flags2)
      else Inl IndexError)"

definition compute_causal_flags_for_pairs ::
  "('k \<times> nat list) list \<Rightarrow> f32 list \<Rightarrow> f32 list \<Rightarrow> f32 list \<Rightarrow> f32 list \<Rightarrow>
   error + (bool list \<times> bool list)" where
  "compute_causal_flags_for_pairs groups_index o1 l1 o2 l2 =
     (let n = length o1
      in causal_loop groups_index o1 l1 o2 l2 (replicate n False, replicate n False))"

text \<open>
  What a pandas group-by guarantees for \<open>groups_index\<close>: two different groups share no row,
  and every row index lies within the arrays.
\<close>

definition disjoint_groups :: "('k \<times> nat list) list \<Rightarrow> bool" where
  "disjoint_groups groups_index =
     list_all (\<lambda>a. list_all (\<lambda>b. a = b \<or> list_all (\<lambda>i. i \<notin> set (snd b)) (snd a)) groups_index)
       groups_index"

definition groups_in_range ::
  "('k \<times> nat list) list \<Rightarrow> f32 list \<Rightarrow> f32 list \<Rightarrow> f32 list \<Rightarrow> f32 list \<Rightarrow> bool" where
  "groups_in_range groups_index o1 l1 o2 l2 =
     list_all (\<lambda>g. rows_in_range (snd g) o1 \<and> rows_in_range (snd g) l1 \<and>
                    rows_in_range (snd g) o2 \<and> rows_in_range (snd g) l2) groups_index"

text \<open>
  The specification's wording of the same test: the position of a series' first value that
  is strictly above its first row, taken on the running maximum of the series with missing
  values replaced by zero.
\<close>

definition first_above_first :: "real list \<Rightarrow> nat option" where
  "first_above_first m = find (\<lambda>k. m ! k > m ! 0) [0..<length m]"

definition eligible :: "f32 list \<Rightarrow> f32 list \<Rightarrow> bool" where
  "eligible o_seq l_seq =
     (case first_above_first (maximum_accumulate (map (nan_to_num 0) o_seq)) of
        None \<Rightarrow> False
      | Some a \<Rightarrow>
          (case first_above_first (maximum_accumulate (map (nan_to_num 0) l_seq)) of
             None \<Rightarrow> False
           | Some b \<Rightarrow> b \<ge> a))"

section \<open>Grouped column operations\<close>

text \<open>
  A column is a list, a group-by key a list of the same length. \<open>shift_at keys col k i\<close> is
  the value of \<open>groupby(keys)[col].shift(k)\<close> at row \<open>i\<close>: for \<open>k > 0\<close> the value \<open>k\<close> rows
  earlier among the rows with the key of row \<open>i\<close>, in table order, for \<open>k < 0\<close> the value
  \<open>-k\<close> rows later, and missing when the group has no such row. \<open>groupby_cumsum\<close> sums a
  group's values up to and including the row. \<open>groupby_last\<close> is \<open>transform('last')\<close>: the
  group's last value that is not missing. \<open>astype_int\<close> is the cast of a float to an integer
  type, which truncates toward zero (the indicator columns hold 0 and 1, well within int8).
\<close>

definition same_group :: "'k list \<Rightarrow> nat \<Rightarrow> nat \<Rightarrow> bool" where
  "same_group keys i j = (keys ! j = keys ! i)"

definition shift_at :: "'k list \<Rightarrow> 'v option list \<Rightarrow> int \<Rightarrow> nat \<Rightarrow> 'v option" where
  "shift_at keys col k i =
     (if k > 0 then
        (let js = filter (same_group keys i) (rev [0..<i])
         in if nat k - 1 < length js then col ! (js ! (nat k - 1)) else None)
      else if k < 0 then
        (let js = filter (same_group keys i) [Suc i..<length col]
         in if nat (- k) - 1 < length js then col ! (js ! (nat (- k) - 1)) else None)
      else col ! i)"

definition groupby_shift :: "'k list \<Rightarrow> 'v option list \<Rightarrow> int \<Rightarrow> 'v option list" where
  "groupby_shift keys col k = map (shift_at keys col k) [0..<length col]"

definition groupby_cumsum :: "'k list \<Rightarrow> int list \<Rightarrow> int list" where
  "groupby_cumsum keys col =
     map (\<lambda>i. sum_list (map (\<lambda>j. col ! j) (filter (same_group keys i) [0..<Suc i])))
       [0..<length col]"

definition groupby_last :: "'k list \<Rightarrow> 'v option list \<Rightarrow> 'v option list" where
  "groupby_last keys col =
     map (\<lambda>i. case filter (\<lambda>v. v \<noteq> None)
                    (map (\<lambda>j. col ! j) (filter (same_group keys i) [0..<length col])) of
                [] \<Rightarrow> None
              | v # vs \<Rightarrow> last (v # vs))
       [0..<length col]"

definition fillna_int :: "int option \<Rightarrow> int" where
  "fillna_int x = (case x of None \<Rightarrow> 0 | Some v \<Rightarrow> v)"

definition astype_int :: "real \<Rightarrow> int" where
  "astype_int x = (if x \<ge> 0 then \<lfloor>x\<rfloor> else \<lceil>x\<rceil>)"

section \<open>Group discovery\<close>

text \<open>
  \<open>re.match(rf'^cum_{entity}_n_added_(.+)$', c)\<close>: the column name starts with the prefix,
  followed by at least one character other than a newline, up to the end of the name or to
  a single final newline; the group is that run of characters. (The entity names
  \<open>disease\<close> and \<open>therapeutic\<close> contain no character that is special in a pattern.)
\<close>

definition match_added :: "string \<Rightarrow> string \<Rightarrow> string option" where
  "match_added ent c =
     (let p = ''cum_'' @ ent @ ''_n_added_'';
          rest = drop (length p) c;
          g = takeWhile (\<lambda>x. x \<noteq> CHR 0x0A) rest;
          t = dropWhile (\<lambda>x. x \<noteq> CHR 0x0A) rest
      in if take (length p) c = p \<and> g \<noteq> [] \<and> (t = [] \<or> t = [CHR 0x0A]) then Some g else None)"

definition detect_groups :: "string list \<Rightarrow> string \<Rightarrow> string list" where
  "detect_groups columns entity = List.map_filter (match_added entity) columns"

section \<open>The pair-year base table: \<open>build_base\<close>\<close>

text \<open>
  The function's inputs are the three files it reads: the column names of the firm-year
  table (\<open>cols0\<close>), the whitelist of firm names (\<open>valid\<close>) and the interlock table. A row of
  the interlock table carries the two indicators as read (float32, possibly missing); a row
  of the base table adds every column that \<open>build_base\<close> derives. The table is filtered by
  the whitelist, sorted stably by (BoardName1, BoardName2, year), and the lags and
  cumulative sums are taken within the pair.
\<close>

record interlock_row =
  BoardName1 :: string
  BoardName2 :: string
  year :: int
  interlock_indirect_raw :: f32
  interlock_direct_raw :: f32

record base_row = interlock_row +
  interlock_indirect :: int
  interlock_direct :: int
  L1_interlock_indirect :: int
  L1_interlock_direct :: int
  cum_interlock_indirect :: int
  cum_interlock_direct :: int
  mask_indirect_yoy :: bool
  mask_direct_yoy :: bool
  mask_never :: bool
  mask_indirect :: bool
  mask_direct :: bool
  mask_no_interlock :: bool
  cum_interlock_direct_prev :: int

definition pair :: "'a interlock_row_scheme \<Rightarrow> string \<times> string" where
  "pair r = (BoardName1 r, BoardName2 r)"

definition pair_year :: "'a interlock_row_scheme \<Rightarrow> string \<times> string \<times> int" where
  "pair_year r = (BoardName1 r, BoardName2 r, year r)"

definition interlock_sorted :: "string list \<Rightarrow> interlock_row list \<Rightarrow> interlock_row list" where
  "interlock_sorted valid interlock =
     sort_key pair_year
       (filter (\<lambda>r. BoardName1 r \<in> set valid \<and> BoardName2 r \<in> set valid) interlock)"

definition base_table :: "string list \<Rightarrow> interlock_row list \<Rightarrow> base_row list" where
  "base_table valid interlock =
     (let df = interlock_sorted valid interlock;
          gbp = map pair df;
          ind = map (\<lambda>r. astype_int (nan_to_num 0 (interlock_indirect_raw r))) df;
          dir = map (\<lambda>r. astype_int (nan_to_num 0 (interlock_direct_raw r))) df;
          L1_ind = map fillna_int (groupby_shift gbp (map Some ind) 1);
          L1_dir = map fillna_int (groupby_shift gbp (map Some dir) 1);
          cum_ind = groupby_cumsum gbp ind;
          cum_dir = groupby_cumsum gbp dir;
          prev = map fillna_int (groupby_shift gbp (map Some cum_dir) 1)
      in map (\<lambda>i.
           (let yoy_i = (ind ! i = 1 \<and> L1_ind ! i = 0);
                yoy_d = (dir ! i = 1 \<and> L1_dir ! i = 0);
                never = (cum_ind ! i = 0 \<and> cum_dir ! i = 0)
            in interlock_row.extend (df ! i)
                 (base_row.fields (ind ! i) (dir ! i) (L1_ind ! i) (L1_dir ! i)
                    (cum_ind ! i) (cum_dir ! i) yoy_i yoy_d never yoy_i yoy_d never (prev ! i))))
         [0..<length df])"

definition build_base ::
  "string list \<Rightarrow> string list \<Rightarrow> string list \<Rightarrow> interlock_row list \<Rightarrow>
   error + (base_row list \<times> (string \<times> string list) list)" where
  "build_base cols0 want_entities valid interlock =
     (let groups_by_entity = map (\<lambda>ent. (ent, detect_groups cols0 ent)) want_entities
      in if \<not> list_ex (\<lambda>(ent, gs). gs \<noteq> []) groups_by_entity then Inl RuntimeError
         else Inr (base_table valid interlock, groups_by_entity))"

section \<open>Attaching a batch of group columns: \<open>_attach_entity_batch\<close>\<close>

text \<open>
  A row of the firm-year table holds, for one entity, the cumulative origination and launch
  counts of every group: a function from the group name to the cell. The two left merges on
  (firm, year) keep every row of the base table, in order; a row without a match gets
  missing cells, a row with several matches is repeated. The result is sorted again by
  (BoardName1, BoardName2, year). An empty batch gives \<open>None\<close>.
\<close>

record firm_row =
  BoardName :: string
  firm_year :: int
  cum_n_added :: "string \<Rightarrow> f32"
  cum_n_launch :: "string \<Rightarrow> f32"

record tmp_row = base_row +
  added_1 :: "string \<Rightarrow> f32"
  launch_1 :: "string \<Rightarrow> f32"
  added_2 :: "string \<Rightarrow> f32"
  launch_2 :: "string \<Rightarrow> f32"

definition merge_left ::
  "'a list \<Rightarrow> ('a \<Rightarrow> string \<times> int) \<Rightarrow> firm_row list \<Rightarrow> ('a \<times> firm_row option) list" where
  "merge_left left_rows on firm =
     concat (map (\<lambda>b.
        (case filter (\<lambda>f. (BoardName f, firm_year f) = on b) firm of
           [] \<Rightarrow> [(b, None)]
         | m # ms \<Rightarrow> map (\<lambda>f. (b, Some f)) (m # ms))) left_rows)"

definition col_of :: "(firm_row \<Rightarrow> string \<Rightarrow> f32) \<Rightarrow> firm_row option \<Rightarrow> string \<Rightarrow> f32" where
  "col_of c f = (case f of None \<Rightarrow> (\<lambda>g. None) | Some r \<Rightarrow> c r)"

definition attach_entity_batch ::
  "base_row list \<Rightarrow> string list \<Rightarrow> firm_row list \<Rightarrow> string list \<Rightarrow> tmp_row list option" where
  "attach_entity_batch base valid citeline groups =
     (if groups = [] then None
      else
        (let firm = filter (\<lambda>f. BoardName f \<in> set valid) citeline;
             m1 = merge_left base (\<lambda>b. (BoardName1 b, year b)) firm;
             m2 = merge_left m1 (\<lambda>(b, f1). (BoardName2 b, year b)) firm;
             tmp = map (\<lambda>((b, f1), f2).
                     base_row.extend b
                       (tmp_row.fields (col_of cum_n_added f1) (col_of cum_n_launch f1)
                          (col_of cum_n_added f2) (col_of cum_n_launch f2))) m2
         in Some (sort_key pair_year tmp)))"

section \<open>The lag, lead and LAST cache: \<open>_build_shift_last_cache\<close>\<close>

text \<open>
  The cache is a dictionary with eighteen fixed keys (prefixed \<open>c_\<close> here); the source holds
  under each key the columns of all groups of the batch, the embedding the column of one
  group \<open>g\<close>. The shifts of side 1 are grouped by \<open>BoardName1\<close>, those of side 2 by
  \<open>BoardName2\<close>, the LAST values by the pair.
\<close>

record shift_cache =
  c_cur_o1 :: "f32 list"
  c_cur_o2 :: "f32 list"
  c_cur_l1 :: "f32 list"
  c_cur_l2 :: "f32 list"
  c_L1_o1 :: "f32 list"
  c_L1_o2 :: "f32 list"
  c_F1_o1 :: "f32 list"
  c_F2_o1 :: "f32 list"
  c_F3_o1 :: "f32 list"
  c_F1_o2 :: "f32 list"
  c_F2_o2 :: "f32 list"
  c_F3_o2 :: "f32 list"
  c_L1_l1 :: "f32 list"
  c_L1_l2 :: "f32 list"
  c_LAST_o1 :: "f32 list"
  c_LAST_o2 :: "f32 list"
  c_LAST_l1 :: "f32 list"
  c_LAST_l2 :: "f32 list"

definition build_shift_last_cache :: "tmp_row list \<Rightarrow> string \<Rightarrow> shift_cache" where
  "build_shift_last_cache tmp g =
     (let add1 = map (\<lambda>r. added_1 r g) tmp;
          add2 = map (\<lambda>r. added_2 r g) tmp;
          lau1 = map (\<lambda>r. launch_1 r g) tmp;
          lau2 = map (\<lambda>r. launch_2 r g) tmp;
          g1 = map BoardName1 tmp;
          g2 = map BoardName2 tmp;
          gp = map pair tmp
      in \<lparr> c_cur_o1 = add1, c_cur_o2 = add2, c_cur_l1 = lau1, c_cur_l2 = lau2,
           c_L1_o1 = groupby_shift g1 add1 1,
           c_L1_o2 = groupby_shift g2 add2 1,
           c_F1_o1 = groupby_shift g1 add1 (- 1),
           c_F2_o1 = groupby_shift g1 add1 (- 2),
           c_F3_o1 = groupby_shift g1 add1 (- 3),
           c_F1_o2 = groupby_shift g2 add2 (- 1),
           c_F2_o2 = groupby_shift g2 add2 (- 2),
           c_F3_o2 = groupby_shift g2 add2 (- 3),
           c_L1_l1 = groupby_shift g1 lau1 1,
           c_L1_l2 = groupby_shift g2 lau2 1,
           c_LAST_o1 = groupby_last gp add1,
           c_LAST_o2 = groupby_last gp add2,
           c_LAST_l1 = groupby_last gp lau1,
           c_LAST_l2 = groupby_last gp lau2 \<rparr>)"

section \<open>The arrays of one group\<close>

text \<open>
  \<open>arr\<close> is the dictionary of aligned one-dimensional arrays that \<open>prepare_arrays_fast\<close>
  builds for one group; every key of the dictionary is a field (the six base masks, which
  share their names with columns of the base table, carry the prefix \<open>arr_\<close>).
\<close>

record arrays =
  cur_o1 :: "f32 list"
  cur_o2 :: "f32 list"
  L1_o1 :: "f32 list"
  L1_o2 :: "f32 list"
  F1_o1 :: "f32 list"
  F2_o1 :: "f32 list"
  F3_o1 :: "f32 list"
  F1_o2 :: "f32 list"
  F2_o2 :: "f32 list"
  F3_o2 :: "f32 list"
  L1_l1 :: "f32 list"
  L1_l2 :: "f32 list"
  LAST_o1 :: "f32 list"
  LAST_o2 :: "f32 list"
  LAST_l1 :: "f32 list"
  LAST_l2 :: "f32 list"
  arr_mask_indirect :: "bool list"
  arr_mask_direct :: "bool list"
  arr_mask_none :: "bool list"
  arr_mask_indirect_yoy :: "bool list"
  arr_mask_direct_yoy :: "bool list"
  arr_mask_never :: "bool list"
  ok1 :: "bool list"
  ok2 :: "bool list"

subsection \<open>\<open>prepare_arrays_fast\<close>\<close>

record base_masks =
  bm_mask_indirect :: "bool list"
  bm_mask_direct :: "bool list"
  bm_mask_none :: "bool list"
  bm_mask_indirect_yoy :: "bool list"
  bm_mask_direct_yoy :: "bool list"
  bm_mask_never :: "bool list"

definition pair_groups :: "tmp_row list \<Rightarrow> ((string \<times> string) \<times> nat list) list" where
  "pair_groups tmp =
     map (\<lambda>k. (k, filter (\<lambda>i. pair (tmp ! i) = k) [0..<length tmp])) (remdups (map pair tmp))"

definition prepare_arrays_fast ::
  "base_masks \<Rightarrow> ((string \<times> string) \<times> nat list) list \<Rightarrow> shift_cache \<Rightarrow> error + arrays" where
  "prepare_arrays_fast bm pair_groups_index cache =
     (case compute_causal_flags_for_pairs pair_groups_index
             (c_cur_o1 cache) (c_cur_l1 cache) (c_cur_o2 cache) (c_cur_l2 cache) of
        Inl e \<Rightarrow> Inl e
      | Inr (flags1, flags2) \<Rightarrow>
          Inr \<lparr> cur_o1 = c_cur_o1 cache, cur_o2 = c_cur_o2 cache,
                L1_o1 = c_L1_o1 cache, L1_o2 = c_L1_o2 cache,
                F1_o1 = c_F1_o1 cache, F2_o1 = c_F2_o1 cache, F3_o1 = c_F3_o1 cache,
                F1_o2 = c_F1_o2 cache, F2_o2 = c_F2_o2 cache, F3_o2 = c_F3_o2 cache,
                L1_l1 = c_L1_l1 cache, L1_l2 = c_L1_l2 cache,
                LAST_o1 = c_LAST_o1 cache, LAST_o2 = c_LAST_o2 cache,
                LAST_l1 = c_LAST_l1 cache, LAST_l2 = c_LAST_l2 cache,
                arr_mask_indirect = bm_mask_indirect bm, arr_mask_direct = bm_mask_direct bm,
                arr_mask_none = bm_mask_none bm,
                arr_mask_indirect_yoy = bm_mask_indirect_yoy bm,
                arr_mask_direct_yoy = bm_mask_direct_yoy bm,
                arr_mask_never = bm_mask_never bm,
                ok1 = flags1, ok2 = flags2 \<rparr>)"

section \<open>The classification engine: \<open>compute_bundle_counts\<close>\<close>

text \<open>
  The source writes every mask as one vectorised NumPy expression over whole arrays and has
  no check of their lengths. The function is therefore embedded in two layers: first the
  array expressions as NumPy evaluates them, operand lengths included, which give
  \<open>compute_bundle_counts\<close>; then the element of each mask at a row \<open>i\<close>, which is what the
  expressions denote when all arrays have one common length (the link between the two is
  proved below as \<open>mats_np_same_shape\<close>).
\<close>

subsection \<open>NumPy arrays and element-wise operators\<close>

text \<open>
  The value of a NumPy expression over one-dimensional arrays is an array, or the ValueError
  that two operands of incompatible lengths raise. An element-wise operator of two arrays
  accepts equal lengths and stretches an operand of length one to the length of the other;
  an operator with a scalar never fails. \<open>np_ands\<close> and \<open>np_ors\<close> are chains
  \<open>x & y & z\<close> and \<open>x | y | z\<close>, which associate to the left.
\<close>

type_synonym 'a nd = "error + 'a list"

definition bc_len :: "nat \<Rightarrow> nat \<Rightarrow> nat option" where
  "bc_len m n = (if m = n then Some m else if m = 1 then Some n else if n = 1 then Some m else None)"

definition bnth :: "'a list \<Rightarrow> nat \<Rightarrow> 'a" where
  "bnth xs i = (if length xs = 1 then xs ! 0 else xs ! i)"

definition np1 :: "('a \<Rightarrow> 'b) \<Rightarrow> 'a nd \<Rightarrow> 'b nd" where
  "np1 f x = (case x of Inl e \<Rightarrow> Inl e | Inr xs \<Rightarrow> Inr (map f xs))"

definition np2 :: "('a \<Rightarrow> 'b \<Rightarrow> 'c) \<Rightarrow> 'a nd \<Rightarrow> 'b nd \<Rightarrow> 'c nd" where
  "np2 f x y =
     (case x of
        Inl e \<Rightarrow> Inl e
      | Inr xs \<Rightarrow>
          (case y of
             Inl e \<Rightarrow> Inl e
           | Inr ys \<Rightarrow>
               (case bc_len (length xs) (length ys) of
                  None \<Rightarrow> Inl ValueError
                | Some n \<Rightarrow> Inr (map (\<lambda>i. f (bnth xs i) (bnth ys i)) [0..<n]))))"

definition np_isnan :: "f32 nd \<Rightarrow> bool nd" where
  "np_isnan = np1 isnan"

definition np_not :: "bool nd \<Rightarrow> bool nd" where
  "np_not = np1 Not"

definition np_gt0 :: "f32 nd \<Rightarrow> bool nd" where
  "np_gt0 = np1 gt0"

definition np_eq0 :: "f32 nd \<Rightarrow> bool nd" where
  "np_eq0 = np1 eq0"

definition np_gt :: "f32 nd \<Rightarrow> f32 nd \<Rightarrow> bool nd" where
  "np_gt = np2 gt"

definition np_and :: "bool nd \<Rightarrow> bool nd \<Rightarrow> bool nd" where
  "np_and = np2 (\<lambda>a b. a \<and> b)"

definition np_or :: "bool nd \<Rightarrow> bool nd \<Rightarrow> bool nd" where
  "np_or = np2 (\<lambda>a b. a \<or> b)"

fun np_ands :: "bool nd list \<Rightarrow> bool nd" where
  "np_ands [] = Inr []"
| "np_ands (x # xs) = foldl np_and x xs"

fun np_ors :: "bool nd list \<Rightarrow> bool nd" where
  "np_ors [] = Inr []"
| "np_ors (x # xs) = foldl np_or x xs"

subsection \<open>The masks as the source computes them\<close>

text \<open>
  Each definition is one assignment of \<open>compute_bundle_counts\<close>, with the source's
  grouping of the operands; the suffix \<open>_np\<close> marks the array-level definition of the
  source's variable of that name. The first operand of every mask is the base mask.
\<close>

definition mask_na_orig_np :: "arrays \<Rightarrow> bool nd" where
  "mask_na_orig_np arr =
     np_and (np_not (np_isnan (Inr (L1_o1 arr)))) (np_not (np_isnan (Inr (L1_o2 arr))))"

definition mask_na_launch_np :: "arrays \<Rightarrow> bool nd" where
  "mask_na_launch_np arr =
     np_and (np_not (np_isnan (Inr (L1_l1 arr)))) (np_not (np_isnan (Inr (L1_l2 arr))))"

definition mask_na_future_np :: "arrays \<Rightarrow> bool nd" where
  "mask_na_future_np arr =
     np_and (np_not (np_isnan (Inr (F3_o1 arr)))) (np_not (np_isnan (Inr (F3_o2 arr))))"

definition both_inexp_lag_np :: "arrays \<Rightarrow> bool nd" where
  "both_inexp_lag_np arr =
     np_and (np1 (\<lambda>x. nan_to_num (-1) x = 0) (Inr (L1_o1 arr)))
       (np1 (\<lambda>x. nan_to_num (-1) x = 0) (Inr (L1_o2 arr)))"

definition starts1_t_to_t2_np :: "arrays \<Rightarrow> bool nd" where
  "starts1_t_to_t2_np arr =
     np_ors [np_gt (Inr (cur_o1 arr)) (Inr (L1_o1 arr)), np_gt (Inr (F1_o1 arr)) (Inr (L1_o1 arr)),
             np_gt (Inr (F2_o1 arr)) (Inr (L1_o1 arr)), np_gt (Inr (F3_o1 arr)) (Inr (L1_o1 arr))]"

definition starts2_t_to_t2_np :: "arrays \<Rightarrow> bool nd" where
  "starts2_t_to_t2_np arr =
     np_ors [np_gt (Inr (cur_o2 arr)) (Inr (L1_o2 arr)), np_gt (Inr (F1_o2 arr)) (Inr (L1_o2 arr)),
             np_gt (Inr (F2_o2 arr)) (Inr (L1_o2 arr)), np_gt (Inr (F3_o2 arr)) (Inr (L1_o2 arr))]"

definition starts1_by_last_np :: "arrays \<Rightarrow> bool nd" where
  "starts1_by_last_np arr =
     np_gt (Inr (LAST_o1 arr)) (Inr (L1_o1 arr))"

definition starts2_by_last_np :: "arrays \<Rightarrow> bool nd" where
  "starts2_by_last_np arr =
     np_gt (Inr (LAST_o2 arr)) (Inr (L1_o2 arr))"

definition launched1_by_last_np :: "arrays \<Rightarrow> bool nd" where
  "launched1_by_last_np arr =
     np_gt (Inr (LAST_l1 arr)) (Inr (L1_l1 arr))"

definition launched2_by_last_np :: "arrays \<Rightarrow> bool nd" where
  "launched2_by_last_np arr =
     np_gt (Inr (LAST_l2 arr)) (Inr (L1_l2 arr))"

definition either_starts_t_to_t2_and_launched_np :: "arrays \<Rightarrow> bool nd" where
  "either_starts_t_to_t2_and_launched_np arr =
     np_or (np_ands [starts1_t_to_t2_np arr, launched1_by_last_np arr, Inr (ok1 arr)])
       (np_ands [starts2_t_to_t2_np arr, launched2_by_last_np arr, Inr (ok2 arr)])"

definition either_starts_by_last_np :: "arrays \<Rightarrow> bool nd" where
  "either_starts_by_last_np arr =
     np_or (starts1_by_last_np arr) (starts2_by_last_np arr)"

definition b_second_base_np :: "arrays \<Rightarrow> bool nd" where
  "b_second_base_np arr =
     np_ands [mask_na_orig_np arr, mask_na_launch_np arr, 
       np_or (np_and (np_eq0 (Inr (L1_l1 arr))) (np_eq0 (Inr (L1_o2 arr)))) (np_and (np_eq0 (Inr (L1_o1 arr))) (np_eq0 (Inr (L1_l2 arr))))]"

definition a1_np :: "arrays \<Rightarrow> bool list \<Rightarrow> bool nd" where
  "a1_np arr base_mask =
     np_ands [Inr base_mask, mask_na_orig_np arr,
       np_or (np_ands [np_gt0 (Inr (L1_o1 arr)), np_eq0 (Inr (L1_o2 arr))])
         (np_ands [np_eq0 (Inr (L1_o1 arr)), np_gt0 (Inr (L1_o2 arr))])]"

definition a2_np :: "arrays \<Rightarrow> bool list \<Rightarrow> bool nd" where
  "a2_np arr base_mask =
     np_ands [Inr base_mask, mask_na_orig_np arr,
       np_or (np_ands [np_gt0 (Inr (L1_o1 arr)), np_eq0 (Inr (L1_o2 arr)), np_gt0 (Inr (cur_o2 arr))])
         (np_ands [np_eq0 (Inr (L1_o1 arr)), np_gt0 (Inr (L1_o2 arr)), np_gt0 (Inr (cur_o1 arr))])]"

definition a3_np :: "arrays \<Rightarrow> bool list \<Rightarrow> bool nd" where
  "a3_np arr base_mask =
     np_ands [Inr base_mask, mask_na_orig_np arr, mask_na_future_np arr,
       np_or (np_ands [np_gt0 (Inr (L1_o1 arr)), np_eq0 (Inr (L1_o2 arr)), np_gt0 (Inr (F3_o2 arr))])
         (np_ands [np_eq0 (Inr (L1_o1 arr)), np_gt0 (Inr (L1_o2 arr)), np_gt0 (Inr (F3_o1 arr))])]"

definition a4_np :: "arrays \<Rightarrow> bool list \<Rightarrow> bool nd" where
  "a4_np arr base_mask =
     np_ands [Inr base_mask, mask_na_orig_np arr, mask_na_future_np arr, mask_na_launch_np arr,
       np_or (np_ands [np_gt0 (Inr (L1_o1 arr)), np_eq0 (Inr (L1_o2 arr)), starts2_t_to_t2_np arr, launched2_by_last_np arr, Inr (ok2 arr)])
         (np_ands [np_eq0 (Inr (L1_o1 arr)), np_gt0 (Inr (L1_o2 arr)), starts1_t_to_t2_np arr, launched1_by_last_np arr, Inr (ok1 arr)])]"

definition a5_np :: "arrays \<Rightarrow> bool list \<Rightarrow> bool nd" where
  "a5_np arr base_mask =
     np_ands [Inr base_mask, mask_na_orig_np arr, mask_na_future_np arr,
       np_or (np_ands [np_gt0 (Inr (L1_o1 arr)), np_eq0 (Inr (L1_o2 arr)), starts2_by_last_np arr])
         (np_ands [np_eq0 (Inr (L1_o1 arr)), np_gt0 (Inr (L1_o2 arr)), starts1_by_last_np arr])]"

definition a6_np :: "arrays \<Rightarrow> bool list \<Rightarrow> bool nd" where
  "a6_np arr base_mask =
     np_ands [Inr base_mask, mask_na_orig_np arr, both_inexp_lag_np arr]"

definition a7_np :: "arrays \<Rightarrow> bool list \<Rightarrow> bool nd" where
  "a7_np arr base_mask =
     np_ands [Inr base_mask, mask_na_orig_np arr, both_inexp_lag_np arr,
       np_or (np_gt0 (Inr (cur_o1 arr))) (np_gt0 (Inr (cur_o2 arr)))]"

definition a8_np :: "arrays \<Rightarrow> bool list \<Rightarrow> bool nd" where
  "a8_np arr base_mask =
     np_ands [Inr base_mask, mask_na_orig_np arr, mask_na_future_np arr, both_inexp_lag_np arr,
       np_or (np_gt0 (Inr (F3_o1 arr))) (np_gt0 (Inr (F3_o2 arr)))]"

definition a9_np :: "arrays \<Rightarrow> bool list \<Rightarrow> bool nd" where
  "a9_np arr base_mask =
     np_ands [Inr base_mask, mask_na_orig_np arr, mask_na_future_np arr, mask_na_launch_np arr, both_inexp_lag_np arr, either_starts_t_to_t2_and_launched_np arr]"

definition a10_np :: "arrays \<Rightarrow> bool list \<Rightarrow> bool nd" where
  "a10_np arr base_mask =
     np_ands [Inr base_mask, mask_na_orig_np arr, mask_na_future_np arr, both_inexp_lag_np arr, either_starts_by_last_np arr]"

definition b1_np :: "arrays \<Rightarrow> bool list \<Rightarrow> bool nd" where
  "b1_np arr base_mask =
     np_ands [Inr base_mask, mask_na_orig_np arr, mask_na_launch_np arr,
       np_or (np_ands [np_gt0 (Inr (L1_l1 arr)), np_eq0 (Inr (L1_o2 arr))])
         (np_ands [np_eq0 (Inr (L1_o1 arr)), np_gt0 (Inr (L1_l2 arr))])]"

definition b2_np :: "arrays \<Rightarrow> bool list \<Rightarrow> bool nd" where
  "b2_np arr base_mask =
     np_ands [Inr base_mask, mask_na_orig_np arr, mask_na_launch_np arr,
       np_or (np_ands [np_gt0 (Inr (L1_l1 arr)), np_eq0 (Inr (L1_o2 arr)), np_gt0 (Inr (cur_o2 arr))])
         (np_ands [np_eq0 (Inr (L1_o1 arr)), np_gt0 (Inr (L1_l2 arr)), np_gt0 (Inr (cur_o1 arr))])]"

definition b3_np :: "arrays \<Rightarrow> bool list \<Rightarrow> bool nd" where
  "b3_np arr base_mask =
     np_ands [Inr base_mask, mask_na_orig_np arr, mask_na_launch_np arr, mask_na_future_np arr,
       np_or (np_ands [np_gt0 (Inr (L1_l1 arr)), np_eq0 (Inr (L1_o2 arr)), np_gt0 (Inr (F3_o2 arr))])
         (np_ands [np_eq0 (Inr (L1_o1 arr)), np_gt0 (Inr (L1_l2 arr)), np_gt0 (Inr (F3_o1 arr))])]"

definition b4_np :: "arrays \<Rightarrow> bool list \<Rightarrow> bool nd" where
  "b4_np arr base_mask =
     np_ands [Inr base_mask, mask_na_orig_np arr, mask_na_launch_np arr, mask_na_future_np arr,
       np_or (np_ands [np_gt0 (Inr (L1_l1 arr)), np_eq0 (Inr (L1_o2 arr)), starts2_t_to_t2_np arr, launched2_by_last_np arr, Inr (ok2 arr)])
         (np_ands [np_eq0 (Inr (L1_o1 arr)), np_gt0 (Inr (L1_l2 arr)), starts1_t_to_t2_np arr, launched1_by_last_np arr, Inr (ok1 arr)])]"

definition b5_np :: "arrays \<Rightarrow> bool list \<Rightarrow> bool nd" where
  "b5_np arr base_mask =
     np_ands [Inr base_mask, mask_na_orig_np arr, mask_na_launch_np arr, mask_na_future_np arr,
       np_or (np_ands [np_gt0 (Inr (L1_l1 arr)), np_eq0 (Inr (L1_o2 arr)), starts2_by_last_np arr])
         (np_ands [np_eq0 (Inr (L1_o1 arr)), np_gt0 (Inr (L1_l2 arr)), starts1_by_last_np arr])]"

definition b6_np :: "arrays \<Rightarrow> bool list \<Rightarrow> bool nd" where
  "b6_np arr base_mask =
     np_and (Inr base_mask) (b_second_base_np arr)"

definition b7_np :: "arrays \<Rightarrow> bool list \<Rightarrow> bool nd" where
  "b7_np arr base_mask =
     np_ands [Inr base_mask, mask_na_orig_np arr, mask_na_launch_np arr,
       np_or (np_ands [np_eq0 (Inr (L1_l1 arr)), np_eq0 (Inr (L1_o2 arr)), np_gt0 (Inr (cur_o2 arr))])
         (np_ands [np_eq0 (Inr (L1_l2 arr)), np_eq0 (Inr (L1_o1 arr)), np_gt0 (Inr (cur_o1 arr))])]"

definition b8_np :: "arrays \<Rightarrow> bool list \<Rightarrow> bool nd" where
  "b8_np arr base_mask =
     np_ands [Inr base_mask, mask_na_orig_np arr, mask_na_launch_np arr, mask_na_future_np arr,
       np_or (np_ands [np_eq0 (Inr (L1_l1 arr)), np_eq0 (Inr (L1_o2 arr)), np_gt0 (Inr (F3_o2 arr))])
         (np_ands [np_eq0 (Inr (L1_l2 arr)), np_eq0 (Inr (L1_o1 arr)), np_gt0 (Inr (F3_o1 arr))])]"

definition b9_np :: "arrays \<Rightarrow> bool list \<Rightarrow> bool nd" where
  "b9_np arr base_mask =
     np_ands [Inr base_mask, mask_na_orig_np arr, mask_na_launch_np arr, mask_na_future_np arr,
       np_or (np_ands [np_eq0 (Inr (L1_l1 arr)), np_eq0 (Inr (L1_o2 arr)), np_ands [starts2_t_to_t2_np arr, launched2_by_last_np arr, Inr (ok2 arr)]])
         (np_ands [np_eq0 (Inr (L1_l2 arr)), np_eq0 (Inr (L1_o1 arr)), np_ands [starts1_t_to_t2_np arr, launched1_by_last_np arr, Inr (ok1 arr)]])]"

definition b10_np :: "arrays \<Rightarrow> bool list \<Rightarrow> bool nd" where
  "b10_np arr base_mask =
     np_ands [Inr base_mask, mask_na_orig_np arr, mask_na_launch_np arr, mask_na_future_np arr,
       np_or (np_ands [np_eq0 (Inr (L1_l1 arr)), np_eq0 (Inr (L1_o2 arr)), starts2_by_last_np arr])
         (np_ands [np_eq0 (Inr (L1_l2 arr)), np_eq0 (Inr (L1_o1 arr)), starts1_by_last_np arr])]"

definition rn1_np :: "arrays \<Rightarrow> bool list \<Rightarrow> bool nd" where
  "rn1_np arr base_mask =
     np_ands [Inr base_mask, mask_na_orig_np arr, mask_na_launch_np arr,
       np_or (np_ands [np_gt0 (Inr (L1_o1 arr)), np_eq0 (Inr (L1_o2 arr)), np_eq0 (Inr (L1_l1 arr))])
         (np_ands [np_eq0 (Inr (L1_o1 arr)), np_gt0 (Inr (L1_o2 arr)), np_eq0 (Inr (L1_l2 arr))])]"

definition rn2_np :: "arrays \<Rightarrow> bool list \<Rightarrow> bool nd" where
  "rn2_np arr base_mask =
     np_ands [Inr base_mask, mask_na_orig_np arr, mask_na_launch_np arr,
       np_or (np_ands [np_gt0 (Inr (L1_o1 arr)), np_eq0 (Inr (L1_o2 arr)), np_eq0 (Inr (L1_l1 arr)), np_gt0 (Inr (cur_o2 arr))])
         (np_ands [np_eq0 (Inr (L1_o1 arr)), np_gt0 (Inr (L1_o2 arr)), np_eq0 (Inr (L1_l2 arr)), np_gt0 (Inr (cur_o1 arr))])]"

definition rn3_np :: "arrays \<Rightarrow> bool list \<Rightarrow> bool nd" where
  "rn3_np arr base_mask =
     np_ands [Inr base_mask, mask_na_orig_np arr, mask_na_launch_np arr, mask_na_future_np arr,
       np_or (np_ands [np_gt0 (Inr (L1_o1 arr)), np_eq0 (Inr (L1_o2 arr)), np_eq0 (Inr (L1_l1 arr)), np_gt0 (Inr (F3_o2 arr))])
         (np_ands [np_eq0 (Inr (L1_o1 arr)), np_gt0 (Inr (L1_o2 arr)), np_eq0 (Inr (L1_l2 arr)), np_gt0 (Inr (F3_o1 arr))])]"

definition rn4_np :: "arrays \<Rightarrow> bool list \<Rightarrow> bool nd" where
  "rn4_np arr base_mask =
     np_ands [Inr base_mask, mask_na_orig_np arr, mask_na_launch_np arr, mask_na_future_np arr,
       np_or (np_ands [np_gt0 (Inr (L1_o1 arr)), np_eq0 (Inr (L1_o2 arr)), np_eq0 (Inr (L1_l1 arr)), np_ands [starts2_t_to_t2_np arr, launched2_by_last_np arr, Inr (ok2 arr)]])
         (np_ands [np_eq0 (Inr (L1_o1 arr)), np_gt0 (Inr (L1_o2 arr)), np_eq0 (Inr (L1_l2 arr)), np_ands [starts1_t_to_t2_np arr, launched1_by_last_np arr, Inr (ok1 arr)]])]"

definition rn5_np :: "arrays \<Rightarrow> bool list \<Rightarrow> bool nd" where
  "rn5_np arr base_mask =
     np_ands [Inr base_mask, mask_na_orig_np arr, mask_na_launch_np arr, mask_na_future_np arr,
       np_or (np_ands [np_gt0 (Inr (L1_o1 arr)), np_eq0 (Inr (L1_o2 arr)), np_eq0 (Inr (L1_l1 arr)), np_gt (Inr (LAST_o2 arr)) (Inr (L1_o2 arr))])
         (np_ands [np_eq0 (Inr (L1_o1 arr)), np_gt0 (Inr (L1_o2 arr)), np_eq0 (Inr (L1_l2 arr)), np_gt (Inr (LAST_o1 arr)) (Inr (L1_o1 arr))])]"

subsection \<open>The 25 masks and their counts\<close>

text \<open>
  \<open>msum\<close> is \<open>int(m.sum())\<close> of a Boolean array. An exception raised while a mask is
  computed leaves the function; otherwise the 25 counts are returned, in the order of
  the source's list \<open>mats\<close>.
\<close>

definition msum :: "bool list \<Rightarrow> int" where
  "msum m = int (length (filter (\<lambda>b. b) m))"

definition mats_np :: "arrays \<Rightarrow> bool list \<Rightarrow> bool nd list" where
  "mats_np arr base_mask =
     [a1_np arr base_mask, a2_np arr base_mask, a3_np arr base_mask, a4_np arr base_mask,
      a5_np arr base_mask, a6_np arr base_mask, a7_np arr base_mask, a8_np arr base_mask,
      a9_np arr base_mask, a10_np arr base_mask,
      b1_np arr base_mask, b2_np arr base_mask, b3_np arr base_mask, b4_np arr base_mask,
      b5_np arr base_mask, b6_np arr base_mask, b7_np arr base_mask, b8_np arr base_mask,
      b9_np arr base_mask, b10_np arr base_mask,
      rn1_np arr base_mask, rn2_np arr base_mask, rn3_np arr base_mask, rn4_np arr base_mask,
      rn5_np arr base_mask]"

fun collect :: "'a nd list \<Rightarrow> error + 'a list list" where
  "collect [] = Inr []"
| "collect (x # xs) =
     (case x of
        Inl e \<Rightarrow> Inl e
      | Inr m \<Rightarrow> (case collect xs of Inl e \<Rightarrow> Inl e | Inr ms \<Rightarrow> Inr (m # ms)))"

definition compute_bundle_counts :: "arrays \<Rightarrow> bool list \<Rightarrow> error + int list" where
  "compute_bundle_counts arr base_mask =
     (case collect (mats_np arr base_mask) of
        Inl e \<Rightarrow> Inl e
      | Inr ms \<Rightarrow> Inr (map msum ms))"

subsection \<open>The masks row by row\<close>

text \<open>
  All the operators of the expressions above work element by element. For arrays of one
  common length the element of each intermediate array and of each mask at row \<open>i\<close> is:
\<close>

definition mask_na_orig :: "arrays \<Rightarrow> nat \<Rightarrow> bool" where
  "mask_na_orig arr i = (\<not> isnan (L1_o1 arr ! i) \<and> \<not> isnan (L1_o2 arr ! i))"

definition mask_na_launch :: "arrays \<Rightarrow> nat \<Rightarrow> bool" where
  "mask_na_launch arr i = (\<not> isnan (L1_l1 arr ! i) \<and> \<not> isnan (L1_l2 arr ! i))"

definition mask_na_future :: "arrays \<Rightarrow> nat \<Rightarrow> bool" where
  "mask_na_future arr i = (\<not> isnan (F3_o1 arr ! i) \<and> \<not> isnan (F3_o2 arr ! i))"

definition both_inexp_lag :: "arrays \<Rightarrow> nat \<Rightarrow> bool" where
  "both_inexp_lag arr i =
     (nan_to_num (-1) (L1_o1 arr ! i) = 0 \<and> nan_to_num (-1) (L1_o2 arr ! i) = 0)"

definition starts1_t_to_t2 :: "arrays \<Rightarrow> nat \<Rightarrow> bool" where
  "starts1_t_to_t2 arr i =
     (gt (cur_o1 arr ! i) (L1_o1 arr ! i) \<or> gt (F1_o1 arr ! i) (L1_o1 arr ! i) \<or>
      gt (F2_o1 arr ! i) (L1_o1 arr ! i) \<or> gt (F3_o1 arr ! i) (L1_o1 arr ! i))"

definition starts2_t_to_t2 :: "arrays \<Rightarrow> nat \<Rightarrow> bool" where
  "starts2_t_to_t2 arr i =
     (gt (cur_o2 arr ! i) (L1_o2 arr ! i) \<or> gt (F1_o2 arr ! i) (L1_o2 arr ! i) \<or>
      gt (F2_o2 arr ! i) (L1_o2 arr ! i) \<or> gt (F3_o2 arr ! i) (L1_o2 arr ! i))"

definition starts1_by_last :: "arrays \<Rightarrow> nat \<Rightarrow> bool" where
  "starts1_by_last arr i = gt (LAST_o1 arr ! i) (L1_o1 arr ! i)"

definition starts2_by_last :: "arrays \<Rightarrow> nat \<Rightarrow> bool" where
  "starts2_by_last arr i = gt (LAST_o2 arr ! i) (L1_o2 arr ! i)"

definition launched1_by_last :: "arrays \<Rightarrow> nat \<Rightarrow> bool" where
  "launched1_by_last arr i = gt (LAST_l1 arr ! i) (L1_l1 arr ! i)"

definition launched2_by_last :: "arrays \<Rightarrow> nat \<Rightarrow> bool" where
  "launched2_by_last arr i = gt (LAST_l2 arr ! i) (L1_l2 arr ! i)"

definition either_starts_t_to_t2_and_launched :: "arrays \<Rightarrow> nat \<Rightarrow> bool" where
  "either_starts_t_to_t2_and_launched arr i =
     ((starts1_t_to_t2 arr i \<and> launched1_by_last arr i \<and> ok1 arr ! i) \<or>
      (starts2_t_to_t2 arr i \<and> launched2_by_last arr i \<and> ok2 arr ! i))"

definition either_starts_by_last :: "arrays \<Rightarrow> nat \<Rightarrow> bool" where
  "either_starts_by_last arr i = (starts1_by_last arr i \<or> starts2_by_last arr i)"

definition b_second_base :: "arrays \<Rightarrow> nat \<Rightarrow> bool" where
  "b_second_base arr i =
     (mask_na_orig arr i \<and> mask_na_launch arr i \<and>
      ((eq0 (L1_l1 arr ! i) \<and> eq0 (L1_o2 arr ! i)) \<or>
       (eq0 (L1_o1 arr ! i) \<and> eq0 (L1_l2 arr ! i))))"

subsection \<open>a.1 to a.10\<close>

definition a1 :: "arrays \<Rightarrow> bool list \<Rightarrow> nat \<Rightarrow> bool" where
  "a1 arr base_mask i =
     (base_mask ! i \<and> mask_na_orig arr i \<and>
      ((gt0 (L1_o1 arr ! i) \<and> eq0 (L1_o2 arr ! i)) \<or>
       (eq0 (L1_o1 arr ! i) \<and> gt0 (L1_o2 arr ! i))))"

definition a2 :: "arrays \<Rightarrow> bool list \<Rightarrow> nat \<Rightarrow> bool" where
  "a2 arr base_mask i =
     (base_mask ! i \<and> mask_na_orig arr i \<and>
      ((gt0 (L1_o1 arr ! i) \<and> eq0 (L1_o2 arr ! i) \<and> gt0 (cur_o2 arr ! i)) \<or>
       (eq0 (L1_o1 arr ! i) \<and> gt0 (L1_o2 arr ! i) \<and> gt0 (cur_o1 arr ! i))))"

definition a3 :: "arrays \<Rightarrow> bool list \<Rightarrow> nat \<Rightarrow> bool" where
  "a3 arr base_mask i =
     (base_mask ! i \<and> mask_na_orig arr i \<and> mask_na_future arr i \<and>
      ((gt0 (L1_o1 arr ! i) \<and> eq0 (L1_o2 arr ! i) \<and> gt0 (F3_o2 arr ! i)) \<or>
       (eq0 (L1_o1 arr ! i) \<and> gt0 (L1_o2 arr ! i) \<and> gt0 (F3_o1 arr ! i))))"

definition a4 :: "arrays \<Rightarrow> bool list \<Rightarrow> nat \<Rightarrow> bool" where
  "a4 arr base_mask i =
     (base_mask ! i \<and> mask_na_orig arr i \<and> mask_na_future arr i \<and> mask_na_launch arr i \<and>
      ((gt0 (L1_o1 arr ! i) \<and> eq0 (L1_o2 arr ! i) \<and>
          starts2_t_to_t2 arr i \<and> launched2_by_last arr i \<and> ok2 arr ! i) \<or>
       (eq0 (L1_o1 arr ! i) \<and> gt0 (L1_o2 arr ! i) \<and>
          starts1_t_to_t2 arr i \<and> launched1_by_last arr i \<and> ok1 arr ! i)))"

definition a5 :: "arrays \<Rightarrow> bool list \<Rightarrow> nat \<Rightarrow> bool" where
  "a5 arr base_mask i =
     (base_mask ! i \<and> mask_na_orig arr i \<and> mask_na_future arr i \<and>
      ((gt0 (L1_o1 arr ! i) \<and> eq0 (L1_o2 arr ! i) \<and> starts2_by_last arr i) \<or>
       (eq0 (L1_o1 arr ! i) \<and> gt0 (L1_o2 arr ! i) \<and> starts1_by_last arr i)))"

definition a6 :: "arrays \<Rightarrow> bool list \<Rightarrow> nat \<Rightarrow> bool" where
  "a6 arr base_mask i = (base_mask ! i \<and> mask_na_orig arr i \<and> both_inexp_lag arr i)"

definition a7 :: "arrays \<Rightarrow> bool list \<Rightarrow> nat \<Rightarrow> bool" where
  "a7 arr base_mask i =
     (base_mask ! i \<and> mask_na_orig arr i \<and> both_inexp_lag arr i \<and>
      (gt0 (cur_o1 arr ! i) \<or> gt0 (cur_o2 arr ! i)))"

definition a8 :: "arrays \<Rightarrow> bool list \<Rightarrow> nat \<Rightarrow> bool" where
  "a8 arr base_mask i =
     (base_mask ! i \<and> mask_na_orig arr i \<and> mask_na_future arr i \<and> both_inexp_lag arr i \<and>
      (gt0 (F3_o1 arr ! i) \<or> gt0 (F3_o2 arr ! i)))"

definition a9 :: "arrays \<Rightarrow> bool list \<Rightarrow> nat \<Rightarrow> bool" where
  "a9 arr base_mask i =
     (base_mask ! i \<and> mask_na_orig arr i \<and> mask_na_future arr i \<and> mask_na_launch arr i \<and>
      both_inexp_lag arr i \<and> either_starts_t_to_t2_and_launched arr i)"

definition a10 :: "arrays \<Rightarrow> bool list \<Rightarrow> nat \<Rightarrow> bool" where
  "a10 arr base_mask i =
     (base_mask ! i \<and> mask_na_orig arr i \<and> mask_na_future arr i \<and> both_inexp_lag arr i \<and>
      either_starts_by_last arr i)"

subsection \<open>b.1 to b.10\<close>

definition b1 :: "arrays \<Rightarrow> bool list \<Rightarrow> nat \<Rightarrow> bool" where
  "b1 arr base_mask i =
     (base_mask ! i \<and> mask_na_orig arr i \<and> mask_na_launch arr i \<and>
      ((gt0 (L1_l1 arr ! i) \<and> eq0 (L1_o2 arr ! i)) \<or>
       (eq0 (L1_o1 arr ! i) \<and> gt0 (L1_l2 arr ! i))))"

definition b2 :: "arrays \<Rightarrow> bool list \<Rightarrow> nat \<Rightarrow> bool" where
  "b2 arr base_mask i =
     (base_mask ! i \<and> mask_na_orig arr i \<and> mask_na_launch arr i \<and>
      ((gt0 (L1_l1 arr ! i) \<and> eq0 (L1_o2 arr ! i) \<and> gt0 (cur_o2 arr ! i)) \<or>
       (eq0 (L1_o1 arr ! i) \<and> gt0 (L1_l2 arr ! i) \<and> gt0 (cur_o1 arr ! i))))"

definition b3 :: "arrays \<Rightarrow> bool list \<Rightarrow> nat \<Rightarrow> bool" where
  "b3 arr base_mask i =
     (base_mask ! i \<and> mask_na_orig arr i \<and> mask_na_launch arr i \<and> mask_na_future arr i \<and>
      ((gt0 (L1_l1 arr ! i) \<and> eq0 (L1_o2 arr ! i) \<and> gt0 (F3_o2 arr ! i)) \<or>
       (eq0 (L1_o1 arr ! i) \<and> gt0 (L1_l2 arr ! i) \<and> gt0 (F3_o1 arr ! i))))"

definition b4 :: "arrays \<Rightarrow> bool list \<Rightarrow> nat \<Rightarrow> bool" where
  "b4 arr base_mask i =
     (base_mask ! i \<and> mask_na_orig arr i \<and> mask_na_launch arr i \<and> mask_na_future arr i \<and>
      ((gt0 (L1_l1 arr ! i) \<and> eq0 (L1_o2 arr ! i) \<and>
          starts2_t_to_t2 arr i \<and> launched2_by_last arr i \<and> ok2 arr ! i) \<or>
       (eq0 (L1_o1 arr ! i) \<and> gt0 (L1_l2 arr ! i) \<and>
          starts1_t_to_t2 arr i \<and> launched1_by_last arr i \<and> ok1 arr ! i)))"

definition b5 :: "arrays \<Rightarrow> bool list \<Rightarrow> nat \<Rightarrow> bool" where
  "b5 arr base_mask i =
     (base_mask ! i \<and> mask_na_orig arr i \<and> mask_na_launch arr i \<and> mask_na_future arr i \<and>
      ((gt0 (L1_l1 arr ! i) \<and> eq0 (L1_o2 arr ! i) \<and> starts2_by_last arr i) \<or>
       (eq0 (L1_o1 arr ! i) \<and> gt0 (L1_l2 arr ! i) \<and> starts1_by_last arr i)))"

definition b6 :: "arrays \<Rightarrow> bool list \<Rightarrow> nat \<Rightarrow> bool" where
  "b6 arr base_mask i = (base_mask ! i \<and> b_second_base arr i)"

definition b7 :: "arrays \<Rightarrow> bool list \<Rightarrow> nat \<Rightarrow> bool" where
  "b7 arr base_mask i =
     (base_mask ! i \<and> mask_na_orig arr i \<and> mask_na_launch arr i \<and>
      ((eq0 (L1_l1 arr ! i) \<and> eq0 (L1_o2 arr ! i) \<and> gt0 (cur_o2 arr ! i)) \<or>
       (eq0 (L1_l2 arr ! i) \<and> eq0 (L1_o1 arr ! i) \<and> gt0 (cur_o1 arr ! i))))"

definition b8 :: "arrays \<Rightarrow> bool list \<Rightarrow> nat \<Rightarrow> bool" where
  "b8 arr base_mask i =
     (base_mask ! i \<and> mask_na_orig arr i \<and> mask_na_launch arr i \<and> mask_na_future arr i \<and>
      ((eq0 (L1_l1 arr ! i) \<and> eq0 (L1_o2 arr ! i) \<and> gt0 (F3_o2 arr ! i)) \<or>
       (eq0 (L1_l2 arr ! i) \<and> eq0 (L1_o1 arr ! i) \<and> gt0 (F3_o1 arr ! i))))"

definition b9 :: "arrays \<Rightarrow> bool list \<Rightarrow> nat \<Rightarrow> bool" where
  "b9 arr base_mask i =
     (base_mask ! i \<and> mask_na_orig arr i \<and> mask_na_launch arr i \<and> mask_na_future arr i \<and>
      ((eq0 (L1_l1 arr ! i) \<and> eq0 (L1_o2 arr ! i) \<and>
          (starts2_t_to_t2 arr i \<and> launched2_by_last arr i \<and> ok2 arr ! i)) \<or>
       (eq0 (L1_l2 arr ! i) \<and> eq0 (L1_o1 arr ! i) \<and>
          (starts1_t_to_t2 arr i \<and> launched1_by_last arr i \<and> ok1 arr ! i))))"

definition b10 :: "arrays \<Rightarrow> bool list \<Rightarrow> nat \<Rightarrow> bool" where
  "b10 arr base_mask i =
     (base_mask ! i \<and> mask_na_orig arr i \<and> mask_na_launch arr i \<and> mask_na_future arr i \<and>
      ((eq0 (L1_l1 arr ! i) \<and> eq0 (L1_o2 arr ! i) \<and> starts2_by_last arr i) \<or>
       (eq0 (L1_l2 arr ! i) \<and> eq0 (L1_o1 arr ! i) \<and> starts1_by_last arr i)))"

subsection \<open>rn.1 to rn.5\<close>

definition rn1 :: "arrays \<Rightarrow> bool list \<Rightarrow> nat \<Rightarrow> bool" where
  "rn1 arr base_mask i =
     (base_mask ! i \<and> mask_na_orig arr i \<and> mask_na_launch arr i \<and>
      ((gt0 (L1_o1 arr ! i) \<and> eq0 (L1_o2 arr ! i) \<and> eq0 (L1_l1 arr ! i)) \<or>
       (eq0 (L1_o1 arr ! i) \<and> gt0 (L1_o2 arr ! i) \<and> eq0 (L1_l2 arr ! i))))"

definition rn2 :: "arrays \<Rightarrow> bool list \<Rightarrow> nat \<Rightarrow> bool" where
  "rn2 arr base_mask i =
     (base_mask ! i \<and> mask_na_orig arr i \<and> mask_na_launch arr i \<and>
      ((gt0 (L1_o1 arr ! i) \<and> eq0 (L1_o2 arr ! i) \<and> eq0 (L1_l1 arr ! i) \<and>
          gt0 (cur_o2 arr ! i)) \<or>
       (eq0 (L1_o1 arr ! i) \<and> gt0 (L1_o2 arr ! i) \<and> eq0 (L1_l2 arr ! i) \<and>
          gt0 (cur_o1 arr ! i))))"

definition rn3 :: "arrays \<Rightarrow> bool list \<Rightarrow> nat \<Rightarrow> bool" where
  "rn3 arr base_mask i =
     (base_mask ! i \<and> mask_na_orig arr i \<and> mask_na_launch arr i \<and> mask_na_future arr i \<and>
      ((gt0 (L1_o1 arr ! i) \<and> eq0 (L1_o2 arr ! i) \<and> eq0 (L1_l1 arr ! i) \<and>
          gt0 (F3_o2 arr ! i)) \<or>
       (eq0 (L1_o1 arr ! i) \<and> gt0 (L1_o2 arr ! i) \<and> eq0 (L1_l2 arr ! i) \<and>
          gt0 (F3_o1 arr ! i))))"

definition rn4 :: "arrays \<Rightarrow> bool list \<Rightarrow> nat \<Rightarrow> bool" where
  "rn4 arr base_mask i =
     (base_mask ! i \<and> mask_na_orig arr i \<and> mask_na_launch arr i \<and> mask_na_future arr i \<and>
      ((gt0 (L1_o1 arr ! i) \<and> eq0 (L1_o2 arr ! i) \<and> eq0 (L1_l1 arr ! i) \<and>
          (starts2_t_to_t2 arr i \<and> launched2_by_last arr i \<and> ok2 arr ! i)) \<or>
       (eq0 (L1_o1 arr ! i) \<and> gt0 (L1_o2 arr ! i) \<and> eq0 (L1_l2 arr ! i) \<and>
          (starts1_t_to_t2 arr i \<and> launched1_by_last arr i \<and> ok1 arr ! i))))"

definition rn5 :: "arrays \<Rightarrow> bool list \<Rightarrow> nat \<Rightarrow> bool" where
  "rn5 arr base_mask i =
     (base_mask ! i \<and> mask_na_orig arr i \<and> mask_na_launch arr i \<and> mask_na_future arr i \<and>
      ((gt0 (L1_o1 arr ! i) \<and> eq0 (L1_o2 arr ! i) \<and> eq0 (L1_l1 arr ! i) \<and>
          gt (LAST_o2 arr ! i) (L1_o2 arr ! i)) \<or>
       (eq0 (L1_o1 arr ! i) \<and> gt0 (L1_o2 arr ! i) \<and> eq0 (L1_l2 arr ! i) \<and>
          gt (LAST_o1 arr ! i) (L1_o1 arr ! i))))"

text \<open>
  \<open>vec\<close> builds an array of length \<open>n\<close> from its elements, \<open>mats\<close> the 25 masks from
  their elements, and \<open>same_shape\<close> says that every array the function reads has length
  \<open>n\<close>.
\<close>

definition vec :: "nat \<Rightarrow> (nat \<Rightarrow> bool) \<Rightarrow> bool list" where
  "vec n f = map f [0..<n]"

definition mask_fns :: "(arrays \<Rightarrow> bool list \<Rightarrow> nat \<Rightarrow> bool) list" where
  "mask_fns = [a1, a2, a3, a4, a5, a6, a7, a8, a9, a10,
               b1, b2, b3, b4, b5, b6, b7, b8, b9, b10,
               rn1, rn2, rn3, rn4, rn5]"

definition mats :: "arrays \<Rightarrow> bool list \<Rightarrow> bool list list" where
  "mats arr base_mask = map (\<lambda>m. vec (length base_mask) (m arr base_mask)) mask_fns"

definition same_shape :: "arrays \<Rightarrow> nat \<Rightarrow> bool" where
  "same_shape arr n =
     (length (cur_o1 arr) = n \<and> length (cur_o2 arr) = n \<and>
      length (L1_o1 arr) = n \<and> length (L1_o2 arr) = n \<and>
      length (F1_o1 arr) = n \<and> length (F2_o1 arr) = n \<and> length (F3_o1 arr) = n \<and>
      length (F1_o2 arr) = n \<and> length (F2_o2 arr) = n \<and> length (F3_o2 arr) = n \<and>
      length (L1_l1 arr) = n \<and> length (L1_l2 arr) = n \<and>
      length (LAST_o1 arr) = n \<and> length (LAST_o2 arr) = n \<and>
      length (LAST_l1 arr) = n \<and> length (LAST_l2 arr) = n \<and>
      length (ok1 arr) = n \<and> length (ok2 arr) = n)"

section \<open>Counts, shares and report rows\<close>

text \<open>
  A cell of a report row is a string, an integer or a float. \<open>counts_shares\<close> is
  \<open>_counts_shares\<close>; the quotient is the exact one. \<open>scenario_block\<close> is the part
  \<open>[tot, 1.0 if tot else 0.0] + _counts_shares(compute_bundle_counts(arr, mask), tot)\<close> that
  every row of \<open>run_entity\<close> is built from.
\<close>

datatype cell = CStr string | CInt int | CFloat real

definition counts_shares :: "int list \<Rightarrow> int \<Rightarrow> cell list" where
  "counts_shares counts tot =
     (if tot \<le> 0 then concat (map (\<lambda>c. [CInt c, CFloat 0]) counts)
      else concat (map (\<lambda>c. [CInt c, CFloat (real_of_int c / real_of_int tot)]) counts))"

definition total_share :: "int \<Rightarrow> cell" where
  "total_share tot = CFloat (if tot \<noteq> 0 then 1 else 0)"

record totals_master =
  tot_indirect :: int
  tot_direct :: int
  tot_none :: int

definition scenario_block :: "arrays \<Rightarrow> bool list \<Rightarrow> int \<Rightarrow> error + cell list" where
  "scenario_block arr base_mask tot =
     (case compute_bundle_counts arr base_mask of
        Inl e \<Rightarrow> Inl e
      | Inr cs \<Rightarrow> Inr ([CInt tot, total_share tot] @ counts_shares cs tot))"

definition master_row :: "string \<Rightarrow> arrays \<Rightarrow> totals_master \<Rightarrow> error + cell list" where
  "master_row g arr totals =
     (case scenario_block arr (arr_mask_indirect arr) (tot_indirect totals) of
        Inl e \<Rightarrow> Inl e
      | Inr b_ind \<Rightarrow>
     (case scenario_block arr (arr_mask_direct arr) (tot_direct totals) of
        Inl e \<Rightarrow> Inl e
      | Inr b_dir \<Rightarrow>
     (case scenario_block arr (arr_mask_none arr) (tot_none totals) of
        Inl e \<Rightarrow> Inl e
      | Inr b_non \<Rightarrow> Inr ([CStr g] @ b_ind @ b_dir @ b_non))))"

definition yoy_row :: "string \<Rightarrow> arrays \<Rightarrow> bool list \<Rightarrow> error + cell list" where
  "yoy_row g arr msk =
     (case scenario_block arr msk (msum msk) of
        Inl e \<Rightarrow> Inl e
      | Inr b \<Rightarrow> Inr ([CStr g] @ b))"

definition hist_row :: "string \<Rightarrow> string \<Rightarrow> arrays \<Rightarrow> bool list \<Rightarrow> error + cell list" where
  "hist_row g label arr msk =
     (case scenario_block arr msk (msum msk) of
        Inl e \<Rightarrow> Inl e
      | Inr b \<Rightarrow> Inr ([CStr g, CStr label] @ b))"

definition mask_and :: "bool list \<Rightarrow> bool list \<Rightarrow> bool list" where
  "mask_and xs ys = map2 (\<lambda>a b. a \<and> b) xs ys"

section \<open>Column names and file names\<close>

definition istr :: "nat \<Rightarrow> string" where
  "istr i = (if i < 10 then [char_of (48 + i)]
             else [char_of (48 + i div 10), char_of (48 + i mod 10)])"

definition block_cols :: "string \<Rightarrow> string \<Rightarrow> string \<Rightarrow> string list" where
  "block_cols a b rn =
     concat (map (\<lambda>i. [a @ ''.'' @ istr i @ ''_Count'', a @ ''.'' @ istr i @ ''_Share'']) [1..<11]) @
     concat (map (\<lambda>i. [b @ ''.'' @ istr i @ ''_Count'', b @ ''.'' @ istr i @ ''_Share'']) [1..<11]) @
     concat (map (\<lambda>i. [rn @ istr i @ ''_Count'', rn @ istr i @ ''_Share'']) [1..<6])"

definition master_cols :: "string list" where
  "master_cols =
     [''GroupName''] @
     [''Total_Indirect_Event_Count'', ''Total_Indirect_Event_Share''] @
     block_cols ''a'' ''b'' ''ab.rn'' @
     [''Total_Direct_Event_Count'', ''Total_Direct_Event_Share''] @
     block_cols ''e'' ''f'' ''ef.rn'' @
     [''Total_NoInterlock_Event_Count'', ''Total_NoInterlock_Event_Share''] @
     block_cols ''c'' ''d'' ''cd.rn''"

definition yoy_cols :: "string \<Rightarrow> string \<Rightarrow> string list" where
  "yoy_cols prefix_total_count prefix_total_share =
     [''GroupName'', prefix_total_count, prefix_total_share] @ block_cols ''a'' ''b'' ''rn''"

definition fname :: "string \<Rightarrow> string \<Rightarrow> string" where
  "fname entity base = (if entity = ''disease'' then base else ''therapeutic_'' @ base)"

definition key_col :: "string \<Rightarrow> string" where
  "key_col entity = (if entity = ''disease'' then ''DiseaseGroup'' else ''TherapeuticGroup'')"

section \<open>Emitters\<close>

text \<open>
  A written file is its name, its header and its rows. The legacy tables select the columns
  of one scenario block of the master table by name: the key column and the 52 columns of
  the block, renamed as the source does.
\<close>

type_synonym csv = "string \<times> string list \<times> cell list list"

definition legacy_block :: "nat \<Rightarrow> cell list list \<Rightarrow> cell list list" where
  "legacy_block k rows = map (\<lambda>r. take 1 r @ take 52 (drop (1 + 52 * k) r)) rows"

definition emit_master :: "string \<Rightarrow> cell list list \<Rightarrow> csv list" where
  "emit_master entity rows =
     (let master_name = ''full_'' @ (if entity = ''disease'' then ''disease'' else ''therapeutic'')
                          @ ''_results_with_all_scenarios.csv''
      in [(master_name, key_col entity # tl master_cols, rows),
          (fname entity ''originate_changes_interlock_indirect_with_shares.csv'',
           [key_col entity, ''Total_Interlock_Event_Count'', ''Total_Interlock_Event_Share'']
             @ block_cols ''a'' ''b'' ''ab.rn'',
           legacy_block 0 rows),
          (fname entity ''originate_changes_interlock_direct_with_shares.csv'',
           [key_col entity, ''Total_Direct_Interlock_Event_Count'',
            ''Total_Direct_Interlock_Event_Share''] @ block_cols ''a'' ''b'' ''ef.rn'',
           legacy_block 1 rows),
          (fname entity ''originate_changes_not_interlock_indirect_with_shares.csv'',
           [key_col entity, ''Total_NoInterlock_Event_Count'', ''Total_NoInterlock_Event_Share'']
             @ block_cols ''c'' ''d'' ''cd.rn'',
           legacy_block 2 rows)])"

definition hist_cols :: "string \<Rightarrow> string \<Rightarrow> string \<Rightarrow> string list" where
  "hist_cols key tc ts = [key, ''HistoryBucket'', tc, ts] @ block_cols ''a'' ''b'' ''rn''"

definition emit_yoy ::
  "string \<Rightarrow> cell list list \<Rightarrow> cell list list \<Rightarrow> cell list list \<Rightarrow> cell list list \<Rightarrow>
   cell list list \<Rightarrow> csv list" where
  "emit_yoy entity indirect_rs indirect_hist_rs direct_rs direct_hist_rs never_rs =
     [(fname entity ''originate_changes_interlock_indirect_with_shares_YoY_events.csv'',
       key_col entity # tl (yoy_cols ''Total_Interlock_Event_Count'' ''Total_Interlock_Event_Share''),
       indirect_rs),
      (fname entity ''originate_changes_interlock_indirect_with_shares_by_prior_direct_history.csv'',
       hist_cols (key_col entity) ''Total_Interlock_Event_Count'' ''Total_Interlock_Event_Share'',
       indirect_hist_rs),
      (fname entity ''originate_changes_interlock_direct_with_shares_YoY_events.csv'',
       key_col entity # tl (yoy_cols ''Total_Direct_Interlock_Event_Count''
                              ''Total_Direct_Interlock_Event_Share''),
       direct_rs),
      (fname entity ''originate_changes_interlock_direct_with_share_by_prior_direct_history.csv'',
       hist_cols (key_col entity) ''Total_Direct_Interlock_Event_Count''
         ''Total_Direct_Interlock_Event_Share'',
       direct_hist_rs),
      (fname entity ''originate_changes_not_interlock_with_shares_YoY_events.csv'',
       key_col entity # tl (yoy_cols ''Total_NoInterlock_Event_Count''
                              ''Total_NoInterlock_Event_Share''),
       never_rs)]"

section \<open>Running one entity: \<open>run_entity\<close>\<close>

text \<open>
  \<open>group_rows\<close> is the body of the loop over the groups of a batch, \<open>groups_loop\<close> that loop,
  \<open>batch_loop\<close> the loop over \<open>range(0, len(groups), BATCH)\<close>; the six lists of rows are the
  state. An exception raised in the loops leaves \<open>run_entity\<close> before anything is written;
  with no groups the function returns at once and writes nothing.
\<close>

definition bind_err :: "error + 'a \<Rightarrow> ('a \<Rightarrow> error + 'b) \<Rightarrow> error + 'b" where
  "bind_err m f = (case m of Inl e \<Rightarrow> Inl e | Inr x \<Rightarrow> f x)"

record row_lists =
  master_rows :: "cell list list"
  indirect_rows :: "cell list list"
  indirect_hist_rows :: "cell list list"
  direct_rows :: "cell list list"
  direct_hist_rows :: "cell list list"
  never_rows :: "cell list list"

definition no_rows :: row_lists where
  "no_rows = \<lparr> master_rows = [], indirect_rows = [], indirect_hist_rows = [],
               direct_rows = [], direct_hist_rows = [], never_rows = [] \<rparr>"

definition group_rows ::
  "base_row list \<Rightarrow> totals_master \<Rightarrow> tmp_row list \<Rightarrow> string \<Rightarrow> row_lists \<Rightarrow> error + row_lists" where
  "group_rows base_df totals tmp g acc =
     (let m_indirect_yoy = map mask_indirect_yoy base_df;
          m_direct_yoy = map mask_direct_yoy base_df;
          m_never = map mask_never base_df;
          hist_no_prior = map (\<lambda>r. cum_interlock_direct_prev r = 0) base_df;
          hist_prior = map (\<lambda>r. cum_interlock_direct_prev r > 0) base_df;
          bm = \<lparr> bm_mask_indirect = map mask_indirect tmp,
                 bm_mask_direct = map mask_direct tmp,
                 bm_mask_none = map mask_no_interlock tmp,
                 bm_mask_indirect_yoy = map mask_indirect_yoy tmp,
                 bm_mask_direct_yoy = map mask_direct_yoy tmp,
                 bm_mask_never = map mask_never tmp \<rparr>
      in
      bind_err (prepare_arrays_fast bm (pair_groups tmp) (build_shift_last_cache tmp g)) (\<lambda>arr.
      bind_err (master_row g arr totals) (\<lambda>row.
      bind_err (yoy_row g arr m_indirect_yoy) (\<lambda>r_i.
      bind_err (hist_row g ''no_prior_direct'' arr (mask_and m_indirect_yoy hist_no_prior)) (\<lambda>r_i0.
      bind_err (hist_row g ''prior_direct'' arr (mask_and m_indirect_yoy hist_prior)) (\<lambda>r_i1.
      bind_err (yoy_row g arr m_direct_yoy) (\<lambda>r_d.
      bind_err (hist_row g ''no_prior_direct'' arr (mask_and m_direct_yoy hist_no_prior)) (\<lambda>r_d0.
      bind_err (hist_row g ''prior_direct'' arr (mask_and m_direct_yoy hist_prior)) (\<lambda>r_d1.
      bind_err (yoy_row g arr m_never) (\<lambda>r_n.
        Inr \<lparr> master_rows = master_rows acc @ [row],
              indirect_rows = indirect_rows acc @ [r_i],
              indirect_hist_rows = indirect_hist_rows acc @ [r_i0, r_i1],
              direct_rows = direct_rows acc @ [r_d],
              direct_hist_rows = direct_hist_rows acc @ [r_d0, r_d1],
              never_rows = never_rows acc @ [r_n] \<rparr>))))))))))"

fun groups_loop ::
  "base_row list \<Rightarrow> totals_master \<Rightarrow> tmp_row list \<Rightarrow> string list \<Rightarrow> row_lists \<Rightarrow> error + row_lists" where
  "groups_loop base_df totals tmp [] acc = Inr acc"
| "groups_loop base_df totals tmp (g # gs) acc =
     bind_err (group_rows base_df totals tmp g acc) (groups_loop base_df totals tmp gs)"

definition range_step :: "nat \<Rightarrow> int \<Rightarrow> error + nat list" where
  "range_step n step =
     (if step = 0 then Inl ValueError
      else if step < 0 then Inr []
      else Inr (filter (\<lambda>s. s mod nat step = 0) [0..<n]))"

fun batch_loop ::
  "base_row list \<Rightarrow> totals_master \<Rightarrow> string list \<Rightarrow> firm_row list \<Rightarrow> string list \<Rightarrow> int \<Rightarrow>
   nat list \<Rightarrow> row_lists \<Rightarrow> error + row_lists" where
  "batch_loop base_df totals valid citeline groups BATCH [] acc = Inr acc"
| "batch_loop base_df totals valid citeline groups BATCH (s # ss) acc =
     (let batch = take (nat BATCH) (drop s groups)
      in case attach_entity_batch base_df valid citeline batch of
           None \<Rightarrow> batch_loop base_df totals valid citeline groups BATCH ss acc
         | Some tmp \<Rightarrow>
             if tmp = [] then batch_loop base_df totals valid citeline groups BATCH ss acc
             else bind_err (groups_loop base_df totals tmp batch acc)
                    (batch_loop base_df totals valid citeline groups BATCH ss))"

definition run_entity ::
  "base_row list \<Rightarrow> string \<Rightarrow> string list \<Rightarrow> int \<Rightarrow> string list \<Rightarrow> firm_row list \<Rightarrow>
   error + csv list" where
  "run_entity base_df entity groups BATCH valid citeline =
     (if groups = [] then Inr []
      else
        (let totals = \<lparr> tot_indirect = msum (map mask_indirect base_df),
                        tot_direct = msum (map mask_direct base_df),
                        tot_none = msum (map mask_no_interlock base_df) \<rparr>
         in bind_err (range_step (length groups) BATCH) (\<lambda>starts.
            bind_err (batch_loop base_df totals valid citeline groups BATCH starts no_rows) (\<lambda>acc.
              Inr (emit_master entity (master_rows acc) @
                   emit_yoy entity (indirect_rows acc) (indirect_hist_rows acc)
                     (direct_rows acc) (direct_hist_rows acc) (never_rows acc))))))"

section \<open>The whole run: \<open>main\<close>\<close>

text \<open>
  The result of a run is the list of files written and the exception that ended it, if
  any. \<open>citeline\<close> gives, for an entity, the firm-year table with that entity's columns.
\<close>

fun entities_loop ::
  "base_row list \<Rightarrow> (string \<times> string list) list \<Rightarrow> string list \<Rightarrow> (string \<Rightarrow> firm_row list) \<Rightarrow>
   string list \<Rightarrow> csv list \<Rightarrow> csv list \<times> error option" where
  "entities_loop df groups_by_entity valid citeline [] written = (written, None)"
| "entities_loop df groups_by_entity valid citeline (ent # ents) written =
     (case run_entity df ent (case map_of groups_by_entity ent of None \<Rightarrow> [] | Some gs \<Rightarrow> gs)
             20 valid (citeline ent) of
        Inl e \<Rightarrow> (written, Some e)
      | Inr files \<Rightarrow> entities_loop df groups_by_entity valid citeline ents (written @ files))"

definition main ::
  "string list \<Rightarrow> string list \<Rightarrow> interlock_row list \<Rightarrow> (string \<Rightarrow> firm_row list) \<Rightarrow>
   string list \<Rightarrow> csv list \<times> error option" where
  "main cols0 valid interlock citeline run_entities =
     (case build_base cols0 run_entities valid interlock of
        Inl e \<Rightarrow> ([], Some e)
      | Inr (df, groups_by_entity) \<Rightarrow>
          entities_loop df groups_by_entity valid citeline run_entities [])"

section \<open>Auxiliary definitions for the statements\<close>

text \<open>
  \<open>base_totals\<close> is the dictionary \<open>totals_master\<close> that \<open>run_entity\<close> computes from the
  base table; \<open>totals_cells\<close> says that a master row has 157 cells and carries these
  totals and their shares in the six total columns.
\<close>

definition base_totals :: "base_row list \<Rightarrow> totals_master" where
  "base_totals base_df =
     \<lparr> tot_indirect = msum (map mask_indirect base_df),
       tot_direct = msum (map mask_direct base_df),
       tot_none = msum (map mask_no_interlock base_df) \<rparr>"

definition totals_cells :: "totals_master \<Rightarrow> cell list \<Rightarrow> bool" where
  "totals_cells totals r =
     (length r = 157 \<and>
      r ! 1 = CInt (tot_indirect totals) \<and> r ! 2 = total_share (tot_indirect totals) \<and>
      r ! 53 = CInt (tot_direct totals) \<and> r ! 54 = total_share (tot_direct totals) \<and>
      r ! 105 = CInt (tot_none totals) \<and> r ! 106 = total_share (tot_none totals))"

text \<open>
  \<open>rep n x f\<close>: the array expression \<open>x\<close> evaluates without an exception to the array of
  length \<open>n\<close> whose element at \<open>i\<close> is \<open>f i\<close>. \<open>below bm x\<close>: if \<open>x\<close> evaluates to an
  array, that array has the length of \<open>bm\<close> and is true only where \<open>bm\<close> is.
\<close>

definition rep :: "nat \<Rightarrow> 'a nd \<Rightarrow> (nat \<Rightarrow> 'a) \<Rightarrow> bool" where
  "rep n x f = (x = Inr (map f [0..<n]))"

definition below :: "bool list \<Rightarrow> bool nd \<Rightarrow> bool" where
  "below bm x =
     (case x of
        Inl e \<Rightarrow> True
      | Inr m \<Rightarrow> length m = length bm \<and> (\<forall>i < length bm. m ! i \<longrightarrow> bm ! i))"

text \<open>
  \<open>yoy_cells tot r\<close>: the YoY row \<open>r\<close> has 53 cells, its total count (column 1) is the
  non-negative number \<open>tot\<close>, its total share (column 2) is exactly 1 when \<open>tot\<close> is
  positive and exactly 0 otherwise, and when \<open>tot\<close> is 0 each of its 25 mask shares
  (columns 4, 6, ..., 52) is exactly 0. \<open>hist_cells\<close> is the same for a row of a history
  table, which has the bucket label in column 1 and everything else one column further.
  \<open>hist_pairs\<close>: a history table is a sequence of pairs of rows, the first of the bucket
  \<open>no_prior_direct\<close> and the second of the bucket \<open>prior_direct\<close>. \<open>yoy_tables\<close> puts these
  together for the five YoY tables of a run with \<open>n\<close> master rows: the totals are the
  numbers of true rows of the YoY masks of the base table, intersected with the history
  bucket for the history tables.
\<close>

definition yoy_cells :: "int \<Rightarrow> cell list \<Rightarrow> bool" where
  "yoy_cells tot r =
     (length r = 53 \<and> 0 \<le> tot \<and> r ! 1 = CInt tot \<and>
      r ! 2 = CFloat (if 0 < tot then 1 else 0) \<and>
      (tot = 0 \<longrightarrow> (\<forall>k < 25. r ! (4 + 2 * k) = CFloat 0)))"

definition hist_cells :: "string \<Rightarrow> int \<Rightarrow> cell list \<Rightarrow> bool" where
  "hist_cells label tot r =
     (length r = 54 \<and> r ! 1 = CStr label \<and> 0 \<le> tot \<and> r ! 2 = CInt tot \<and>
      r ! 3 = CFloat (if 0 < tot then 1 else 0) \<and>
      (tot = 0 \<longrightarrow> (\<forall>k < 25. r ! (5 + 2 * k) = CFloat 0)))"

fun hist_pairs :: "int \<Rightarrow> int \<Rightarrow> cell list list \<Rightarrow> bool" where
  "hist_pairs t0 t1 [] = True"
| "hist_pairs t0 t1 [r] = False"
| "hist_pairs t0 t1 (r0 # r1 # rs) =
     (hist_cells ''no_prior_direct'' t0 r0 \<and> hist_cells ''prior_direct'' t1 r1 \<and>
      hist_pairs t0 t1 rs)"

definition yoy_tables ::
  "base_row list \<Rightarrow> nat \<Rightarrow> cell list list \<Rightarrow> cell list list \<Rightarrow> cell list list \<Rightarrow>
   cell list list \<Rightarrow> cell list list \<Rightarrow> bool" where
  "yoy_tables base_df n indirect_rs indirect_hist_rs direct_rs direct_hist_rs never_rs =
     (let m_indirect_yoy = map mask_indirect_yoy base_df;
          m_direct_yoy = map mask_direct_yoy base_df;
          m_never = map mask_never base_df;
          hist_no_prior = map (\<lambda>r. cum_interlock_direct_prev r = 0) base_df;
          hist_prior = map (\<lambda>r. cum_interlock_direct_prev r > 0) base_df
      in length indirect_rs = n \<and> length indirect_hist_rs = 2 * n \<and>
         length direct_rs = n \<and> length direct_hist_rs = 2 * n \<and> length never_rs = n \<and>
         (\<forall>r \<in> set indirect_rs. yoy_cells (msum m_indirect_yoy) r) \<and>
         hist_pairs (msum (mask_and m_indirect_yoy hist_no_prior))
           (msum (mask_and m_indirect_yoy hist_prior)) indirect_hist_rs \<and>
         (\<forall>r \<in> set direct_rs. yoy_cells (msum m_direct_yoy) r) \<and>
         hist_pairs (msum (mask_and m_direct_yoy hist_no_prior))
           (msum (mask_and m_direct_yoy hist_prior)) direct_hist_rs \<and>
         (\<forall>r \<in> set never_rs. yoy_cells (msum m_never) r))"

section \<open>Example data\<close>

subsection \<open>A two-row bundle\<close>

text \<open>
  Row 0: both firms had zero origination in the previous year, firm 1's previous launch
  count is missing. Row 1: firm 1's previous origination and launch counts are missing.
\<close>

definition gate_arr :: arrays where
  "gate_arr = \<lparr>
     cur_o1 = [Some 1, Some 1], cur_o2 = [Some 0, Some 0],
     L1_o1 = [Some 0, None], L1_o2 = [Some 0, Some 0],
     F1_o1 = [Some 1, Some 1], F2_o1 = [Some 1, Some 1], F3_o1 = [Some 1, Some 1],
     F1_o2 = [Some 0, Some 0], F2_o2 = [Some 0, Some 0], F3_o2 = [Some 0, Some 0],
     L1_l1 = [None, None], L1_l2 = [Some 0, Some 0],
     LAST_o1 = [Some 1, Some 1], LAST_o2 = [Some 0, Some 0],
     LAST_l1 = [Some 0, Some 0], LAST_l2 = [Some 0, Some 0],
     arr_mask_indirect = [True, True], arr_mask_direct = [False, False],
     arr_mask_none = [False, False],
     arr_mask_indirect_yoy = [True, True], arr_mask_direct_yoy = [False, False],
     arr_mask_never = [False, False],
     ok1 = [False, False], ok2 = [False, False] \<rparr>"

subsection \<open>A three-row bundle\<close>

text \<open>
  The arrays of a joined table of three rows: the lag-1 values of the first row are
  missing, those of the other two rows are zero.
\<close>

definition c5_arr :: arrays where
  "c5_arr = \<lparr>
     cur_o1 = [Some 0, Some 0, Some 0], cur_o2 = [Some 0, Some 0, Some 0],
     L1_o1 = [None, Some 0, Some 0], L1_o2 = [None, Some 0, Some 0],
     F1_o1 = [Some 0, Some 0, None], F2_o1 = [Some 0, None, None], F3_o1 = [None, None, None],
     F1_o2 = [Some 0, Some 0, None], F2_o2 = [Some 0, None, None], F3_o2 = [None, None, None],
     L1_l1 = [None, Some 0, Some 0], L1_l2 = [None, Some 0, Some 0],
     LAST_o1 = [Some 0, Some 0, Some 0], LAST_o2 = [Some 0, Some 0, Some 0],
     LAST_l1 = [Some 0, Some 0, Some 0], LAST_l2 = [Some 0, Some 0, Some 0],
     arr_mask_indirect = [True, True, True], arr_mask_direct = [False, False, False],
     arr_mask_none = [False, False, False],
     arr_mask_indirect_yoy = [True, True, True], arr_mask_direct_yoy = [False, False, False],
     arr_mask_never = [False, False, False],
     ok1 = [False, False, False], ok2 = [False, False, False] \<rparr>"

subsection \<open>A one-row bundle\<close>

definition one_arr :: arrays where
  "one_arr = \<lparr>
     cur_o1 = [Some 1], cur_o2 = [Some 0],
     L1_o1 = [Some 0], L1_o2 = [Some 0],
     F1_o1 = [Some 1], F2_o1 = [Some 1], F3_o1 = [Some 1],
     F1_o2 = [Some 0], F2_o2 = [Some 0], F3_o2 = [Some 0],
     L1_l1 = [Some 0], L1_l2 = [Some 0],
     LAST_o1 = [Some 1], LAST_o2 = [Some 0],
     LAST_l1 = [Some 0], LAST_l2 = [Some 0],
     arr_mask_indirect = [True], arr_mask_direct = [False],
     arr_mask_none = [False],
     arr_mask_indirect_yoy = [True], arr_mask_direct_yoy = [False],
     arr_mask_never = [False],
     ok1 = [False], ok2 = [False] \<rparr>"

subsection \<open>An interlock table\<close>

definition ex_interlock :: "interlock_row list" where
  "ex_interlock =
     [\<lparr>BoardName1 = ''A'', BoardName2 = ''B'', year = 2003,
        interlock_indirect_raw = Some 1, interlock_direct_raw = None\<rparr>,
      \<lparr>BoardName1 = ''A'', BoardName2 = ''B'', year = 2000,
        interlock_indirect_raw = Some 0, interlock_direct_raw = Some 0\<rparr>,
      \<lparr>BoardName1 = ''A'', BoardName2 = ''B'', year = 2001,
        interlock_indirect_raw = Some 1, interlock_direct_raw = Some 0\<rparr>,
      \<lparr>BoardName1 = ''A'', BoardName2 = ''B'', year = 2002,
        interlock_indirect_raw = Some 0, interlock_direct_raw = Some 1\<rparr>]"

subsection \<open>Two pairs of one firm, and a firm-year table\<close>

definition ex_valid :: "string list" where
  "ex_valid = [''A'', ''B'', ''C'']"

definition ex_pairs_interlock :: "interlock_row list" where
  "ex_pairs_interlock =
     [\<lparr>BoardName1 = ''A'', BoardName2 = ''B'', year = 2000,
        interlock_indirect_raw = Some 0, interlock_direct_raw = Some 0\<rparr>,
      \<lparr>BoardName1 = ''A'', BoardName2 = ''B'', year = 2001,
        interlock_indirect_raw = Some 1, interlock_direct_raw = Some 0\<rparr>,
      \<lparr>BoardName1 = ''A'', BoardName2 = ''C'', year = 2000,
        interlock_indirect_raw = Some 0, interlock_direct_raw = Some 0\<rparr>,
      \<lparr>BoardName1 = ''A'', BoardName2 = ''C'', year = 2001,
        interlock_indirect_raw = Some 0, interlock_direct_raw = Some 1\<rparr>]"

definition ex_citeline :: "firm_row list" where
  "ex_citeline =
     [\<lparr>BoardName = ''A'', firm_year = 2000, cum_n_added = (\<lambda>g. Some 0), cum_n_launch = (\<lambda>g. Some 0)\<rparr>,
      \<lparr>BoardName = ''A'', firm_year = 2001, cum_n_added = (\<lambda>g. Some 5), cum_n_launch = (\<lambda>g. Some 0)\<rparr>,
      \<lparr>BoardName = ''B'', firm_year = 2000, cum_n_added = (\<lambda>g. Some 0), cum_n_launch = (\<lambda>g. Some 0)\<rparr>,
      \<lparr>BoardName = ''B'', firm_year = 2001, cum_n_added = (\<lambda>g. Some 1), cum_n_launch = (\<lambda>g. Some 0)\<rparr>,
      \<lparr>BoardName = ''C'', firm_year = 2000, cum_n_added = (\<lambda>g. Some 0), cum_n_launch = (\<lambda>g. Some 0)\<rparr>,
      \<lparr>BoardName = ''C'', firm_year = 2001, cum_n_added = (\<lambda>g. Some 0), cum_n_launch = (\<lambda>g. Some 0)\<rparr>]"

definition ex_citeline_other :: "firm_row list" where
  "ex_citeline_other =
     [\<lparr>BoardName = ''A'', firm_year = 2000, cum_n_added = (\<lambda>g. Some 2), cum_n_launch = (\<lambda>g. Some 1)\<rparr>,
      \<lparr>BoardName = ''B'', firm_year = 2001, cum_n_added = (\<lambda>g. Some 3), cum_n_launch = (\<lambda>g. Some 0)\<rparr>]"

definition ex_cols0 :: "string list" where
  "ex_cols0 = [''BoardName'', ''year'', ''cum_disease_n_added_X'', ''cum_disease_n_launch_X'']"

definition ex_tmp :: "tmp_row list" where
  "ex_tmp =
     (case attach_entity_batch (base_table ex_valid ex_pairs_interlock) ex_valid ex_citeline [''X''] of
        None \<Rightarrow> []
      | Some tmp \<Rightarrow> tmp)"

subsection \<open>A base table of one row, and a firm-year table with a repeated firm-year\<close>

definition one_interlock :: "interlock_row list" where
  "one_interlock =
     [\<lparr>BoardName1 = ''A'', BoardName2 = ''B'', year = 2000,
        interlock_indirect_raw = Some 1, interlock_direct_raw = Some 0\<rparr>]"

definition dup_citeline :: "firm_row list" where
  "dup_citeline =
     [\<lparr>BoardName = ''A'', firm_year = 2000, cum_n_added = (\<lambda>g. Some 0), cum_n_launch = (\<lambda>g. Some 0)\<rparr>,
      \<lparr>BoardName = ''A'', firm_year = 2000, cum_n_added = (\<lambda>g. Some 0), cum_n_launch = (\<lambda>g. Some 0)\<rparr>,
      \<lparr>BoardName = ''A'', firm_year = 2000, cum_n_added = (\<lambda>g. Some 0), cum_n_launch = (\<lambda>g. Some 0)\<rparr>,
      \<lparr>BoardName = ''B'', firm_year = 2000, cum_n_added = (\<lambda>g. Some 0), cum_n_launch = (\<lambda>g. Some 0)\<rparr>]"

subsection \<open>Series of two pairs for the causal evaluator\<close>

definition ex_groups_index :: "((string \<times> string) \<times> nat list) list" where
  "ex_groups_index = [((''A'', ''B''), [0, 1, 2]), ((''A'', ''C''), [3, 4])]"

definition ex_o1 :: "f32 list" where
  "ex_o1 = [Some 0, Some 1, None, Some 0, Some 0]"

definition ex_l1 :: "f32 list" where
  "ex_l1 = [Some 0, Some 0, Some 1, Some 0, Some 1]"

definition ex_o2 :: "f32 list" where
  "ex_o2 = [Some 2, Some 2, Some 3, None, Some 1]"

definition ex_l2 :: "f32 list" where
  "ex_l2 = [Some 0, Some 1, Some 1, Some 0, Some 0]"

section \<open>Properties of the classification engine\<close>

lemma length_mask_fns: "length mask_fns = 25"
  by (simp add: mask_fns_def)

lemma length_mats: "length (mats arr base_mask) = 25"
  by (simp add: mats_def length_mask_fns)

lemma mats_nth:
  "k < 25 \<Longrightarrow> i < length base_mask \<Longrightarrow>
   mats arr base_mask ! k ! i = (mask_fns ! k) arr base_mask i"
  by (simp add: mats_def vec_def length_mask_fns)

lemma length_mats_nth: "k < 25 \<Longrightarrow> length (mats arr base_mask ! k) = length base_mask"
  by (simp add: mats_def vec_def length_mask_fns)

lemmas f32_defs = isnan_def gt_def gt0_def eq0_def nan_to_num_def

lemmas gate_defs = mask_na_orig_def mask_na_launch_def mask_na_future_def both_inexp_lag_def
  b_second_base_def either_starts_t_to_t2_and_launched_def either_starts_by_last_def

lemmas start_defs = starts1_t_to_t2_def starts2_t_to_t2_def starts1_by_last_def
  starts2_by_last_def launched1_by_last_def launched2_by_last_def

lemmas a_defs = a1_def a2_def a3_def a4_def a5_def a6_def a7_def a8_def a9_def a10_def

lemmas b_defs = b1_def b2_def b3_def b4_def b5_def b6_def b7_def b8_def b9_def b10_def

lemmas rn_defs = rn1_def rn2_def rn3_def rn4_def rn5_def

lemmas engine_eval = gate_defs a_defs b_defs rn_defs f32_defs start_defs
  same_shape_def mats_def mask_fns_def vec_def msum_def upt_rec

lemma msum_vec_mono:
  assumes "\<And>i. i < n \<Longrightarrow> f i \<Longrightarrow> g i"
  shows "msum (vec n f) \<le> msum (vec n g)"
proof -
  have "length (filter f [0..<n]) \<le> length (filter g [0..<n])"
    using assms by (induction n) auto
  then show ?thesis
    by (simp add: msum_def vec_def filter_map comp_def)
qed

lemma msum_nonneg: "0 \<le> msum m"
  by (simp add: msum_def)

lemma vec_self: "vec (length xs) (\<lambda>i. xs ! i) = xs"
  by (simp add: vec_def map_nth)

lemma mask_fns_base: "m \<in> set mask_fns \<Longrightarrow> m arr base_mask i \<Longrightarrow> base_mask ! i"
  by (auto simp: mask_fns_def a_defs b_defs rn_defs)

lemma mats_subset_base:
  assumes "k < 25" "i < length base_mask" "mats arr base_mask ! k ! i"
  shows "base_mask ! i"
proof -
  have "mask_fns ! k \<in> set mask_fns"
    using assms(1) by (simp add: length_mask_fns)
  moreover have "(mask_fns ! k) arr base_mask i"
    using assms by (simp add: mats_nth)
  ultimately show ?thesis by (rule mask_fns_base)
qed

lemma msum_mask_le_base:
  assumes "m \<in> set mask_fns"
  shows "msum (vec (length base_mask) (m arr base_mask)) \<le> msum base_mask"
proof -
  have "msum (vec (length base_mask) (m arr base_mask))
          \<le> msum (vec (length base_mask) (\<lambda>i. base_mask ! i))"
    by (rule msum_vec_mono) (rule mask_fns_base [OF assms])
  then show ?thesis by (simp add: vec_self)
qed



subsection \<open>The array expressions and their elements\<close>

lemma rep_arr: "length xs = n \<Longrightarrow> rep n (Inr xs) (\<lambda>i. xs ! i)"
  unfolding rep_def by (auto simp: list_eq_iff_nth_eq)

lemma rep_np1: "rep n x p \<Longrightarrow> rep n (np1 g x) (\<lambda>i. g (p i))"
  by (simp add: rep_def np1_def)

lemma rep_np2: "rep n x p \<Longrightarrow> rep n y q \<Longrightarrow> rep n (np2 g x y) (\<lambda>i. g (p i) (q i))"
  by (auto simp: rep_def np2_def bc_len_def bnth_def)

lemma rep_cong: "rep n x f \<Longrightarrow> (\<And>i. i < n \<Longrightarrow> f i = g i) \<Longrightarrow> rep n x g"
  by (simp add: rep_def)

lemmas np_ops = np_isnan_def np_not_def np_gt0_def np_eq0_def np_gt_def np_and_def np_or_def
  np_ands.simps np_ors.simps foldl.simps

lemma same_shape_lengths:
  assumes "same_shape arr n"
  shows "length (cur_o1 arr) = n" "length (cur_o2 arr) = n" "length (L1_o1 arr) = n"
    "length (L1_o2 arr) = n" "length (F1_o1 arr) = n" "length (F2_o1 arr) = n"
    "length (F3_o1 arr) = n" "length (F1_o2 arr) = n" "length (F2_o2 arr) = n"
    "length (F3_o2 arr) = n" "length (L1_l1 arr) = n" "length (L1_l2 arr) = n"
    "length (LAST_o1 arr) = n" "length (LAST_o2 arr) = n" "length (LAST_l1 arr) = n"
    "length (LAST_l2 arr) = n" "length (ok1 arr) = n" "length (ok2 arr) = n"
  using assms by (simp_all add: same_shape_def)

lemma rep_mask_na_orig:
  assumes "same_shape arr n"
  shows "rep n (mask_na_orig_np arr) (mask_na_orig arr)"
  apply (rule rep_cong)
   apply (unfold mask_na_orig_np_def np_ops)
   apply (rule rep_np1 rep_np2 rep_arr same_shape_lengths [OF assms] )+
  apply (simp add: mask_na_orig_def)
  done

lemma rep_mask_na_launch:
  assumes "same_shape arr n"
  shows "rep n (mask_na_launch_np arr) (mask_na_launch arr)"
  apply (rule rep_cong)
   apply (unfold mask_na_launch_np_def np_ops)
   apply (rule rep_np1 rep_np2 rep_arr same_shape_lengths [OF assms] rep_mask_na_orig [OF assms])+
  apply (simp add: mask_na_launch_def)
  done

lemma rep_mask_na_future:
  assumes "same_shape arr n"
  shows "rep n (mask_na_future_np arr) (mask_na_future arr)"
  apply (rule rep_cong)
   apply (unfold mask_na_future_np_def np_ops)
   apply (rule rep_np1 rep_np2 rep_arr same_shape_lengths [OF assms] rep_mask_na_orig [OF assms] rep_mask_na_launch [OF assms])+
  apply (simp add: mask_na_future_def)
  done

lemma rep_both_inexp_lag:
  assumes "same_shape arr n"
  shows "rep n (both_inexp_lag_np arr) (both_inexp_lag arr)"
  apply (rule rep_cong)
   apply (unfold both_inexp_lag_np_def np_ops)
   apply (rule rep_np1 rep_np2 rep_arr same_shape_lengths [OF assms] rep_mask_na_orig [OF assms] rep_mask_na_launch [OF assms] rep_mask_na_future [OF assms])+
  apply (simp add: both_inexp_lag_def)
  done

lemma rep_starts1_t_to_t2:
  assumes "same_shape arr n"
  shows "rep n (starts1_t_to_t2_np arr) (starts1_t_to_t2 arr)"
  apply (rule rep_cong)
   apply (unfold starts1_t_to_t2_np_def np_ops)
   apply (rule rep_np1 rep_np2 rep_arr same_shape_lengths [OF assms] rep_mask_na_orig [OF assms] rep_mask_na_launch [OF assms] rep_mask_na_future [OF assms] rep_both_inexp_lag [OF assms])+
  apply (simp add: starts1_t_to_t2_def)
  done

lemma rep_starts2_t_to_t2:
  assumes "same_shape arr n"
  shows "rep n (starts2_t_to_t2_np arr) (starts2_t_to_t2 arr)"
  apply (rule rep_cong)
   apply (unfold starts2_t_to_t2_np_def np_ops)
   apply (rule rep_np1 rep_np2 rep_arr same_shape_lengths [OF assms] rep_mask_na_orig [OF assms] rep_mask_na_launch [OF assms] rep_mask_na_future [OF assms] rep_both_inexp_lag [OF assms] rep_starts1_t_to_t2 [OF assms])+
  apply (simp add: starts2_t_to_t2_def)
  done

lemma rep_starts1_by_last:
  assumes "same_shape arr n"
  shows "rep n (starts1_by_last_np arr) (starts1_by_last arr)"
  apply (rule rep_cong)
   apply (unfold starts1_by_last_np_def np_ops)
   apply (rule rep_np1 rep_np2 rep_arr same_shape_lengths [OF assms] rep_mask_na_orig [OF assms] rep_mask_na_launch [OF assms] rep_mask_na_future [OF assms] rep_both_inexp_lag [OF assms] rep_starts1_t_to_t2 [OF assms] rep_starts2_t_to_t2 [OF assms])+
  apply (simp add: starts1_by_last_def)
  done

lemma rep_starts2_by_last:
  assumes "same_shape arr n"
  shows "rep n (starts2_by_last_np arr) (starts2_by_last arr)"
  apply (rule rep_cong)
   apply (unfold starts2_by_last_np_def np_ops)
   apply (rule rep_np1 rep_np2 rep_arr same_shape_lengths [OF assms] rep_mask_na_orig [OF assms] rep_mask_na_launch [OF assms] rep_mask_na_future [OF assms] rep_both_inexp_lag [OF assms] rep_starts1_t_to_t2 [OF assms] rep_starts2_t_to_t2 [OF assms] rep_starts1_by_last [OF assms])+
  apply (simp add: starts2_by_last_def)
  done

lemma rep_launched1_by_last:
  assumes "same_shape arr n"
  shows "rep n (launched1_by_last_np arr) (launched1_by_last arr)"
  apply (rule rep_cong)
   apply (unfold launched1_by_last_np_def np_ops)
   apply (rule rep_np1 rep_np2 rep_arr same_shape_lengths [OF assms] rep_mask_na_orig [OF assms] rep_mask_na_launch [OF assms] rep_mask_na_future [OF assms] rep_both_inexp_lag [OF assms] rep_starts1_t_to_t2 [OF assms] rep_starts2_t_to_t2 [OF assms] rep_starts1_by_last [OF assms] rep_starts2_by_last [OF assms])+
  apply (simp add: launched1_by_last_def)
  done

lemma rep_launched2_by_last:
  assumes "same_shape arr n"
  shows "rep n (launched2_by_last_np arr) (launched2_by_last arr)"
  apply (rule rep_cong)
   apply (unfold launched2_by_last_np_def np_ops)
   apply (rule rep_np1 rep_np2 rep_arr same_shape_lengths [OF assms] rep_mask_na_orig [OF assms] rep_mask_na_launch [OF assms] rep_mask_na_future [OF assms] rep_both_inexp_lag [OF assms] rep_starts1_t_to_t2 [OF assms] rep_starts2_t_to_t2 [OF assms] rep_starts1_by_last [OF assms] rep_starts2_by_last [OF assms] rep_launched1_by_last [OF assms])+
  apply (simp add: launched2_by_last_def)
  done

lemma rep_either_starts_t_to_t2_and_launched:
  assumes "same_shape arr n"
  shows "rep n (either_starts_t_to_t2_and_launched_np arr) (either_starts_t_to_t2_and_launched arr)"
  apply (rule rep_cong)
   apply (unfold either_starts_t_to_t2_and_launched_np_def np_ops)
   apply (rule rep_np1 rep_np2 rep_arr same_shape_lengths [OF assms] rep_mask_na_orig [OF assms] rep_mask_na_launch [OF assms] rep_mask_na_future [OF assms] rep_both_inexp_lag [OF assms] rep_starts1_t_to_t2 [OF assms] rep_starts2_t_to_t2 [OF assms] rep_starts1_by_last [OF assms] rep_starts2_by_last [OF assms] rep_launched1_by_last [OF assms] rep_launched2_by_last [OF assms])+
  apply (simp add: either_starts_t_to_t2_and_launched_def)
  done

lemma rep_either_starts_by_last:
  assumes "same_shape arr n"
  shows "rep n (either_starts_by_last_np arr) (either_starts_by_last arr)"
  apply (rule rep_cong)
   apply (unfold either_starts_by_last_np_def np_ops)
   apply (rule rep_np1 rep_np2 rep_arr same_shape_lengths [OF assms] rep_mask_na_orig [OF assms] rep_mask_na_launch [OF assms] rep_mask_na_future [OF assms] rep_both_inexp_lag [OF assms] rep_starts1_t_to_t2 [OF assms] rep_starts2_t_to_t2 [OF assms] rep_starts1_by_last [OF assms] rep_starts2_by_last [OF assms] rep_launched1_by_last [OF assms] rep_launched2_by_last [OF assms] rep_either_starts_t_to_t2_and_launched [OF assms])+
  apply (simp add: either_starts_by_last_def)
  done

lemma rep_b_second_base:
  assumes "same_shape arr n"
  shows "rep n (b_second_base_np arr) (b_second_base arr)"
  apply (rule rep_cong)
   apply (unfold b_second_base_np_def np_ops)
   apply (rule rep_np1 rep_np2 rep_arr same_shape_lengths [OF assms] rep_mask_na_orig [OF assms] rep_mask_na_launch [OF assms] rep_mask_na_future [OF assms] rep_both_inexp_lag [OF assms] rep_starts1_t_to_t2 [OF assms] rep_starts2_t_to_t2 [OF assms] rep_starts1_by_last [OF assms] rep_starts2_by_last [OF assms] rep_launched1_by_last [OF assms] rep_launched2_by_last [OF assms] rep_either_starts_t_to_t2_and_launched [OF assms] rep_either_starts_by_last [OF assms])+
  apply (simp add: b_second_base_def)
  done

lemma rep_a1:
  assumes "same_shape arr (length base_mask)"
  shows "rep (length base_mask) (a1_np arr base_mask) (a1 arr base_mask)"
  apply (rule rep_cong)
   apply (unfold a1_np_def np_ops)
   apply (rule rep_np1 rep_np2 rep_arr same_shape_lengths [OF assms] refl rep_mask_na_orig [OF assms] rep_mask_na_launch [OF assms] rep_mask_na_future [OF assms] rep_both_inexp_lag [OF assms] rep_starts1_t_to_t2 [OF assms] rep_starts2_t_to_t2 [OF assms] rep_starts1_by_last [OF assms] rep_starts2_by_last [OF assms] rep_launched1_by_last [OF assms] rep_launched2_by_last [OF assms] rep_either_starts_t_to_t2_and_launched [OF assms] rep_either_starts_by_last [OF assms] rep_b_second_base [OF assms])+
  apply (simp add: a1_def)
  done

lemma rep_a2:
  assumes "same_shape arr (length base_mask)"
  shows "rep (length base_mask) (a2_np arr base_mask) (a2 arr base_mask)"
  apply (rule rep_cong)
   apply (unfold a2_np_def np_ops)
   apply (rule rep_np1 rep_np2 rep_arr same_shape_lengths [OF assms] refl rep_mask_na_orig [OF assms] rep_mask_na_launch [OF assms] rep_mask_na_future [OF assms] rep_both_inexp_lag [OF assms] rep_starts1_t_to_t2 [OF assms] rep_starts2_t_to_t2 [OF assms] rep_starts1_by_last [OF assms] rep_starts2_by_last [OF assms] rep_launched1_by_last [OF assms] rep_launched2_by_last [OF assms] rep_either_starts_t_to_t2_and_launched [OF assms] rep_either_starts_by_last [OF assms] rep_b_second_base [OF assms])+
  apply (simp add: a2_def)
  done

lemma rep_a3:
  assumes "same_shape arr (length base_mask)"
  shows "rep (length base_mask) (a3_np arr base_mask) (a3 arr base_mask)"
  apply (rule rep_cong)
   apply (unfold a3_np_def np_ops)
   apply (rule rep_np1 rep_np2 rep_arr same_shape_lengths [OF assms] refl rep_mask_na_orig [OF assms] rep_mask_na_launch [OF assms] rep_mask_na_future [OF assms] rep_both_inexp_lag [OF assms] rep_starts1_t_to_t2 [OF assms] rep_starts2_t_to_t2 [OF assms] rep_starts1_by_last [OF assms] rep_starts2_by_last [OF assms] rep_launched1_by_last [OF assms] rep_launched2_by_last [OF assms] rep_either_starts_t_to_t2_and_launched [OF assms] rep_either_starts_by_last [OF assms] rep_b_second_base [OF assms])+
  apply (simp add: a3_def)
  done

lemma rep_a4:
  assumes "same_shape arr (length base_mask)"
  shows "rep (length base_mask) (a4_np arr base_mask) (a4 arr base_mask)"
  apply (rule rep_cong)
   apply (unfold a4_np_def np_ops)
   apply (rule rep_np1 rep_np2 rep_arr same_shape_lengths [OF assms] refl rep_mask_na_orig [OF assms] rep_mask_na_launch [OF assms] rep_mask_na_future [OF assms] rep_both_inexp_lag [OF assms] rep_starts1_t_to_t2 [OF assms] rep_starts2_t_to_t2 [OF assms] rep_starts1_by_last [OF assms] rep_starts2_by_last [OF assms] rep_launched1_by_last [OF assms] rep_launched2_by_last [OF assms] rep_either_starts_t_to_t2_and_launched [OF assms] rep_either_starts_by_last [OF assms] rep_b_second_base [OF assms])+
  apply (simp add: a4_def)
  done

lemma rep_a5:
  assumes "same_shape arr (length base_mask)"
  shows "rep (length base_mask) (a5_np arr base_mask) (a5 arr base_mask)"
  apply (rule rep_cong)
   apply (unfold a5_np_def np_ops)
   apply (rule rep_np1 rep_np2 rep_arr same_shape_lengths [OF assms] refl rep_mask_na_orig [OF assms] rep_mask_na_launch [OF assms] rep_mask_na_future [OF assms] rep_both_inexp_lag [OF assms] rep_starts1_t_to_t2 [OF assms] rep_starts2_t_to_t2 [OF assms] rep_starts1_by_last [OF assms] rep_starts2_by_last [OF assms] rep_launched1_by_last [OF assms] rep_launched2_by_last [OF assms] rep_either_starts_t_to_t2_and_launched [OF assms] rep_either_starts_by_last [OF assms] rep_b_second_base [OF assms])+
  apply (simp add: a5_def)
  done

lemma rep_a6:
  assumes "same_shape arr (length base_mask)"
  shows "rep (length base_mask) (a6_np arr base_mask) (a6 arr base_mask)"
  apply (rule rep_cong)
   apply (unfold a6_np_def np_ops)
   apply (rule rep_np1 rep_np2 rep_arr same_shape_lengths [OF assms] refl rep_mask_na_orig [OF assms] rep_mask_na_launch [OF assms] rep_mask_na_future [OF assms] rep_both_inexp_lag [OF assms] rep_starts1_t_to_t2 [OF assms] rep_starts2_t_to_t2 [OF assms] rep_starts1_by_last [OF assms] rep_starts2_by_last [OF assms] rep_launched1_by_last [OF assms] rep_launched2_by_last [OF assms] rep_either_starts_t_to_t2_and_launched [OF assms] rep_either_starts_by_last [OF assms] rep_b_second_base [OF assms])+
  apply (simp add: a6_def)
  done

lemma rep_a7:
  assumes "same_shape arr (length base_mask)"
  shows "rep (length base_mask) (a7_np arr base_mask) (a7 arr base_mask)"
  apply (rule rep_cong)
   apply (unfold a7_np_def np_ops)
   apply (rule rep_np1 rep_np2 rep_arr same_shape_lengths [OF assms] refl rep_mask_na_orig [OF assms] rep_mask_na_launch [OF assms] rep_mask_na_future [OF assms] rep_both_inexp_lag [OF assms] rep_starts1_t_to_t2 [OF assms] rep_starts2_t_to_t2 [OF assms] rep_starts1_by_last [OF assms] rep_starts2_by_last [OF assms] rep_launched1_by_last [OF assms] rep_launched2_by_last [OF assms] rep_either_starts_t_to_t2_and_launched [OF assms] rep_either_starts_by_last [OF assms] rep_b_second_base [OF assms])+
  apply (simp add: a7_def)
  done

lemma rep_a8:
  assumes "same_shape arr (length base_mask)"
  shows "rep (length base_mask) (a8_np arr base_mask) (a8 arr base_mask)"
  apply (rule rep_cong)
   apply (unfold a8_np_def np_ops)
   apply (rule rep_np1 rep_np2 rep_arr same_shape_lengths [OF assms] refl rep_mask_na_orig [OF assms] rep_mask_na_launch [OF assms] rep_mask_na_future [OF assms] rep_both_inexp_lag [OF assms] rep_starts1_t_to_t2 [OF assms] rep_starts2_t_to_t2 [OF assms] rep_starts1_by_last [OF assms] rep_starts2_by_last [OF assms] rep_launched1_by_last [OF assms] rep_launched2_by_last [OF assms] rep_either_starts_t_to_t2_and_launched [OF assms] rep_either_starts_by_last [OF assms] rep_b_second_base [OF assms])+
  apply (simp add: a8_def)
  done

lemma rep_a9:
  assumes "same_shape arr (length base_mask)"
  shows "rep (length base_mask) (a9_np arr base_mask) (a9 arr base_mask)"
  apply (rule rep_cong)
   apply (unfold a9_np_def np_ops)
   apply (rule rep_np1 rep_np2 rep_arr same_shape_lengths [OF assms] refl rep_mask_na_orig [OF assms] rep_mask_na_launch [OF assms] rep_mask_na_future [OF assms] rep_both_inexp_lag [OF assms] rep_starts1_t_to_t2 [OF assms] rep_starts2_t_to_t2 [OF assms] rep_starts1_by_last [OF assms] rep_starts2_by_last [OF assms] rep_launched1_by_last [OF assms] rep_launched2_by_last [OF assms] rep_either_starts_t_to_t2_and_launched [OF assms] rep_either_starts_by_last [OF assms] rep_b_second_base [OF assms])+
  apply (simp add: a9_def)
  done

lemma rep_a10:
  assumes "same_shape arr (length base_mask)"
  shows "rep (length base_mask) (a10_np arr base_mask) (a10 arr base_mask)"
  apply (rule rep_cong)
   apply (unfold a10_np_def np_ops)
   apply (rule rep_np1 rep_np2 rep_arr same_shape_lengths [OF assms] refl rep_mask_na_orig [OF assms] rep_mask_na_launch [OF assms] rep_mask_na_future [OF assms] rep_both_inexp_lag [OF assms] rep_starts1_t_to_t2 [OF assms] rep_starts2_t_to_t2 [OF assms] rep_starts1_by_last [OF assms] rep_starts2_by_last [OF assms] rep_launched1_by_last [OF assms] rep_launched2_by_last [OF assms] rep_either_starts_t_to_t2_and_launched [OF assms] rep_either_starts_by_last [OF assms] rep_b_second_base [OF assms])+
  apply (simp add: a10_def)
  done

lemma rep_b1:
  assumes "same_shape arr (length base_mask)"
  shows "rep (length base_mask) (b1_np arr base_mask) (b1 arr base_mask)"
  apply (rule rep_cong)
   apply (unfold b1_np_def np_ops)
   apply (rule rep_np1 rep_np2 rep_arr same_shape_lengths [OF assms] refl rep_mask_na_orig [OF assms] rep_mask_na_launch [OF assms] rep_mask_na_future [OF assms] rep_both_inexp_lag [OF assms] rep_starts1_t_to_t2 [OF assms] rep_starts2_t_to_t2 [OF assms] rep_starts1_by_last [OF assms] rep_starts2_by_last [OF assms] rep_launched1_by_last [OF assms] rep_launched2_by_last [OF assms] rep_either_starts_t_to_t2_and_launched [OF assms] rep_either_starts_by_last [OF assms] rep_b_second_base [OF assms])+
  apply (simp add: b1_def)
  done

lemma rep_b2:
  assumes "same_shape arr (length base_mask)"
  shows "rep (length base_mask) (b2_np arr base_mask) (b2 arr base_mask)"
  apply (rule rep_cong)
   apply (unfold b2_np_def np_ops)
   apply (rule rep_np1 rep_np2 rep_arr same_shape_lengths [OF assms] refl rep_mask_na_orig [OF assms] rep_mask_na_launch [OF assms] rep_mask_na_future [OF assms] rep_both_inexp_lag [OF assms] rep_starts1_t_to_t2 [OF assms] rep_starts2_t_to_t2 [OF assms] rep_starts1_by_last [OF assms] rep_starts2_by_last [OF assms] rep_launched1_by_last [OF assms] rep_launched2_by_last [OF assms] rep_either_starts_t_to_t2_and_launched [OF assms] rep_either_starts_by_last [OF assms] rep_b_second_base [OF assms])+
  apply (simp add: b2_def)
  done

lemma rep_b3:
  assumes "same_shape arr (length base_mask)"
  shows "rep (length base_mask) (b3_np arr base_mask) (b3 arr base_mask)"
  apply (rule rep_cong)
   apply (unfold b3_np_def np_ops)
   apply (rule rep_np1 rep_np2 rep_arr same_shape_lengths [OF assms] refl rep_mask_na_orig [OF assms] rep_mask_na_launch [OF assms] rep_mask_na_future [OF assms] rep_both_inexp_lag [OF assms] rep_starts1_t_to_t2 [OF assms] rep_starts2_t_to_t2 [OF assms] rep_starts1_by_last [OF assms] rep_starts2_by_last [OF assms] rep_launched1_by_last [OF assms] rep_launched2_by_last [OF assms] rep_either_starts_t_to_t2_and_launched [OF assms] rep_either_starts_by_last [OF assms] rep_b_second_base [OF assms])+
  apply (simp add: b3_def)
  done

lemma rep_b4:
  assumes "same_shape arr (length base_mask)"
  shows "rep (length base_mask) (b4_np arr base_mask) (b4 arr base_mask)"
  apply (rule rep_cong)
   apply (unfold b4_np_def np_ops)
   apply (rule rep_np1 rep_np2 rep_arr same_shape_lengths [OF assms] refl rep_mask_na_orig [OF assms] rep_mask_na_launch [OF assms] rep_mask_na_future [OF assms] rep_both_inexp_lag [OF assms] rep_starts1_t_to_t2 [OF assms] rep_starts2_t_to_t2 [OF assms] rep_starts1_by_last [OF assms] rep_starts2_by_last [OF assms] rep_launched1_by_last [OF assms] rep_launched2_by_last [OF assms] rep_either_starts_t_to_t2_and_launched [OF assms] rep_either_starts_by_last [OF assms] rep_b_second_base [OF assms])+
  apply (simp add: b4_def)
  done

lemma rep_b5:
  assumes "same_shape arr (length base_mask)"
  shows "rep (length base_mask) (b5_np arr base_mask) (b5 arr base_mask)"
  apply (rule rep_cong)
   apply (unfold b5_np_def np_ops)
   apply (rule rep_np1 rep_np2 rep_arr same_shape_lengths [OF assms] refl rep_mask_na_orig [OF assms] rep_mask_na_launch [OF assms] rep_mask_na_future [OF assms] rep_both_inexp_lag [OF assms] rep_starts1_t_to_t2 [OF assms] rep_starts2_t_to_t2 [OF assms] rep_starts1_by_last [OF assms] rep_starts2_by_last [OF assms] rep_launched1_by_last [OF assms] rep_launched2_by_last [OF assms] rep_either_starts_t_to_t2_and_launched [OF assms] rep_either_starts_by_last [OF assms] rep_b_second_base [OF assms])+
  apply (simp add: b5_def)
  done

lemma rep_b6:
  assumes "same_shape arr (length base_mask)"
  shows "rep (length base_mask) (b6_np arr base_mask) (b6 arr base_mask)"
  apply (rule rep_cong)
   apply (unfold b6_np_def np_ops)
   apply (rule rep_np1 rep_np2 rep_arr same_shape_lengths [OF assms] refl rep_mask_na_orig [OF assms] rep_mask_na_launch [OF assms] rep_mask_na_future [OF assms] rep_both_inexp_lag [OF assms] rep_starts1_t_to_t2 [OF assms] rep_starts2_t_to_t2 [OF assms] rep_starts1_by_last [OF assms] rep_starts2_by_last [OF assms] rep_launched1_by_last [OF assms] rep_launched2_by_last [OF assms] rep_either_starts_t_to_t2_and_launched [OF assms] rep_either_starts_by_last [OF assms] rep_b_second_base [OF assms])+
  apply (simp add: b6_def)
  done

lemma rep_b7:
  assumes "same_shape arr (length base_mask)"
  shows "rep (length base_mask) (b7_np arr base_mask) (b7 arr base_mask)"
  apply (rule rep_cong)
   apply (unfold b7_np_def np_ops)
   apply (rule rep_np1 rep_np2 rep_arr same_shape_lengths [OF assms] refl rep_mask_na_orig [OF assms] rep_mask_na_launch [OF assms] rep_mask_na_future [OF assms] rep_both_inexp_lag [OF assms] rep_starts1_t_to_t2 [OF assms] rep_starts2_t_to_t2 [OF assms] rep_starts1_by_last [OF assms] rep_starts2_by_last [OF assms] rep_launched1_by_last [OF assms] rep_launched2_by_last [OF assms] rep_either_starts_t_to_t2_and_launched [OF assms] rep_either_starts_by_last [OF assms] rep_b_second_base [OF assms])+
  apply (simp add: b7_def)
  done

lemma rep_b8:
  assumes "same_shape arr (length base_mask)"
  shows "rep (length base_mask) (b8_np arr base_mask) (b8 arr base_mask)"
  apply (rule rep_cong)
   apply (unfold b8_np_def np_ops)
   apply (rule rep_np1 rep_np2 rep_arr same_shape_lengths [OF assms] refl rep_mask_na_orig [OF assms] rep_mask_na_launch [OF assms] rep_mask_na_future [OF assms] rep_both_inexp_lag [OF assms] rep_starts1_t_to_t2 [OF assms] rep_starts2_t_to_t2 [OF assms] rep_starts1_by_last [OF assms] rep_starts2_by_last [OF assms] rep_launched1_by_last [OF assms] rep_launched2_by_last [OF assms] rep_either_starts_t_to_t2_and_launched [OF assms] rep_either_starts_by_last [OF assms] rep_b_second_base [OF assms])+
  apply (simp add: b8_def)
  done

lemma rep_b9:
  assumes "same_shape arr (length base_mask)"
  shows "rep (length base_mask) (b9_np arr base_mask) (b9 arr base_mask)"
  apply (rule rep_cong)
   apply (unfold b9_np_def np_ops)
   apply (rule rep_np1 rep_np2 rep_arr same_shape_lengths [OF assms] refl rep_mask_na_orig [OF assms] rep_mask_na_launch [OF assms] rep_mask_na_future [OF assms] rep_both_inexp_lag [OF assms] rep_starts1_t_to_t2 [OF assms] rep_starts2_t_to_t2 [OF assms] rep_starts1_by_last [OF assms] rep_starts2_by_last [OF assms] rep_launched1_by_last [OF assms] rep_launched2_by_last [OF assms] rep_either_starts_t_to_t2_and_launched [OF assms] rep_either_starts_by_last [OF assms] rep_b_second_base [OF assms])+
  apply (simp add: b9_def)
  done

lemma rep_b10:
  assumes "same_shape arr (length base_mask)"
  shows "rep (length base_mask) (b10_np arr base_mask) (b10 arr base_mask)"
  apply (rule rep_cong)
   apply (unfold b10_np_def np_ops)
   apply (rule rep_np1 rep_np2 rep_arr same_shape_lengths [OF assms] refl rep_mask_na_orig [OF assms] rep_mask_na_launch [OF assms] rep_mask_na_future [OF assms] rep_both_inexp_lag [OF assms] rep_starts1_t_to_t2 [OF assms] rep_starts2_t_to_t2 [OF assms] rep_starts1_by_last [OF assms] rep_starts2_by_last [OF assms] rep_launched1_by_last [OF assms] rep_launched2_by_last [OF assms] rep_either_starts_t_to_t2_and_launched [OF assms] rep_either_starts_by_last [OF assms] rep_b_second_base [OF assms])+
  apply (simp add: b10_def)
  done

lemma rep_rn1:
  assumes "same_shape arr (length base_mask)"
  shows "rep (length base_mask) (rn1_np arr base_mask) (rn1 arr base_mask)"
  apply (rule rep_cong)
   apply (unfold rn1_np_def np_ops)
   apply (rule rep_np1 rep_np2 rep_arr same_shape_lengths [OF assms] refl rep_mask_na_orig [OF assms] rep_mask_na_launch [OF assms] rep_mask_na_future [OF assms] rep_both_inexp_lag [OF assms] rep_starts1_t_to_t2 [OF assms] rep_starts2_t_to_t2 [OF assms] rep_starts1_by_last [OF assms] rep_starts2_by_last [OF assms] rep_launched1_by_last [OF assms] rep_launched2_by_last [OF assms] rep_either_starts_t_to_t2_and_launched [OF assms] rep_either_starts_by_last [OF assms] rep_b_second_base [OF assms])+
  apply (simp add: rn1_def)
  done

lemma rep_rn2:
  assumes "same_shape arr (length base_mask)"
  shows "rep (length base_mask) (rn2_np arr base_mask) (rn2 arr base_mask)"
  apply (rule rep_cong)
   apply (unfold rn2_np_def np_ops)
   apply (rule rep_np1 rep_np2 rep_arr same_shape_lengths [OF assms] refl rep_mask_na_orig [OF assms] rep_mask_na_launch [OF assms] rep_mask_na_future [OF assms] rep_both_inexp_lag [OF assms] rep_starts1_t_to_t2 [OF assms] rep_starts2_t_to_t2 [OF assms] rep_starts1_by_last [OF assms] rep_starts2_by_last [OF assms] rep_launched1_by_last [OF assms] rep_launched2_by_last [OF assms] rep_either_starts_t_to_t2_and_launched [OF assms] rep_either_starts_by_last [OF assms] rep_b_second_base [OF assms])+
  apply (simp add: rn2_def)
  done

lemma rep_rn3:
  assumes "same_shape arr (length base_mask)"
  shows "rep (length base_mask) (rn3_np arr base_mask) (rn3 arr base_mask)"
  apply (rule rep_cong)
   apply (unfold rn3_np_def np_ops)
   apply (rule rep_np1 rep_np2 rep_arr same_shape_lengths [OF assms] refl rep_mask_na_orig [OF assms] rep_mask_na_launch [OF assms] rep_mask_na_future [OF assms] rep_both_inexp_lag [OF assms] rep_starts1_t_to_t2 [OF assms] rep_starts2_t_to_t2 [OF assms] rep_starts1_by_last [OF assms] rep_starts2_by_last [OF assms] rep_launched1_by_last [OF assms] rep_launched2_by_last [OF assms] rep_either_starts_t_to_t2_and_launched [OF assms] rep_either_starts_by_last [OF assms] rep_b_second_base [OF assms])+
  apply (simp add: rn3_def)
  done

lemma rep_rn4:
  assumes "same_shape arr (length base_mask)"
  shows "rep (length base_mask) (rn4_np arr base_mask) (rn4 arr base_mask)"
  apply (rule rep_cong)
   apply (unfold rn4_np_def np_ops)
   apply (rule rep_np1 rep_np2 rep_arr same_shape_lengths [OF assms] refl rep_mask_na_orig [OF assms] rep_mask_na_launch [OF assms] rep_mask_na_future [OF assms] rep_both_inexp_lag [OF assms] rep_starts1_t_to_t2 [OF assms] rep_starts2_t_to_t2 [OF assms] rep_starts1_by_last [OF assms] rep_starts2_by_last [OF assms] rep_launched1_by_last [OF assms] rep_launched2_by_last [OF assms] rep_either_starts_t_to_t2_and_launched [OF assms] rep_either_starts_by_last [OF assms] rep_b_second_base [OF assms])+
  apply (simp add: rn4_def)
  done

lemma rep_rn5:
  assumes "same_shape arr (length base_mask)"
  shows "rep (length base_mask) (rn5_np arr base_mask) (rn5 arr base_mask)"
  apply (rule rep_cong)
   apply (unfold rn5_np_def np_ops)
   apply (rule rep_np1 rep_np2 rep_arr same_shape_lengths [OF assms] refl rep_mask_na_orig [OF assms] rep_mask_na_launch [OF assms] rep_mask_na_future [OF assms] rep_both_inexp_lag [OF assms] rep_starts1_t_to_t2 [OF assms] rep_starts2_t_to_t2 [OF assms] rep_starts1_by_last [OF assms] rep_starts2_by_last [OF assms] rep_launched1_by_last [OF assms] rep_launched2_by_last [OF assms] rep_either_starts_t_to_t2_and_launched [OF assms] rep_either_starts_by_last [OF assms] rep_b_second_base [OF assms])+
  apply (simp add: rn5_def)
  done

lemma collect_Inr: "collect (map Inr ms) = Inr ms"
  by (induction ms) simp_all

lemma mats_np_same_shape:
  assumes "same_shape arr (length base_mask)"
  shows "mats_np arr base_mask = map Inr (mats arr base_mask)"
  using rep_a1 [OF assms] rep_a2 [OF assms] rep_a3 [OF assms] rep_a4 [OF assms] rep_a5 [OF assms] rep_a6 [OF assms] rep_a7 [OF assms] rep_a8 [OF assms] rep_a9 [OF assms] rep_a10 [OF assms] rep_b1 [OF assms] rep_b2 [OF assms] rep_b3 [OF assms] rep_b4 [OF assms] rep_b5 [OF assms] rep_b6 [OF assms] rep_b7 [OF assms] rep_b8 [OF assms] rep_b9 [OF assms] rep_b10 [OF assms] rep_rn1 [OF assms] rep_rn2 [OF assms] rep_rn3 [OF assms] rep_rn4 [OF assms] rep_rn5 [OF assms]
  by (simp add: mats_np_def mats_def mask_fns_def vec_def rep_def)

lemma compute_bundle_counts_same_shape:
  assumes "same_shape arr (length base_mask)"
  shows "compute_bundle_counts arr base_mask = Inr (map msum (mats arr base_mask))"
  by (simp add: compute_bundle_counts_def mats_np_same_shape [OF assms] collect_Inr)

lemma collect_length: "collect xs = Inr ms \<Longrightarrow> length ms = length xs"
  by (induction xs arbitrary: ms) (auto split: sum.splits)

lemma counts_length:
  "compute_bundle_counts arr base_mask = Inr cs \<Longrightarrow> length cs = 25"
  by (auto simp: compute_bundle_counts_def mats_np_def split: sum.splits dest!: collect_length)

subsection \<open>Masks below the base mask\<close>

lemma below_base: "below bm (Inr bm)"
  by (simp add: below_def)

lemma below_and:
  assumes "length bm \<noteq> 1" "below bm x"
  shows "below bm (np_and x y)"
proof (cases x)
  case (Inl e)
  then show ?thesis by (simp add: np_and_def np2_def below_def)
next
  case x: (Inr xs)
  with assms(2) have len: "length xs = length bm" and sub: "\<forall>i < length bm. xs ! i \<longrightarrow> bm ! i"
    by (simp_all add: below_def)
  show ?thesis
  proof (cases y)
    case (Inl e)
    then show ?thesis using x by (simp add: np_and_def np2_def below_def)
  next
    case y: (Inr ys)
    show ?thesis
      using assms(1) len sub unfolding x y
      by (auto simp: np_and_def np2_def below_def bc_len_def bnth_def split: option.splits)
  qed
qed

lemma below_foldl:
  "length bm \<noteq> 1 \<Longrightarrow> below bm x \<Longrightarrow> below bm (foldl np_and x ys)"
  by (induction ys arbitrary: x) (simp_all add: below_and)

lemma below_ands:
  "length bm \<noteq> 1 \<Longrightarrow> below bm (np_ands (Inr bm # ys))"
  by (simp add: below_foldl below_base)

lemmas np_mask_defs = a1_np_def a2_np_def a3_np_def a4_np_def a5_np_def a6_np_def a7_np_def
  a8_np_def a9_np_def a10_np_def b1_np_def b2_np_def b3_np_def b4_np_def b5_np_def b6_np_def
  b7_np_def b8_np_def b9_np_def b10_np_def rn1_np_def rn2_np_def rn3_np_def rn4_np_def rn5_np_def

lemma mats_np_below:
  assumes "length bm \<noteq> 1"
  shows "list_all (below bm) (mats_np arr bm)"
  unfolding mats_np_def np_mask_defs list.pred_inject
  by (intro conjI below_ands [OF assms] below_and [OF assms below_base] list.pred_inject(1))

lemma collect_set: "collect xs = Inr ms \<Longrightarrow> m \<in> set ms \<Longrightarrow> Inr m \<in> set xs"
  by (induction xs arbitrary: ms) (auto split: sum.splits)

lemma msum_below:
  assumes "below bm (Inr m)"
  shows "msum m \<le> msum bm"
proof -
  from assms have len: "length m = length bm" and sub: "\<And>i. i < length bm \<Longrightarrow> m ! i \<Longrightarrow> bm ! i"
    by (simp_all add: below_def)
  have "msum (vec (length bm) (\<lambda>i. m ! i)) \<le> msum (vec (length bm) (\<lambda>i. bm ! i))"
    by (rule msum_vec_mono) (rule sub)
  then show ?thesis
    using vec_self [of m] vec_self [of bm] len by simp
qed

lemma counts_below:
  assumes "length bm \<noteq> 1" "compute_bundle_counts arr bm = Inr cs" "c \<in> set cs"
  shows "0 \<le> c \<and> c \<le> msum bm"
proof -
  from assms(2) obtain ms where ms: "collect (mats_np arr bm) = Inr ms" and cs: "cs = map msum ms"
    by (auto simp: compute_bundle_counts_def split: sum.splits)
  from assms(3) cs obtain m where m: "m \<in> set ms" "c = msum m" by auto
  from collect_set [OF ms m(1)] have "below bm (Inr m)"
    using mats_np_below [OF assms(1), of arr] by (simp add: list_all_iff)
  then show ?thesis using m(2) msum_below msum_nonneg by simp
qed





lemma gate_arr_shape: "same_shape gate_arr (length [True, True])"
  by (simp add: gate_arr_def same_shape_def)

lemma gate_arr_counts:
  "compute_bundle_counts gate_arr [True, True] =
     Inr [0, 0, 0, 0, 0, 1, 1, 1, 0, 1, 0, 0, 0, 0, 0, 0, 0, 0, 0, 0, 0, 0, 0, 0, 0]"
  by (simp add: compute_bundle_counts_same_shape gate_arr_def engine_eval)

subsection \<open>C1: the both-sides-observed gate\<close>

text \<open>
  C1 as stated asks that a.6 to a.10 and b.6 to b.10 are all false on a row where
  \<open>mask_na_orig\<close> or \<open>mask_na_launch\<close> is false. The a-masks that read no launch column
  (a.6, a.7, a.8, a.10) are not gated on \<open>mask_na_launch\<close>: on row 0 of \<open>gate_arr\<close> the
  lag-1 launch of firm 1 is missing, yet a.6, a.7, a.8 and a.10 are true and are counted.
\<close>

theorem gate_not_exhaustive_counterexample:
  "\<not> mask_na_launch gate_arr 0 \<and>
   a6 gate_arr [True, True] 0 \<and> a7 gate_arr [True, True] 0 \<and>
   a8 gate_arr [True, True] 0 \<and> a10 gate_arr [True, True] 0 \<and>
   compute_bundle_counts gate_arr [True, True] =
     Inr [0, 0, 0, 0, 0, 1, 1, 1, 0, 1, 0, 0, 0, 0, 0, 0, 0, 0, 0, 0, 0, 0, 0, 0, 0]"
  by (simp add: compute_bundle_counts_same_shape gate_arr_def engine_eval)

text \<open>
  C1, amended: on a row where \<open>mask_na_orig\<close> is false, all of a.6 to a.10 and b.6 to b.10
  are false; on a row where \<open>mask_na_launch\<close> is false, a.9 and b.6 to b.10 are false
  (a.6, a.7, a.8 and a.10 do not depend on the launch columns).
\<close>

theorem both_sides_gate:
  "(\<not> mask_na_orig arr i \<longrightarrow>
      \<not> a6 arr base_mask i \<and> \<not> a7 arr base_mask i \<and> \<not> a8 arr base_mask i \<and>
      \<not> a9 arr base_mask i \<and> \<not> a10 arr base_mask i \<and>
      \<not> b6 arr base_mask i \<and> \<not> b7 arr base_mask i \<and> \<not> b8 arr base_mask i \<and>
      \<not> b9 arr base_mask i \<and> \<not> b10 arr base_mask i) \<and>
   (\<not> mask_na_launch arr i \<longrightarrow>
      \<not> a9 arr base_mask i \<and>
      \<not> b6 arr base_mask i \<and> \<not> b7 arr base_mask i \<and> \<not> b8 arr base_mask i \<and>
      \<not> b9 arr base_mask i \<and> \<not> b10 arr base_mask i)"
  by (simp add: a_defs b_defs b_second_base_def)

theorem both_sides_gate_witness:
  "\<not> mask_na_orig gate_arr 1 \<and> \<not> mask_na_launch gate_arr 1 \<and>
   \<not> a6 gate_arr [True, True] 1 \<and> \<not> a7 gate_arr [True, True] 1 \<and>
   \<not> a8 gate_arr [True, True] 1 \<and> \<not> a9 gate_arr [True, True] 1 \<and>
   \<not> a10 gate_arr [True, True] 1 \<and>
   \<not> b6 gate_arr [True, True] 1 \<and> \<not> b7 gate_arr [True, True] 1 \<and>
   \<not> b8 gate_arr [True, True] 1 \<and> \<not> b9 gate_arr [True, True] 1 \<and>
   \<not> b10 gate_arr [True, True] 1"
proof -
  have h1: "\<not> mask_na_orig gate_arr 1"
    by (simp add: gate_arr_def mask_na_orig_def isnan_def)
  have h2: "\<not> mask_na_launch gate_arr 1"
    by (simp add: gate_arr_def mask_na_launch_def isnan_def)
  from h1 h2 both_sides_gate [of gate_arr 1 "[True, True]"] show ?thesis by blast
qed

subsection \<open>C5: every mask is a subset of the base mask\<close>

text \<open>
  C5 as stated asks that, for every base mask and every input bundle, each of the 25
  counts is at most the number of true rows of the base mask. The function does not check
  the lengths of its arrays, and NumPy stretches a base mask of one element over longer
  arrays: with the one-element base mask \<open>[True]\<close>, whose count is 1, and the three-row
  bundle \<open>c5_arr\<close> the function returns the count 2 for a.6 and for b.6. A run reaches
  this: \<open>run_entity\<close> takes the YoY masks from the base table and the arrays from the
  joined table, so for a base table of one row and a firm-year table in which that
  firm-year occurs three times it writes an Indirect-YoY row with total 1, a.6 count 2 and
  a.6 share 2.
\<close>

theorem stretched_base_mask_counterexample:
  "msum [True] = 1 \<and>
   compute_bundle_counts c5_arr [True] =
     Inr [0, 0, 0, 0, 0, 2, 0, 0, 0, 0, 0, 0, 0, 0, 0, 2, 0, 0, 0, 0, 0, 0, 0, 0, 0] \<and>
   map mask_indirect_yoy (base_table ex_valid one_interlock) = [True] \<and>
   map_sum id
     (\<lambda>files. map (\<lambda>(name, header, rows). map (\<lambda>r. [r ! 0, r ! 1, r ! 2, r ! 13, r ! 14]) rows)
        (take 1 (drop 4 files)))
     (run_entity (base_table ex_valid one_interlock) ''disease'' [''X''] 20 ex_valid dup_citeline) =
     Inr [[[CStr ''X'', CInt 1, CFloat 1, CInt 2, CFloat 2]]]"
  by code_simp

text \<open>
  C5, amended: if the base mask is not a one-element array, or all arrays have the length
  of the base mask, then whenever the engine returns, it returns 25 counts and each of them
  lies between 0 and the number of true rows of the base mask. If all arrays have the
  length of the base mask the engine does return, its counts are those of the 25 masks
  read row by row, and each of these masks is true only on rows where the base mask is.
  (The witness also shows that the 25 counts may add up to more than the total of the base
  mask, since the masks overlap.)
\<close>

theorem counts_le_base_total:
  assumes "length base_mask \<noteq> 1 \<or> same_shape arr (length base_mask)"
  shows "(same_shape arr (length base_mask) \<longrightarrow>
            compute_bundle_counts arr base_mask = Inr (map msum (mats arr base_mask)) \<and>
            (\<forall>k < 25. \<forall>i < length base_mask. mats arr base_mask ! k ! i \<longrightarrow> base_mask ! i)) \<and>
         (\<forall>cs. compute_bundle_counts arr base_mask = Inr cs \<longrightarrow>
            length cs = 25 \<and> (\<forall>c \<in> set cs. 0 \<le> c \<and> c \<le> msum base_mask))"
proof -
  have 1: "compute_bundle_counts arr base_mask = Inr (map msum (mats arr base_mask))"
    if "same_shape arr (length base_mask)"
    using that by (rule compute_bundle_counts_same_shape)
  have 2: "\<forall>k < 25. \<forall>i < length base_mask. mats arr base_mask ! k ! i \<longrightarrow> base_mask ! i"
    using mats_subset_base by blast
  have 3: "\<forall>c \<in> set cs. 0 \<le> c \<and> c \<le> msum base_mask"
    if cs: "compute_bundle_counts arr base_mask = Inr cs" for cs
  proof (cases "length base_mask \<noteq> 1")
    case True
    then show ?thesis using counts_below [OF _ cs] by blast
  next
    case False
    with assms have sh: "same_shape arr (length base_mask)" by simp
    from cs have "cs = map msum (mats arr base_mask)"
      by (simp add: compute_bundle_counts_same_shape [OF sh])
    then show ?thesis
      by (auto simp: mats_def msum_nonneg msum_mask_le_base)
  qed
  from 1 2 3 counts_length show ?thesis by blast
qed

theorem counts_le_base_total_witness:
  "same_shape gate_arr (length [True, True]) \<and>
   (\<exists>cs. compute_bundle_counts gate_arr [True, True] = Inr cs \<and> length cs = 25 \<and>
      list_all (\<lambda>c. 0 \<le> c \<and> c \<le> msum [True, True]) cs \<and>
      msum [True, True] < sum_list cs \<and>
      mats gate_arr [True, True] ! 5 ! 0 \<and> [True, True] ! 0) \<and>
   length [True, False, True] \<noteq> 1 \<and> \<not> same_shape one_arr (length [True, False, True]) \<and>
   compute_bundle_counts one_arr [True, False, True] =
     Inr [0, 0, 0, 0, 0, 2, 2, 2, 0, 2, 0, 0, 0, 0, 0, 2, 2, 2, 0, 2, 0, 0, 0, 0, 0] \<and>
   msum [True, False, True] = 2 \<and>
   list_all (\<lambda>c. 0 \<le> c \<and> c \<le> msum [True, False, True])
     [0, 0, 0, 0, 0, 2, 2, 2, 0, 2, 0, 0, 0, 0, 0, 2, 2, 2, 0, 2, 0, 0, 0, 0, 0]"
proof -
  have sh: "length [True, True] \<noteq> 1 \<or> same_shape gate_arr (length [True, True])"
    using gate_arr_shape by simp
  have g: "compute_bundle_counts gate_arr [True, True] =
      Inr [0, 0, 0, 0, 0, 1, 1, 1, 0, 1, 0, 0, 0, 0, 0, 0, 0, 0, 0, 0, 0, 0, 0, 0, 0]"
    by (rule gate_arr_counts)
  from counts_le_base_total [OF sh] g have
    1: "length [0, 0, 0, 0, 0, 1, 1, 1, 0, 1, 0, 0, 0, 0, 0, 0, 0, 0, 0, 0, 0, 0, 0, 0, 0 :: int] = 25"
    and 2: "\<forall>c \<in> set [0, 0, 0, 0, 0, 1, 1, 1, 0, 1, 0, 0, 0, 0, 0, 0, 0, 0, 0, 0, 0, 0, 0, 0, 0 :: int].
              0 \<le> c \<and> c \<le> msum [True, True]"
    by blast+
  have 3: "msum [True, True] <
      sum_list [0, 0, 0, 0, 0, 1, 1, 1, 0, 1, 0, 0, 0, 0, 0, 0, 0, 0, 0, 0, 0, 0, 0, 0, 0 :: int]"
    by (simp add: msum_def)
  have 4: "mats gate_arr [True, True] ! 5 ! 0"
    by (simp add: gate_arr_def engine_eval)
  have a: "\<exists>cs. compute_bundle_counts gate_arr [True, True] = Inr cs \<and> length cs = 25 \<and>
      list_all (\<lambda>c. 0 \<le> c \<and> c \<le> msum [True, True]) cs \<and>
      msum [True, True] < sum_list cs \<and>
      mats gate_arr [True, True] ! 5 ! 0 \<and> [True, True] ! 0"
    using g 1 2 3 4 unfolding list_all_iff by (intro exI [of _ "[0, 0, 0, 0, 0, 1, 1, 1, 0, 1, 0, 0, 0, 0, 0, 0, 0, 0, 0, 0, 0, 0, 0, 0, 0]"]) simp
  have ne: "length [True, False, True] \<noteq> 1" by simp
  have ns: "\<not> same_shape one_arr (length [True, False, True])"
    by (simp add: same_shape_def one_arr_def)
  have o: "compute_bundle_counts one_arr [True, False, True] =
     Inr [0, 0, 0, 0, 0, 2, 2, 2, 0, 2, 0, 0, 0, 0, 0, 2, 2, 2, 0, 2, 0, 0, 0, 0, 0]"
    by code_simp
  have m: "msum [True, False, True] = 2" by (simp add: msum_def)
  from counts_le_base_total [of "[True, False, True]" one_arr] ne o
  have "\<forall>c \<in> set [0, 0, 0, 0, 0, 2, 2, 2, 0, 2, 0, 0, 0, 0, 0, 2, 2, 2, 0, 2, 0, 0, 0, 0, 0 :: int].
      0 \<le> c \<and> c \<le> msum [True, False, True]"
    by blast
  then have l: "list_all (\<lambda>c. 0 \<le> c \<and> c \<le> msum [True, False, True])
     [0, 0, 0, 0, 0, 2, 2, 2, 0, 2, 0, 0, 0, 0, 0, 2, 2, 2, 0, 2, 0, 0, 0, 0, 0]"
    unfolding list_all_iff .
  show ?thesis
    by (intro conjI) (rule gate_arr_shape, rule a, rule ne, rule ns, rule o, rule m, rule l)
qed

subsection \<open>C9: refinement chains\<close>



section \<open>Properties of the causal ordering evaluator\<close>

lemma hd_filter_find: "(case filter P xs of [] \<Rightarrow> None | k # _ \<Rightarrow> Some k) = find P xs"
  by (induction xs) auto

lemma length_cummax: "length (cummax m xs) = length xs"
  by (induction xs arbitrary: m) auto

lemma length_maximum_accumulate: "length (maximum_accumulate v) = length v"
  by (simp add: maximum_accumulate_def length_cummax split: list.splits)

lemma cummax_ge: "y \<in> set (cummax m xs) \<Longrightarrow> m \<le> y"
proof (induction xs arbitrary: m)
  case Nil
  then show ?case by simp
next
  case (Cons x xs)
  from Cons.prems have "y = max m x \<or> y \<in> set (cummax (max m x) xs)" by simp
  then show ?case
  proof
    assume "y = max m x"
    then show ?thesis by simp
  next
    assume "y \<in> set (cummax (max m x) xs)"
    then have "max m x \<le> y" by (rule Cons.IH)
    then show ?thesis by simp
  qed
qed

lemma cummax_sorted: "sorted (cummax m xs)"
proof (induction xs arbitrary: m)
  case Nil
  then show ?case by simp
next
  case (Cons x xs)
  have a: "sorted (cummax (max m x) xs)" by (rule Cons.IH)
  have b: "\<forall>y \<in> set (cummax (max m x) xs). max m x \<le> y"
  proof
    fix y assume "y \<in> set (cummax (max m x) xs)"
    then show "max m x \<le> y" by (rule cummax_ge)
  qed
  have "sorted (max m x # cummax (max m x) xs)"
    unfolding sorted_simps(2) using a b by (rule_tac conjI)
  then show ?case by (simp only: cummax.simps)
qed

lemma sorted_maximum_accumulate: "sorted (maximum_accumulate v)"
proof (cases v)
  case Nil
  then show ?thesis by (simp add: maximum_accumulate_def)
next
  case (Cons x xs)
  have a: "sorted (cummax x xs)" by (rule cummax_sorted)
  have b: "\<forall>y \<in> set (cummax x xs). x \<le> y"
  proof
    fix y assume "y \<in> set (cummax x xs)"
    then show "x \<le> y" by (rule cummax_ge)
  qed
  have "sorted (x # cummax x xs)"
    unfolding sorted_simps(2) using a b by (rule_tac conjI)
  then show ?thesis by (simp only: Cons maximum_accumulate_def list.case)
qed

lemma find_snoc: "find P (xs @ [x]) = (case find P xs of None \<Rightarrow> (if P x then Some x else None) | Some y \<Rightarrow> Some y)"
  by (induction xs) auto

lemma find_upt_None: "find P [0..<n] = None \<longleftrightarrow> (\<forall>k < n. \<not> P k)"
  by (simp add: find_None_iff)

lemma find_upt_Some: "find P [0..<n] = Some k \<longleftrightarrow> k < n \<and> P k \<and> (\<forall>j < k. \<not> P j)"
proof (induction n arbitrary: k)
  case 0
  then show ?case by simp
next
  case (Suc n)
  show ?case
  proof (cases "find P [0..<n]")
    case None
    then have no: "\<forall>j < n. \<not> P j" by (simp add: find_upt_None)
    have "find P [0..<Suc n] = (if P n then Some n else None)"
      using None by (simp add: find_snoc)
    moreover have "(if P n then Some n else None) = Some k \<longleftrightarrow> k < Suc n \<and> P k \<and> (\<forall>j < k. \<not> P j)"
      using no by (metis less_Suc_eq option.distinct(1) option.inject not_less_iff_gr_or_eq)
    ultimately show ?thesis by simp
  next
    case (Some y)
    then have y: "y < n" "P y" "\<forall>j < y. \<not> P j" using Suc.IH [of y] by blast+
    have "find P [0..<Suc n] = Some y"
      using Some by (simp add: find_snoc)
    moreover have "Some y = Some k \<longleftrightarrow> k < Suc n \<and> P k \<and> (\<forall>j < k. \<not> P j)"
      using y by (metis less_Suc_eq option.inject not_less_iff_gr_or_eq)
    ultimately show ?thesis by simp
  qed
qed

lemma diff_nth:
  assumes "k < length v" "v = v0 # rest"
  shows "map2 (\<lambda>a b. a - b) v (v0 # v) ! k = (if k = 0 then 0 else v ! k - v ! (k - 1 :: nat) :: real)"
  using assms by (cases k) auto

lemma first_increment_find:
  "first_increment_index_np v =
     find (\<lambda>k. k \<noteq> 0 \<and> v ! k > v ! (k - 1)) [0..<length v]"
proof (cases v)
  case Nil
  then show ?thesis by (simp add: first_increment_index_np_def)
next
  case (Cons v0 rest)
  let ?d = "map2 (\<lambda>a b. a - b) v (v0 # v)"
  have len: "length ?d = length v" by simp
  have "first_increment_index_np v = find (\<lambda>k. ?d ! k > 0) [0..<length v]"
    using Cons by (simp add: first_increment_index_np_def hd_filter_find Let_def del: upt_Suc)
  also have "\<dots> = find (\<lambda>k. k \<noteq> 0 \<and> v ! k > v ! (k - 1)) [0..<length v]"
  proof (rule find_cong [OF refl])
    fix k assume "k \<in> set [0..<length v]"
    then have "k < length v" by simp
    from diff_nth [OF this Cons] show "(?d ! k > 0) = (k \<noteq> 0 \<and> v ! k > v ! (k - 1))"
      by auto
  qed
  finally show ?thesis .
qed

lemma first_increment_monotone:
  assumes "sorted m"
  shows "first_increment_index_np m = first_above_first m"
proof (cases "find (\<lambda>k. m ! k > m ! 0) [0..<length m]")
  case None
  then have no: "\<forall>k < length m. \<not> m ! k > m ! 0"
    by (simp add: find_upt_None)
  have "\<forall>k < length m. \<not> (k \<noteq> 0 \<and> m ! k > m ! (k - 1))"
  proof (intro allI impI)
    fix k assume k: "k < length m"
    have "m ! 0 \<le> m ! (k - 1)"
      by (rule sorted_nth_mono [OF assms]) (use k in simp_all)
    moreover from no k have "\<not> m ! k > m ! 0" by blast
    ultimately show "\<not> (k \<noteq> 0 \<and> m ! k > m ! (k - 1))" by linarith
  qed
  then have "find (\<lambda>k. k \<noteq> 0 \<and> m ! k > m ! (k - 1)) [0..<length m] = None"
    by (simp add: find_upt_None)
  with None show ?thesis by (simp add: first_increment_find first_above_first_def)
next
  case (Some k)
  then have k: "k < length m" "m ! k > m ! 0" "\<forall>j < k. \<not> m ! j > m ! 0"
    by (simp_all add: find_upt_Some)
  have flat: "m ! j = m ! 0" if "j < k" for j
  proof -
    from that k(1) have "j < length m" by simp
    moreover from that k(3) have "\<not> m ! j > m ! 0" by blast
    moreover have "m ! 0 \<le> m ! j"
      by (rule sorted_nth_mono [OF assms]) (use \<open>j < length m\<close> in simp_all)
    ultimately show ?thesis by linarith
  qed
  have k0: "k \<noteq> 0"
  proof
    assume "k = 0"
    with k(2) show False by simp
  qed
  then have "k - 1 < k" by simp
  then have "m ! (k - 1) = m ! 0" by (rule flat)
  with k(2) k0 have inc: "k \<noteq> 0 \<and> m ! k > m ! (k - 1)" by simp
  have before: "\<forall>j < k. \<not> (j \<noteq> 0 \<and> m ! j > m ! (j - 1))"
  proof (intro allI impI)
    fix j assume j: "j < k"
    then have "j - 1 < k" by simp
    from flat [OF j] flat [OF this] show "\<not> (j \<noteq> 0 \<and> m ! j > m ! (j - 1))" by simp
  qed
  have "find (\<lambda>k. k \<noteq> 0 \<and> m ! k > m ! (k - 1)) [0..<length m] = Some k"
    using k(1) inc before by (simp add: find_upt_Some)
  with Some show ?thesis by (simp add: first_increment_find first_above_first_def)
qed

lemma side_flag_eligible: "side_flag o_arr l_arr idx = eligible (take_rows o_arr idx) (take_rows l_arr idx)"
  unfolding side_flag_def eligible_def launch_not_before_def Let_def
  by (simp only: first_increment_monotone [OF sorted_maximum_accumulate])

lemma length_set_rows: "length (set_rows ok idx) = length ok"
  unfolding set_rows_def by (induction idx arbitrary: ok) simp_all

lemma set_rows_nth: "i < length ok \<Longrightarrow> set_rows ok idx ! i = (i \<in> set idx \<or> ok ! i)"
  unfolding set_rows_def
proof (induction idx arbitrary: ok)
  case Nil
  then show ?case by simp
next
  case (Cons j idx)
  have "fold (\<lambda>i acc. acc[i := True]) idx (ok[j := True]) ! i
          = (i \<in> set idx \<or> ok[j := True] ! i)"
    using Cons.prems by (intro Cons.IH) simp
  also have "ok[j := True] ! i = (i = j \<or> ok ! i)"
    using Cons.prems by (cases "i = j") simp_all
  finally show ?case by auto
qed

lemma causal_loop_inv:
  assumes "groups_in_range gs o1 l1 o2 l2"
  shows "\<exists>g1 g2. causal_loop gs o1 l1 o2 l2 (f1, f2) = Inr (g1, g2) \<and>
           length g1 = length f1 \<and> length g2 = length f2 \<and>
           (\<forall>i < length f1. g1 ! i = (f1 ! i \<or> (\<exists>g \<in> set gs. i \<in> set (snd g) \<and> side_flag o1 l1 (snd g)))) \<and>
           (\<forall>i < length f2. g2 ! i = (f2 ! i \<or> (\<exists>g \<in> set gs. i \<in> set (snd g) \<and> side_flag o2 l2 (snd g))))"
  using assms
proof (induction gs arbitrary: f1 f2)
  case Nil
  then show ?case by simp
next
  case (Cons g gs)
  obtain key idx where g: "g = (key, idx)" by (cases g)
  let ?f1 = "if side_flag o1 l1 idx then set_rows f1 idx else f1"
  let ?f2 = "if side_flag o2 l2 idx then set_rows f2 idx else f2"
  from Cons.prems g have ok: "rows_in_range idx o1 \<and> rows_in_range idx l1 \<and>
      rows_in_range idx o2 \<and> rows_in_range idx l2" and rest: "groups_in_range gs o1 l1 o2 l2"
    by (simp_all add: groups_in_range_def)
  from Cons.IH [OF rest, of ?f1 ?f2] obtain g1 g2 where
    r: "causal_loop gs o1 l1 o2 l2 (?f1, ?f2) = Inr (g1, g2)"
    and len: "length g1 = length ?f1" "length g2 = length ?f2"
    and v1: "\<forall>i < length ?f1. g1 ! i = (?f1 ! i \<or> (\<exists>g \<in> set gs. i \<in> set (snd g) \<and> side_flag o1 l1 (snd g)))"
    and v2: "\<forall>i < length ?f2. g2 ! i = (?f2 ! i \<or> (\<exists>g \<in> set gs. i \<in> set (snd g) \<and> side_flag o2 l2 (snd g)))"
    by blast
  have l1: "length ?f1 = length f1" and l2: "length ?f2 = length f2"
    by (simp_all add: length_set_rows)
  have n1: "?f1 ! i = (f1 ! i \<or> (i \<in> set idx \<and> side_flag o1 l1 idx))" if "i < length f1" for i
    using that by (auto simp: set_rows_nth)
  have n2: "?f2 ! i = (f2 ! i \<or> (i \<in> set idx \<and> side_flag o2 l2 idx))" if "i < length f2" for i
    using that by (auto simp: set_rows_nth)
  have "causal_loop (g # gs) o1 l1 o2 l2 (f1, f2) = Inr (g1, g2)"
    using ok r g by simp
  moreover have "length g1 = length f1" "length g2 = length f2"
    using len l1 l2 by simp_all
  moreover have "\<forall>i < length f1. g1 ! i = (f1 ! i \<or> (\<exists>g' \<in> set (g # gs). i \<in> set (snd g') \<and> side_flag o1 l1 (snd g')))"
    using v1 l1 n1 g by auto
  moreover have "\<forall>i < length f2. g2 ! i = (f2 ! i \<or> (\<exists>g' \<in> set (g # gs). i \<in> set (snd g') \<and> side_flag o2 l2 (snd g')))"
    using v2 l2 n2 g by auto
  ultimately show ?case by blast
qed

lemma disjoint_groups_unique:
  assumes "disjoint_groups gs" "a \<in> set gs" "b \<in> set gs" "i \<in> set (snd a)" "i \<in> set (snd b)"
  shows "a = b"
  using assms unfolding disjoint_groups_def list_all_iff by blast

lemma cummax_const: "\<forall>z \<in> set xs. z = c \<Longrightarrow> cummax c xs = xs"
  by (induction xs) simp_all

lemma first_above_first_const:
  assumes "\<forall>z \<in> set v. z = (c::real)"
  shows "first_above_first (maximum_accumulate v) = None"
proof (cases v)
  case Nil
  then show ?thesis by (simp add: first_above_first_def maximum_accumulate_def)
next
  case (Cons x xs)
  with assms have "x = c" "\<forall>z \<in> set xs. z = c" by simp_all
  then have m: "maximum_accumulate v = v"
    using Cons by (simp add: maximum_accumulate_def cummax_const)
  have "\<forall>k < length v. v ! k = c"
    using assms by simp
  then have "\<forall>k < length v. \<not> v ! k > v ! 0"
    using Cons by (metis length_greater_0_conv less_irrefl list.distinct(1))
  then show ?thesis
    unfolding m first_above_first_def by (simp add: find_upt_None)
qed

lemma eligible_no_origination:
  assumes "\<forall>x \<in> set o_seq. x = Some 0 \<or> x = None"
  shows "\<not> eligible o_seq l_seq"
proof -
  have "\<forall>z \<in> set (map (nan_to_num 0) o_seq). z = 0"
    using assms by (auto simp: nan_to_num_def)
  then have "first_above_first (maximum_accumulate (map (nan_to_num 0) o_seq)) = None"
    by (rule first_above_first_const)
  then show ?thesis by (simp add: eligible_def)
qed

text \<open>
  C3: let the groups be pairwise disjoint lists of row indices within the arrays (what a
  group-by of the table produces). Then the evaluator returns two flag arrays of the
  table's length, and on every row of every pair the side-1 flag equals \<open>eligible\<close> of the
  pair's side-1 origination and launch series: after replacing missing values by zero and
  taking the running maximum, both series have a first value strictly above their first
  row, and the launch position is at or after the origination position. The flag is thus
  constant within the pair; in particular it is false on every row of a pair whose
  origination series is entirely zero. Side 2 likewise.
\<close>

theorem causal_flags_per_pair:
  assumes "disjoint_groups groups_index"
    and "groups_in_range groups_index o1 l1 o2 l2"
  shows "\<exists>f1 f2. compute_causal_flags_for_pairs groups_index o1 l1 o2 l2 = Inr (f1, f2) \<and>
           length f1 = length o1 \<and> length f2 = length o1 \<and>
           (\<forall>(key, idx) \<in> set groups_index. \<forall>i \<in> set idx.
              f1 ! i = eligible (take_rows o1 idx) (take_rows l1 idx) \<and>
              f2 ! i = eligible (take_rows o2 idx) (take_rows l2 idx) \<and>
              ((\<forall>j \<in> set idx. o1 ! j = Some 0) \<longrightarrow> \<not> f1 ! i) \<and>
              ((\<forall>j \<in> set idx. o2 ! j = Some 0) \<longrightarrow> \<not> f2 ! i))"
proof -
  let ?n = "length o1"
  let ?z = "replicate ?n False"
  from causal_loop_inv [OF assms(2), of ?z ?z]
  obtain f1 f2 where
    r: "causal_loop groups_index o1 l1 o2 l2 (?z, ?z) = Inr (f1, f2)"
    and len: "length f1 = length ?z" "length f2 = length ?z"
    and v1: "\<forall>i < length ?z. f1 ! i =
               (?z ! i \<or> (\<exists>g \<in> set groups_index. i \<in> set (snd g) \<and> side_flag o1 l1 (snd g)))"
    and v2: "\<forall>i < length ?z. f2 ! i =
               (?z ! i \<or> (\<exists>g \<in> set groups_index. i \<in> set (snd g) \<and> side_flag o2 l2 (snd g)))"
    by blast
  have len': "length f1 = ?n" "length f2 = ?n"
    using len by simp_all
  have run: "compute_causal_flags_for_pairs groups_index o1 l1 o2 l2 = Inr (f1, f2)"
    using r by (simp add: compute_causal_flags_for_pairs_def)
  have body: "f1 ! i = eligible (take_rows o1 (snd g)) (take_rows l1 (snd g)) \<and>
              f2 ! i = eligible (take_rows o2 (snd g)) (take_rows l2 (snd g)) \<and>
              ((\<forall>j \<in> set (snd g). o1 ! j = Some 0) \<longrightarrow> \<not> f1 ! i) \<and>
              ((\<forall>j \<in> set (snd g). o2 ! j = Some 0) \<longrightarrow> \<not> f2 ! i)"
    if g: "g \<in> set groups_index" and i: "i \<in> set (snd g)" for g i
  proof -
    from assms(2) g have "rows_in_range (snd g) o1"
      by (simp add: groups_in_range_def list_all_iff)
    with i have "i < ?n"
      by (simp add: rows_in_range_def list_all_iff)
    then have iz: "i < length ?z" and zi: "?z ! i = False"
      by simp_all
    have uniq: "snd g' = snd g" if "g' \<in> set groups_index" "i \<in> set (snd g')" for g'
      using disjoint_groups_unique [OF assms(1) that(1) g that(2) i] by simp
    from v1 iz have "f1 ! i =
        (?z ! i \<or> (\<exists>g \<in> set groups_index. i \<in> set (snd g) \<and> side_flag o1 l1 (snd g)))"
      by blast
    then have "f1 ! i = (\<exists>g \<in> set groups_index. i \<in> set (snd g) \<and> side_flag o1 l1 (snd g))"
      unfolding zi by simp
    also have "\<dots> = side_flag o1 l1 (snd g)"
      using g i uniq by metis
    finally have e1: "f1 ! i = eligible (take_rows o1 (snd g)) (take_rows l1 (snd g))"
      by (simp only: side_flag_eligible)
    from v2 iz have "f2 ! i =
        (?z ! i \<or> (\<exists>g \<in> set groups_index. i \<in> set (snd g) \<and> side_flag o2 l2 (snd g)))"
      by blast
    then have "f2 ! i = (\<exists>g \<in> set groups_index. i \<in> set (snd g) \<and> side_flag o2 l2 (snd g))"
      unfolding zi by simp
    also have "\<dots> = side_flag o2 l2 (snd g)"
      using g i uniq by metis
    finally have e2: "f2 ! i = eligible (take_rows o2 (snd g)) (take_rows l2 (snd g))"
      by (simp only: side_flag_eligible)
    have z1: "\<not> eligible (take_rows o1 (snd g)) (take_rows l1 (snd g))"
      if "\<forall>j \<in> set (snd g). o1 ! j = Some 0"
      by (rule eligible_no_origination) (use that in \<open>simp add: take_rows_def\<close>)
    have z2: "\<not> eligible (take_rows o2 (snd g)) (take_rows l2 (snd g))"
      if "\<forall>j \<in> set (snd g). o2 ! j = Some 0"
      by (rule eligible_no_origination) (use that in \<open>simp add: take_rows_def\<close>)
    from e1 e2 z1 z2 show ?thesis by blast
  qed
  then have "\<forall>g \<in> set groups_index. \<forall>i \<in> set (snd g).
      f1 ! i = eligible (take_rows o1 (snd g)) (take_rows l1 (snd g)) \<and>
      f2 ! i = eligible (take_rows o2 (snd g)) (take_rows l2 (snd g)) \<and>
      ((\<forall>j \<in> set (snd g). o1 ! j = Some 0) \<longrightarrow> \<not> f1 ! i) \<and>
      ((\<forall>j \<in> set (snd g). o2 ! j = Some 0) \<longrightarrow> \<not> f2 ! i)"
    by blast
  then have "\<forall>(key, idx) \<in> set groups_index. \<forall>i \<in> set idx.
      f1 ! i = eligible (take_rows o1 idx) (take_rows l1 idx) \<and>
      f2 ! i = eligible (take_rows o2 idx) (take_rows l2 idx) \<and>
      ((\<forall>j \<in> set idx. o1 ! j = Some 0) \<longrightarrow> \<not> f1 ! i) \<and>
      ((\<forall>j \<in> set idx. o2 ! j = Some 0) \<longrightarrow> \<not> f2 ! i)"
    unfolding case_prod_beta .
  with run len' show ?thesis by blast
qed

theorem causal_flags_per_pair_witness:
  "disjoint_groups ex_groups_index \<and>
   groups_in_range ex_groups_index ex_o1 ex_l1 ex_o2 ex_l2 \<and>
   compute_causal_flags_for_pairs ex_groups_index ex_o1 ex_l1 ex_o2 ex_l2 =
     Inr ([True, True, True, False, False], [False, False, False, False, False]) \<and>
   eligible (take_rows ex_o1 [0, 1, 2]) (take_rows ex_l1 [0, 1, 2]) \<and>
   ex_o1 ! 3 = Some 0 \<and> ex_o1 ! 4 = Some 0 \<and>
   (\<exists>f1 f2. compute_causal_flags_for_pairs ex_groups_index ex_o1 ex_l1 ex_o2 ex_l2 = Inr (f1, f2) \<and>
      f1 ! 0 \<and> f1 ! 1 \<and> f1 ! 2 \<and> \<not> f1 ! 3 \<and> \<not> f1 ! 4)"
proof -
  have h1: "disjoint_groups ex_groups_index"
    by code_simp
  have h2: "groups_in_range ex_groups_index ex_o1 ex_l1 ex_o2 ex_l2"
    by code_simp
  have e: "eligible (take_rows ex_o1 [0, 1, 2]) (take_rows ex_l1 [0, 1, 2])"
    by code_simp
  have z: "\<forall>j \<in> set [3, 4]. ex_o1 ! j = Some 0"
    by (simp add: ex_o1_def)
  have v: "compute_causal_flags_for_pairs ex_groups_index ex_o1 ex_l1 ex_o2 ex_l2 =
     Inr ([True, True, True, False, False], [False, False, False, False, False])"
    by code_simp
  have g1: "((''A'', ''B''), [0, 1, 2]) \<in> set ex_groups_index"
    and g2: "((''A'', ''C''), [3, 4]) \<in> set ex_groups_index"
    by (simp_all add: ex_groups_index_def)
  from causal_flags_per_pair [OF h1 h2] obtain f1 f2 where
    r: "compute_causal_flags_for_pairs ex_groups_index ex_o1 ex_l1 ex_o2 ex_l2 = Inr (f1, f2)"
    and p: "\<forall>(key, idx) \<in> set ex_groups_index. \<forall>i \<in> set idx.
              f1 ! i = eligible (take_rows ex_o1 idx) (take_rows ex_l1 idx) \<and>
              f2 ! i = eligible (take_rows ex_o2 idx) (take_rows ex_l2 idx) \<and>
              ((\<forall>j \<in> set idx. ex_o1 ! j = Some 0) \<longrightarrow> \<not> f1 ! i) \<and>
              ((\<forall>j \<in> set idx. ex_o2 ! j = Some 0) \<longrightarrow> \<not> f2 ! i)"
    by blast
  from p g1 e have "f1 ! 0 \<and> f1 ! 1 \<and> f1 ! 2"
    by fastforce
  moreover from p g2 z have "\<not> f1 ! 3 \<and> \<not> f1 ! 4"
    by fastforce
  moreover from z have "ex_o1 ! 3 = Some 0 \<and> ex_o1 ! 4 = Some 0"
    by simp
  ultimately show ?thesis
    using h1 h2 e v r by blast
qed

section \<open>Properties of the pair-year base table\<close>

lemma pair_le_of_pair_year_le:
  "pair_year r \<le> pair_year s \<Longrightarrow> pair r \<le> pair s"
  by (auto simp: pair_year_def pair_def less_eq_prod_def)

lemma sorted_pairs_of_sorted_pair_years:
  assumes "sorted (map pair_year df)"
  shows "sorted (map pair df)"
proof -
  from assms have "sorted_wrt (\<lambda>r s. pair_year r \<le> pair_year s) df"
    by (simp add: sorted_map)
  then have "sorted_wrt (\<lambda>r s. pair r \<le> pair s) df"
    by (rule sorted_wrt_mono_rel [rotated]) (rule pair_le_of_pair_year_le)
  then show ?thesis by (simp add: sorted_map)
qed

lemma sorted_interlock_sorted: "sorted (map pair_year (interlock_sorted valid interlock))"
  by (simp add: interlock_sorted_def)

lemma sorted_run:
  fixes keys :: "('k::linorder) list"
  assumes "sorted keys" "i < length keys" "j < n" "n < i" "keys ! j = keys ! i"
  shows "keys ! n = keys ! i"
proof -
  have "keys ! j \<le> keys ! n"
    by (rule sorted_nth_mono [OF assms(1)]) (use assms in simp_all)
  moreover have "keys ! n \<le> keys ! i"
    by (rule sorted_nth_mono [OF assms(1)]) (use assms in simp_all)
  ultimately show ?thesis using assms(5) by simp
qed

lemma shift_at_lag1_sorted:
  fixes keys :: "('k::linorder) list"
  assumes "sorted keys" "i < length keys"
  shows "shift_at keys col 1 i = (if 0 < i \<and> keys ! (i - 1) = keys ! i then col ! (i - 1) else None)"
proof (cases i)
  case 0
  then show ?thesis by (simp add: shift_at_def)
next
  case (Suc n)
  show ?thesis
  proof (cases "keys ! n = keys ! i")
    case True
    then show ?thesis using Suc by (simp add: shift_at_def same_group_def)
  next
    case False
    have "\<not> same_group keys i j" if "j \<in> set (rev [0..<n])" for j
    proof
      assume "same_group keys i j"
      then have "keys ! j = keys ! i" by (simp add: same_group_def)
      moreover from that have "j < n" by simp
      ultimately have "keys ! n = keys ! i"
        using sorted_run [OF assms(1,2), of j n] Suc by simp
      with False show False by simp
    qed
    then have "filter (same_group keys i) (rev [0..<n]) = []"
      by (simp add: filter_empty_conv)
    then show ?thesis using Suc False by (simp add: shift_at_def same_group_def)
  qed
qed

lemma length_base_table:
  "length (base_table valid interlock) = length (interlock_sorted valid interlock)"
  by (simp add: base_table_def Let_def)

lemma base_table_nth:
  assumes "i < length (interlock_sorted valid interlock)"
  shows "pair (base_table valid interlock ! i) = pair (interlock_sorted valid interlock ! i)"
    and "pair_year (base_table valid interlock ! i) = pair_year (interlock_sorted valid interlock ! i)"
    and "interlock_indirect (base_table valid interlock ! i) =
           astype_int (nan_to_num 0 (interlock_indirect_raw (interlock_sorted valid interlock ! i)))"
    and "interlock_direct (base_table valid interlock ! i) =
           astype_int (nan_to_num 0 (interlock_direct_raw (interlock_sorted valid interlock ! i)))"
    and "mask_indirect_yoy (base_table valid interlock ! i) =
           (interlock_indirect (base_table valid interlock ! i) = 1 \<and>
            L1_interlock_indirect (base_table valid interlock ! i) = 0)"
    and "mask_direct_yoy (base_table valid interlock ! i) =
           (interlock_direct (base_table valid interlock ! i) = 1 \<and>
            L1_interlock_direct (base_table valid interlock ! i) = 0)"
    and "mask_never (base_table valid interlock ! i) =
           (cum_interlock_indirect (base_table valid interlock ! i) = 0 \<and>
            cum_interlock_direct (base_table valid interlock ! i) = 0)"
    and "mask_indirect (base_table valid interlock ! i) = mask_indirect_yoy (base_table valid interlock ! i)"
    and "mask_direct (base_table valid interlock ! i) = mask_direct_yoy (base_table valid interlock ! i)"
    and "mask_no_interlock (base_table valid interlock ! i) = mask_never (base_table valid interlock ! i)"
  using assms
  by (simp_all add: base_table_def Let_def pair_def pair_year_def interlock_row.defs base_row.defs)

lemma map_pair_year_base_table:
  "map pair_year (base_table valid interlock) = map pair_year (interlock_sorted valid interlock)"
  by (rule nth_equalityI) (simp_all add: length_base_table base_table_nth)

lemma map_pair_base_table:
  "map pair (base_table valid interlock) = map pair (interlock_sorted valid interlock)"
  by (rule nth_equalityI) (simp_all add: length_base_table base_table_nth)

lemma sorted_base_table: "sorted (map pair_year (base_table valid interlock))"
  by (simp add: map_pair_year_base_table sorted_interlock_sorted)

lemma base_table_L1:
  assumes "i < length (base_table valid interlock)"
  shows "L1_interlock_indirect (base_table valid interlock ! i) =
           (if 0 < i \<and> pair (base_table valid interlock ! (i - 1)) = pair (base_table valid interlock ! i)
            then interlock_indirect (base_table valid interlock ! (i - 1)) else 0)"
    and "L1_interlock_direct (base_table valid interlock ! i) =
           (if 0 < i \<and> pair (base_table valid interlock ! (i - 1)) = pair (base_table valid interlock ! i)
            then interlock_direct (base_table valid interlock ! (i - 1)) else 0)"
proof -
  let ?df = "interlock_sorted valid interlock"
  let ?bt = "base_table valid interlock"
  let ?keys = "map pair ?df"
  from assms have i: "i < length ?df" by (simp add: length_base_table)
  then have i1: "i - 1 < length ?df" by simp
  have srt: "sorted ?keys"
    by (rule sorted_pairs_of_sorted_pair_years) (rule sorted_interlock_sorted)
  have ik: "i < length ?keys" using i by simp
  have keys: "?keys ! (i - 1) = pair (?bt ! (i - 1))" "?keys ! i = pair (?bt ! i)"
    using i i1 by (simp_all add: base_table_nth)
  let ?ind = "map (\<lambda>r. astype_int (nan_to_num 0 (interlock_indirect_raw r))) ?df"
  let ?dir = "map (\<lambda>r. astype_int (nan_to_num 0 (interlock_direct_raw r))) ?df"
  have "L1_interlock_indirect (?bt ! i) = fillna_int (shift_at ?keys (map Some ?ind) 1 i)"
    using i by (simp add: base_table_def Let_def groupby_shift_def interlock_row.defs base_row.defs)
  also have "\<dots> = (if 0 < i \<and> ?keys ! (i - 1) = ?keys ! i then ?ind ! (i - 1) else 0)"
    unfolding shift_at_lag1_sorted [OF srt ik] using i1 by (simp add: fillna_int_def)
  also have "\<dots> = (if 0 < i \<and> pair (?bt ! (i - 1)) = pair (?bt ! i)
                    then interlock_indirect (?bt ! (i - 1)) else 0)"
    unfolding keys using i1 by (simp add: base_table_nth)
  finally show "L1_interlock_indirect (?bt ! i) =
           (if 0 < i \<and> pair (?bt ! (i - 1)) = pair (?bt ! i)
            then interlock_indirect (?bt ! (i - 1)) else 0)" .
  have "L1_interlock_direct (?bt ! i) = fillna_int (shift_at ?keys (map Some ?dir) 1 i)"
    using i by (simp add: base_table_def Let_def groupby_shift_def interlock_row.defs base_row.defs)
  also have "\<dots> = (if 0 < i \<and> ?keys ! (i - 1) = ?keys ! i then ?dir ! (i - 1) else 0)"
    unfolding shift_at_lag1_sorted [OF srt ik] using i1 by (simp add: fillna_int_def)
  also have "\<dots> = (if 0 < i \<and> pair (?bt ! (i - 1)) = pair (?bt ! i)
                    then interlock_direct (?bt ! (i - 1)) else 0)"
    unfolding keys using i1 by (simp add: base_table_nth)
  finally show "L1_interlock_direct (?bt ! i) =
           (if 0 < i \<and> pair (?bt ! (i - 1)) = pair (?bt ! i)
            then interlock_direct (?bt ! (i - 1)) else 0)" .
qed

lemma base_table_cum:
  assumes "i < length (base_table valid interlock)"
  shows "cum_interlock_indirect (base_table valid interlock ! i) =
           sum_list (map (\<lambda>j. interlock_indirect (base_table valid interlock ! j))
             (filter (\<lambda>j. pair (base_table valid interlock ! j) = pair (base_table valid interlock ! i))
                [0..<Suc i]))"
    and "cum_interlock_direct (base_table valid interlock ! i) =
           sum_list (map (\<lambda>j. interlock_direct (base_table valid interlock ! j))
             (filter (\<lambda>j. pair (base_table valid interlock ! j) = pair (base_table valid interlock ! i))
                [0..<Suc i]))"
proof -
  let ?df = "interlock_sorted valid interlock"
  let ?bt = "base_table valid interlock"
  let ?keys = "map pair ?df"
  let ?ind = "map (\<lambda>r. astype_int (nan_to_num 0 (interlock_indirect_raw r))) ?df"
  let ?dir = "map (\<lambda>r. astype_int (nan_to_num 0 (interlock_direct_raw r))) ?df"
  from assms have i: "i < length ?df" by (simp add: length_base_table)
  have f: "filter (same_group ?keys i) [0..<Suc i] = filter (\<lambda>j. pair (?bt ! j) = pair (?bt ! i)) [0..<Suc i]"
  proof (rule filter_cong [OF refl])
    fix j assume "j \<in> set [0..<Suc i]"
    with i have "j < length ?df" by auto
    with i show "same_group ?keys i j = (pair (?bt ! j) = pair (?bt ! i))"
      by (simp add: same_group_def base_table_nth)
  qed
  have s: "set (filter (\<lambda>j. pair (?bt ! j) = pair (?bt ! i)) [0..<Suc i]) \<subseteq> {j. j < length ?df}"
    using i by auto
  have "cum_interlock_indirect (?bt ! i) = sum_list (map (\<lambda>j. ?ind ! j) (filter (same_group ?keys i) [0..<Suc i]))"
    using i by (simp add: base_table_def Let_def groupby_cumsum_def interlock_row.defs base_row.defs del: upt_Suc)
  also have "\<dots> = sum_list (map (\<lambda>j. interlock_indirect (?bt ! j)) (filter (\<lambda>j. pair (?bt ! j) = pair (?bt ! i)) [0..<Suc i]))"
    unfolding f by (rule arg_cong [where f = sum_list], rule map_cong [OF refl]) (use s in \<open>auto simp: base_table_nth\<close>)
  finally show "cum_interlock_indirect (?bt ! i) =
           sum_list (map (\<lambda>j. interlock_indirect (?bt ! j))
             (filter (\<lambda>j. pair (?bt ! j) = pair (?bt ! i)) [0..<Suc i]))" .
  have "cum_interlock_direct (?bt ! i) = sum_list (map (\<lambda>j. ?dir ! j) (filter (same_group ?keys i) [0..<Suc i]))"
    using i by (simp add: base_table_def Let_def groupby_cumsum_def interlock_row.defs base_row.defs del: upt_Suc)
  also have "\<dots> = sum_list (map (\<lambda>j. interlock_direct (?bt ! j)) (filter (\<lambda>j. pair (?bt ! j) = pair (?bt ! i)) [0..<Suc i]))"
    unfolding f by (rule arg_cong [where f = sum_list], rule map_cong [OF refl]) (use s in \<open>auto simp: base_table_nth\<close>)
  finally show "cum_interlock_direct (?bt ! i) =
           sum_list (map (\<lambda>j. interlock_direct (?bt ! j))
             (filter (\<lambda>j. pair (?bt ! j) = pair (?bt ! i)) [0..<Suc i]))" .
qed

lemma base_table_masks:
  assumes "i < length (base_table valid interlock)"
  shows "sorted (map pair_year (base_table valid interlock)) \<and>
         mask_indirect_yoy (base_table valid interlock ! i) =
           (interlock_indirect (base_table valid interlock ! i) = 1 \<and>
            (if 0 < i \<and> pair (base_table valid interlock ! (i - 1)) = pair (base_table valid interlock ! i)
             then interlock_indirect (base_table valid interlock ! (i - 1)) = 0 else True)) \<and>
         mask_direct_yoy (base_table valid interlock ! i) =
           (interlock_direct (base_table valid interlock ! i) = 1 \<and>
            (if 0 < i \<and> pair (base_table valid interlock ! (i - 1)) = pair (base_table valid interlock ! i)
             then interlock_direct (base_table valid interlock ! (i - 1)) = 0 else True)) \<and>
         mask_never (base_table valid interlock ! i) =
           (cum_interlock_indirect (base_table valid interlock ! i) = 0 \<and>
            cum_interlock_direct (base_table valid interlock ! i) = 0) \<and>
         cum_interlock_indirect (base_table valid interlock ! i) =
           sum_list (map (\<lambda>j. interlock_indirect (base_table valid interlock ! j))
             (filter (\<lambda>j. pair (base_table valid interlock ! j) = pair (base_table valid interlock ! i))
                [0..<Suc i])) \<and>
         cum_interlock_direct (base_table valid interlock ! i) =
           sum_list (map (\<lambda>j. interlock_direct (base_table valid interlock ! j))
             (filter (\<lambda>j. pair (base_table valid interlock ! j) = pair (base_table valid interlock ! i))
                [0..<Suc i]))"
proof -
  let ?bt = "base_table valid interlock"
  from assms have i: "i < length (interlock_sorted valid interlock)"
    by (simp add: length_base_table)
  have l1: "(L1_interlock_indirect (?bt ! i) = 0) =
      (if 0 < i \<and> pair (?bt ! (i - 1)) = pair (?bt ! i)
       then interlock_indirect (?bt ! (i - 1)) = 0 else True)"
    and l2: "(L1_interlock_direct (?bt ! i) = 0) =
      (if 0 < i \<and> pair (?bt ! (i - 1)) = pair (?bt ! i)
       then interlock_direct (?bt ! (i - 1)) = 0 else True)"
    using base_table_L1 [OF assms] by simp_all
  have y1: "mask_indirect_yoy (?bt ! i) =
      (interlock_indirect (?bt ! i) = 1 \<and>
       (if 0 < i \<and> pair (?bt ! (i - 1)) = pair (?bt ! i)
        then interlock_indirect (?bt ! (i - 1)) = 0 else True))"
    unfolding l1 [symmetric] by (rule base_table_nth(5) [OF i])
  have y2: "mask_direct_yoy (?bt ! i) =
      (interlock_direct (?bt ! i) = 1 \<and>
       (if 0 < i \<and> pair (?bt ! (i - 1)) = pair (?bt ! i)
        then interlock_direct (?bt ! (i - 1)) = 0 else True))"
    unfolding l2 [symmetric] by (rule base_table_nth(6) [OF i])
  note nv = base_table_nth(7) [OF i]
  note c1 = base_table_cum(1) [OF assms]
  note c2 = base_table_cum(2) [OF assms]
  from sorted_base_table [of valid interlock] y1 y2 nv c1 c2 show ?thesis
    by (intro conjI)
qed

subsection \<open>C4: the scenario masks\<close>

text \<open>
  C4 as stated asks that the Indirect-YoY mask is true only on the first year in which a
  pair's indicator turns from 0 to 1. In \<open>ex_interlock\<close> the pair's indicator is 0, 1, 0, 1
  over 2000 to 2003: the mask is true in 2001 and again on the re-transition in 2003.
\<close>

theorem yoy_retransition_counterexample:
  "map pair_year (fst (projr (build_base ex_cols0 [''disease''] ex_valid ex_interlock))) =
     [(''A'', ''B'', 2000), (''A'', ''B'', 2001), (''A'', ''B'', 2002), (''A'', ''B'', 2003)] \<and>
   map interlock_indirect (fst (projr (build_base ex_cols0 [''disease''] ex_valid ex_interlock))) =
     [0, 1, 0, 1] \<and>
   map mask_indirect_yoy (fst (projr (build_base ex_cols0 [''disease''] ex_valid ex_interlock))) =
     [False, True, False, True]"
  by code_simp

text \<open>
  C4, amended: the base table is sorted by (FirmA, FirmB, Year), so the row before a row of
  the same pair is that pair's previous observation. The Indirect-YoY mask is true exactly
  on the rows whose indicator is 1 and whose pair's previous observation, if there is one,
  has indicator 0: every 0-to-1 transition of the pair, re-transitions included, and never
  a steady-state year. Direct-YoY likewise for the direct indicator. The Never mask is true
  exactly where the pair's cumulative sums of both indicators, up to and including the
  row, are zero.
\<close>

theorem yoy_marks_every_onset:
  assumes "build_base cols0 want_entities valid interlock = Inr (df, groups_by_entity)"
    and "i < length df"
  shows "sorted (map pair_year df) \<and>
         mask_indirect_yoy (df ! i) =
           (interlock_indirect (df ! i) = 1 \<and>
            (if 0 < i \<and> pair (df ! (i - 1)) = pair (df ! i)
             then interlock_indirect (df ! (i - 1)) = 0 else True)) \<and>
         mask_direct_yoy (df ! i) =
           (interlock_direct (df ! i) = 1 \<and>
            (if 0 < i \<and> pair (df ! (i - 1)) = pair (df ! i)
             then interlock_direct (df ! (i - 1)) = 0 else True)) \<and>
         mask_never (df ! i) =
           (cum_interlock_indirect (df ! i) = 0 \<and> cum_interlock_direct (df ! i) = 0) \<and>
         cum_interlock_indirect (df ! i) =
           sum_list (map (\<lambda>j. interlock_indirect (df ! j))
             (filter (\<lambda>j. pair (df ! j) = pair (df ! i)) [0..<Suc i])) \<and>
         cum_interlock_direct (df ! i) =
           sum_list (map (\<lambda>j. interlock_direct (df ! j))
             (filter (\<lambda>j. pair (df ! j) = pair (df ! i)) [0..<Suc i]))"
proof -
  from assms(1) have df: "df = base_table valid interlock"
    by (auto simp: build_base_def Let_def split: if_splits)
  from assms(2) have "i < length (base_table valid interlock)"
    by (simp add: df)
  then show ?thesis
    unfolding df by (rule base_table_masks)
qed

theorem yoy_marks_every_onset_witness:
  "build_base ex_cols0 [''disease''] ex_valid ex_interlock =
     Inr (base_table ex_valid ex_interlock, [(''disease'', [''X''])]) \<and>
   3 < length (base_table ex_valid ex_interlock) \<and>
   mask_indirect_yoy (base_table ex_valid ex_interlock ! 3) \<and>
   pair (base_table ex_valid ex_interlock ! (3 - 1)) = pair (base_table ex_valid ex_interlock ! 3) \<and>
   interlock_indirect (base_table ex_valid ex_interlock ! (3 - 1)) = 0 \<and>
   interlock_indirect (base_table ex_valid ex_interlock ! 3) = 1"
proof -
  have h1: "build_base ex_cols0 [''disease''] ex_valid ex_interlock =
     Inr (base_table ex_valid ex_interlock, [(''disease'', [''X''])])"
    by code_simp
  have h2: "3 < length (base_table ex_valid ex_interlock)"
    by code_simp
  have e: "pair (base_table ex_valid ex_interlock ! (3 - 1)) = pair (base_table ex_valid ex_interlock ! 3)"
    "interlock_indirect (base_table ex_valid ex_interlock ! (3 - 1)) = 0"
    "interlock_indirect (base_table ex_valid ex_interlock ! 3) = 1"
    by code_simp+
  from yoy_marks_every_onset [OF h1 h2] e have "mask_indirect_yoy (base_table ex_valid ex_interlock ! 3)"
    by simp
  with h1 h2 e show ?thesis by blast
qed

section \<open>Properties of the lag and lead cache\<close>

subsection \<open>C2: lags and leads at the boundary between two pairs of one firm\<close>

text \<open>
  C2 asks that the cached lag-1 and lead values of a side are the firm's values at its
  chronologically previous and next observations, and are missing at a boundary. The shifts
  are grouped by the single firm, on a table sorted by (FirmA, FirmB, Year): the rows of a
  firm with two pairs run through the years of the first pair and then again through the
  years of the second. In \<open>ex_tmp\<close> firm A has origination 0 in 2000 and 5 in 2001 and
  the pairs (A, B) and (A, C). On row (A, C, 2000) the cached lag-1 is 5, A's value of 2001
  carried over from pair (A, B); on row (A, B, 2001) the cached lead-1 is 0, A's value of
  2000 taken from pair (A, C).
\<close>

theorem lag_carried_across_pairs:
  "map pair_year ex_tmp =
     [(''A'', ''B'', 2000), (''A'', ''B'', 2001), (''A'', ''C'', 2000), (''A'', ''C'', 2001)] \<and>
   c_cur_o1 (build_shift_last_cache ex_tmp ''X'') = [Some 0, Some 5, Some 0, Some 5] \<and>
   c_L1_o1 (build_shift_last_cache ex_tmp ''X'') = [None, Some 0, Some 5, Some 0] \<and>
   c_F1_o1 (build_shift_last_cache ex_tmp ''X'') = [Some 5, Some 0, Some 5, None]"
  by code_simp

section \<open>Properties of counts, shares and rows\<close>

lemma counts_shares_Nil: "counts_shares [] tot = []"
  by (simp add: counts_shares_def)

lemma counts_shares_Cons:
  "counts_shares (c # cs) tot =
     [CInt c, CFloat (if tot \<le> 0 then 0 else real_of_int c / real_of_int tot)] @ counts_shares cs tot"
  by (simp add: counts_shares_def)

lemma length_counts_shares: "length (counts_shares counts tot) = 2 * length counts"
  by (induction counts) (simp_all add: counts_shares_Nil counts_shares_Cons)

lemma counts_shares_nth:
  "i < length counts \<Longrightarrow>
   counts_shares counts tot ! (2 * i) = CInt (counts ! i) \<and>
   counts_shares counts tot ! (2 * i + 1) =
     CFloat (if tot \<le> 0 then 0 else real_of_int (counts ! i) / real_of_int tot)"
proof (induction counts arbitrary: i)
  case Nil
  then show ?case by simp
next
  case (Cons c cs)
  show ?case
  proof (cases i)
    case 0
    then show ?thesis by (simp add: counts_shares_Cons)
  next
    case (Suc j)
    with Cons.prems have j: "j < length cs" by simp
    have e: "2 * i = Suc (Suc (2 * j))" "2 * i + 1 = Suc (Suc (2 * j + 1))"
      using Suc by simp_all
    from Cons.IH [OF j] show ?thesis
      unfolding e counts_shares_Cons using Suc by simp
  qed
qed

text \<open>
  C6: \<open>_counts_shares\<close> returns, for the count at position \<open>i\<close>, the count itself at
  position \<open>2 i\<close> and its share at position \<open>2 i + 1\<close>; the share is count/total when
  the total is positive and 0 otherwise, so no division by zero takes place. (The quotient
  is the exact one; the source's float division rounds it to the nearest double.)
\<close>

theorem counts_shares_policy:
  "i < length counts \<Longrightarrow>
   length (counts_shares counts tot) = 2 * length counts \<and>
   counts_shares counts tot ! (2 * i) = CInt (counts ! i) \<and>
   counts_shares counts tot ! (2 * i + 1) =
     CFloat (if tot > 0 then real_of_int (counts ! i) / real_of_int tot else 0)"
  using counts_shares_nth [of i counts tot] by (simp add: length_counts_shares not_less)

theorem counts_shares_policy_witness:
  "(1::nat) < length [3, 1 :: int] \<and>
   counts_shares [3, 1] 4 = [CInt 3, CFloat (3 / 4), CInt 1, CFloat (1 / 4)] \<and>
   counts_shares [3, 1] 4 ! (2 * 1 + 1) = CFloat (1 / 4) \<and>
   counts_shares [3, 1] 0 ! (2 * 1 + 1) = CFloat 0"
proof -
  have h: "(1::nat) < length [3, 1 :: int]" by simp
  from counts_shares_policy [OF h, of 4] counts_shares_policy [OF h, of 0]
  show ?thesis by (simp add: counts_shares_def)
qed

lemma scenario_block_Inr:
  assumes "scenario_block arr msk tot = Inr b"
  shows "length b = 52 \<and> b ! 0 = CInt tot \<and> b ! 1 = total_share tot \<and>
         (\<forall>k < 25. b ! (3 + 2 * k) = CFloat 0 \<or> 0 < tot)"
proof -
  from assms obtain cs where cs: "compute_bundle_counts arr msk = Inr cs"
    and b: "b = [CInt tot, total_share tot] @ counts_shares cs tot"
    by (auto simp: scenario_block_def split: sum.splits)
  have len: "length cs = 25" by (rule counts_length [OF cs])
  have "b ! (3 + 2 * k) = CFloat 0 \<or> 0 < tot" if "k < 25" for k
  proof (cases "0 < tot")
    case True
    then show ?thesis by simp
  next
    case False
    have "b ! (3 + 2 * k) = counts_shares cs tot ! (2 * k + 1)"
      unfolding b by simp
    also have "\<dots> = CFloat 0"
      using counts_shares_nth [of k cs tot] that len False by simp
    finally show ?thesis by simp
  qed
  then show ?thesis
    using b len by (simp add: length_counts_shares)
qed

lemma bind_err_Inr: "bind_err m f = Inr y \<longleftrightarrow> (\<exists>x. m = Inr x \<and> f x = Inr y)"
  by (cases m) (simp_all add: bind_err_def)

lemma scenario_block_total:
  assumes "same_shape arr (length msk)"
  shows "\<exists>b. scenario_block arr msk tot = Inr b"
  by (simp add: scenario_block_def compute_bundle_counts_same_shape [OF assms])

lemma msum_zero_or_pos: "msum m = 0 \<or> 0 < msum m"
  using msum_nonneg [of m] by linarith

lemma block_cols_length: "length (block_cols a b rn) = 50"
  by (simp add: block_cols_def length_concat upt_rec sum_list.Cons comp_def)

section \<open>Properties of a run\<close>

lemma master_row_totals:
  assumes "master_row g arr totals = Inr row"
  shows "totals_cells totals row"
proof -
  from assms obtain b1 b2 b3 where
    b: "scenario_block arr (arr_mask_indirect arr) (tot_indirect totals) = Inr b1"
       "scenario_block arr (arr_mask_direct arr) (tot_direct totals) = Inr b2"
       "scenario_block arr (arr_mask_none arr) (tot_none totals) = Inr b3"
    and row: "row = [CStr g] @ b1 @ b2 @ b3"
    by (auto simp: master_row_def split: sum.splits)
  from scenario_block_Inr [OF b(1)] have 1: "length b1 = 52" "b1 ! 0 = CInt (tot_indirect totals)"
    "b1 ! 1 = total_share (tot_indirect totals)" by simp_all
  from scenario_block_Inr [OF b(2)] have 2: "length b2 = 52" "b2 ! 0 = CInt (tot_direct totals)"
    "b2 ! 1 = total_share (tot_direct totals)" by simp_all
  from scenario_block_Inr [OF b(3)] have 3: "length b3 = 52" "b3 ! 0 = CInt (tot_none totals)"
    "b3 ! 1 = total_share (tot_none totals)" by simp_all
  have "row ! 1 = b1 ! 0" "row ! 2 = b1 ! 1"
    unfolding row using 1(1) by (simp_all add: nth_append numeral_eq_Suc)
  moreover have "row ! 53 = b2 ! 0" "row ! 54 = b2 ! 1"
    unfolding row using 1(1) 2(1) by (simp_all add: nth_append nth_Cons')
  moreover have "row ! 105 = b3 ! 0" "row ! 106 = b3 ! 1"
    unfolding row using 1(1) 2(1) 3(1) by (simp_all add: nth_append nth_Cons')
  moreover have "length row = 157"
    unfolding row using 1(1) 2(1) 3(1) by simp
  ultimately show ?thesis
    using 1 2 3 by (simp add: totals_cells_def)
qed

lemma group_rows_master:
  assumes "group_rows base_df totals tmp g acc = Inr acc'"
  shows "\<exists>arr row. master_row g arr totals = Inr row \<and> master_rows acc' = master_rows acc @ [row]"
  using assms unfolding group_rows_def Let_def bind_err_Inr by auto

lemma groups_loop_master:
  assumes "groups_loop base_df totals tmp gs acc = Inr acc'"
    and "\<forall>r \<in> set (master_rows acc). totals_cells totals r"
  shows "\<forall>r \<in> set (master_rows acc'). totals_cells totals r"
  using assms
proof (induction gs arbitrary: acc)
  case Nil
  then show ?case by simp
next
  case (Cons g gs)
  from Cons.prems(1) obtain acc1 where
    1: "group_rows base_df totals tmp g acc = Inr acc1"
    and 2: "groups_loop base_df totals tmp gs acc1 = Inr acc'"
    by (auto simp: bind_err_Inr)
  from group_rows_master [OF 1] obtain arr row where
    row: "master_row g arr totals = Inr row" "master_rows acc1 = master_rows acc @ [row]"
    by blast
  have "\<forall>r \<in> set (master_rows acc1). totals_cells totals r"
    using Cons.prems(2) master_row_totals [OF row(1)] row(2) by auto
  with 2 show ?case by (rule Cons.IH)
qed

lemma batch_loop_master:
  assumes "batch_loop base_df totals valid citeline groups BATCH ss acc = Inr acc'"
    and "\<forall>r \<in> set (master_rows acc). totals_cells totals r"
  shows "\<forall>r \<in> set (master_rows acc'). totals_cells totals r"
  using assms
proof (induction ss arbitrary: acc)
  case Nil
  then show ?case by simp
next
  case (Cons s ss)
  let ?batch = "take (nat BATCH) (drop s groups)"
  show ?case
  proof (cases "attach_entity_batch base_df valid citeline ?batch")
    case None
    with Cons.prems(1) have "batch_loop base_df totals valid citeline groups BATCH ss acc = Inr acc'"
      by (simp add: Let_def)
    then show ?thesis using Cons.prems(2) by (rule Cons.IH)
  next
    case (Some tmp)
    show ?thesis
    proof (cases "tmp = []")
      case True
      with Some Cons.prems(1) have "batch_loop base_df totals valid citeline groups BATCH ss acc = Inr acc'"
        by (simp add: Let_def)
      then show ?thesis using Cons.prems(2) by (rule Cons.IH)
    next
      case False
      with Some Cons.prems(1) obtain acc1 where
        1: "groups_loop base_df totals tmp ?batch acc = Inr acc1"
        and 2: "batch_loop base_df totals valid citeline groups BATCH ss acc1 = Inr acc'"
        by (auto simp: Let_def bind_err_Inr)
      from groups_loop_master [OF 1 Cons.prems(2)] 2 show ?thesis by (rule Cons.IH [rotated])
    qed
  qed
qed

lemma run_entity_master:
  assumes "run_entity base_df entity groups BATCH valid citeline = Inr files"
  shows "\<forall>(name, header, rows) \<in> set (take 1 files).
           header = key_col entity # tl master_cols \<and>
           (\<forall>r \<in> set rows. totals_cells (base_totals base_df) r)"
proof (cases "groups = []")
  case True
  with assms show ?thesis by (simp add: run_entity_def)
next
  case False
  with assms obtain starts acc where
    bl: "batch_loop base_df (base_totals base_df) valid citeline groups BATCH starts no_rows = Inr acc"
    and files: "files = emit_master entity (master_rows acc) @
                   emit_yoy entity (indirect_rows acc) (indirect_hist_rows acc)
                     (direct_rows acc) (direct_hist_rows acc) (never_rows acc)"
    by (auto simp: run_entity_def Let_def bind_err_Inr base_totals_def)
  from bl have "\<forall>r \<in> set (master_rows acc). totals_cells (base_totals base_df) r"
    by (rule batch_loop_master) (simp add: no_rows_def)
  then show ?thesis
    unfolding files by (simp add: emit_master_def Let_def)
qed

lemma master_cols_totals:
  "master_cols ! 1 = ''Total_Indirect_Event_Count'' \<and> master_cols ! 2 = ''Total_Indirect_Event_Share'' \<and>
   master_cols ! 53 = ''Total_Direct_Event_Count'' \<and> master_cols ! 54 = ''Total_Direct_Event_Share'' \<and>
   master_cols ! 105 = ''Total_NoInterlock_Event_Count'' \<and>
   master_cols ! 106 = ''Total_NoInterlock_Event_Share''"
  by code_simp

lemma master_header_totals:
  "(key # tl master_cols) ! 1 = ''Total_Indirect_Event_Count'' \<and>
   (key # tl master_cols) ! 2 = ''Total_Indirect_Event_Share'' \<and>
   (key # tl master_cols) ! 53 = ''Total_Direct_Event_Count'' \<and>
   (key # tl master_cols) ! 54 = ''Total_Direct_Event_Share'' \<and>
   (key # tl master_cols) ! 105 = ''Total_NoInterlock_Event_Count'' \<and>
   (key # tl master_cols) ! 106 = ''Total_NoInterlock_Event_Share''"
  by code_simp

subsection \<open>C10: the scenario totals of the master table\<close>

text \<open>
  C10: whenever \<open>run_entity\<close> returns, every row of the master table (the first file it
  writes) carries in the columns \<open>Total_Indirect_Event_Count\<close>,
  \<open>Total_Direct_Event_Count\<close> and \<open>Total_NoInterlock_Event_Count\<close> the number of true
  rows of the base table's three scenario masks, and in the three total-share columns the
  share derived from that number alone. Hence any two runs on the same base table, whatever
  their firm-year series, whitelist, groups, entity or batch size, agree on these six cells
  in all their master rows.
\<close>

theorem master_totals_from_base_only:
  assumes "run_entity base_df entity groups BATCH valid citeline = Inr files"
    and "run_entity base_df entity' groups' BATCH' valid' citeline' = Inr files'"
  shows "\<forall>(name, header, rows) \<in> set (take 1 files).
         \<forall>(name', header', rows') \<in> set (take 1 files').
           header ! 1 = ''Total_Indirect_Event_Count'' \<and>
           header ! 2 = ''Total_Indirect_Event_Share'' \<and>
           header ! 53 = ''Total_Direct_Event_Count'' \<and>
           header ! 54 = ''Total_Direct_Event_Share'' \<and>
           header ! 105 = ''Total_NoInterlock_Event_Count'' \<and>
           header ! 106 = ''Total_NoInterlock_Event_Share'' \<and>
           (\<forall>r \<in> set rows.
              r ! 1 = CInt (msum (map mask_indirect base_df)) \<and>
              r ! 2 = total_share (msum (map mask_indirect base_df)) \<and>
              r ! 53 = CInt (msum (map mask_direct base_df)) \<and>
              r ! 54 = total_share (msum (map mask_direct base_df)) \<and>
              r ! 105 = CInt (msum (map mask_no_interlock base_df)) \<and>
              r ! 106 = total_share (msum (map mask_no_interlock base_df)) \<and>
              (\<forall>r' \<in> set rows'. \<forall>k \<in> {1, 2, 53, 54, 105, 106}. r ! k = r' ! k))"
proof -
  note hd = master_header_totals
  have cells: "r ! 1 = CInt (msum (map mask_indirect base_df)) \<and>
        r ! 2 = total_share (msum (map mask_indirect base_df)) \<and>
        r ! 53 = CInt (msum (map mask_direct base_df)) \<and>
        r ! 54 = total_share (msum (map mask_direct base_df)) \<and>
        r ! 105 = CInt (msum (map mask_no_interlock base_df)) \<and>
        r ! 106 = total_share (msum (map mask_no_interlock base_df))"
    if "totals_cells (base_totals base_df) r" for r
    using that by (simp add: totals_cells_def base_totals_def)
  have "header ! 1 = ''Total_Indirect_Event_Count'' \<and>
        header ! 2 = ''Total_Indirect_Event_Share'' \<and>
        header ! 53 = ''Total_Direct_Event_Count'' \<and>
        header ! 54 = ''Total_Direct_Event_Share'' \<and>
        header ! 105 = ''Total_NoInterlock_Event_Count'' \<and>
        header ! 106 = ''Total_NoInterlock_Event_Share'' \<and>
        (\<forall>r \<in> set rows.
           r ! 1 = CInt (msum (map mask_indirect base_df)) \<and>
           r ! 2 = total_share (msum (map mask_indirect base_df)) \<and>
           r ! 53 = CInt (msum (map mask_direct base_df)) \<and>
           r ! 54 = total_share (msum (map mask_direct base_df)) \<and>
           r ! 105 = CInt (msum (map mask_no_interlock base_df)) \<and>
           r ! 106 = total_share (msum (map mask_no_interlock base_df)) \<and>
           (\<forall>r' \<in> set rows'. \<forall>k \<in> {1, 2, 53, 54, 105, 106}. r ! k = r' ! k))"
    if f: "(name, header, rows) \<in> set (take 1 files)"
      and f': "(name', header', rows') \<in> set (take 1 files')"
    for name header rows name' header' rows'
  proof -
    from run_entity_master [OF assms(1)] f have
      h: "header = key_col entity # tl master_cols"
      and r: "\<forall>r \<in> set rows. totals_cells (base_totals base_df) r"
      by blast+
    from run_entity_master [OF assms(2)] f' have
      r': "\<forall>r \<in> set rows'. totals_cells (base_totals base_df) r"
      by blast
    have "\<forall>k \<in> {1, 2, 53, 54, 105, 106}. a ! k = b ! k"
      if "totals_cells (base_totals base_df) a" "totals_cells (base_totals base_df) b" for a b
      using cells [OF that(1)] cells [OF that(2)] by simp
    with r r' cells hd [of "key_col entity"] show ?thesis
      unfolding h by blast
  qed
  then show ?thesis by blast
qed

theorem master_totals_from_base_only_witness:
  "map_sum id
     (\<lambda>files. map (\<lambda>(name, header, rows).
        map (\<lambda>r. [r ! 1, r ! 2, r ! 53, r ! 54, r ! 105, r ! 106, r ! 13]) rows) (take 1 files))
     (run_entity (base_table ex_valid ex_interlock) ''disease'' [''X''] 20 ex_valid ex_citeline) =
     Inr [[[CInt 2, CFloat 1, CInt 1, CFloat 1, CInt 1, CFloat 1, CInt 1]]] \<and>
   map_sum id
     (\<lambda>files. map (\<lambda>(name, header, rows).
        map (\<lambda>r. [r ! 1, r ! 2, r ! 53, r ! 54, r ! 105, r ! 106, r ! 13]) rows) (take 1 files))
     (run_entity (base_table ex_valid ex_interlock) ''disease'' [''X''] 20 ex_valid ex_citeline_other) =
     Inr [[[CInt 2, CFloat 1, CInt 1, CFloat 1, CInt 1, CFloat 1, CInt 0]]] \<and>
   (\<exists>files files' name header rows name' header' rows' r r'.
      run_entity (base_table ex_valid ex_interlock) ''disease'' [''X''] 20 ex_valid ex_citeline
        = Inr files \<and>
      run_entity (base_table ex_valid ex_interlock) ''disease'' [''X''] 20 ex_valid ex_citeline_other
        = Inr files' \<and>
      (name, header, rows) \<in> set (take 1 files) \<and>
      (name', header', rows') \<in> set (take 1 files') \<and>
      r \<in> set rows \<and> r' \<in> set rows' \<and> r ! 13 \<noteq> r' ! 13 \<and>
      r ! 1 = r' ! 1 \<and> r ! 2 = r' ! 2 \<and> r ! 53 = r' ! 53 \<and> r ! 54 = r' ! 54 \<and>
      r ! 105 = r' ! 105 \<and> r ! 106 = r' ! 106)"
proof -
  let ?F = "run_entity (base_table ex_valid ex_interlock) ''disease'' [''X''] 20 ex_valid ex_citeline"
  let ?G = "run_entity (base_table ex_valid ex_interlock) ''disease'' [''X''] 20 ex_valid ex_citeline_other"
  let ?cells = "\<lambda>files. map (\<lambda>(name, header, rows).
        map (\<lambda>r. [r ! 1, r ! 2, r ! 53, r ! 54, r ! 105, r ! 106, r ! 13 :: cell]) rows)
        (take 1 (files :: csv list))"
  have vF: "map_sum id ?cells ?F = Inr [[[CInt 2, CFloat 1, CInt 1, CFloat 1, CInt 1, CFloat 1, CInt 1]]]"
    by code_simp
  have vG: "map_sum id ?cells ?G = Inr [[[CInt 2, CFloat 1, CInt 1, CFloat 1, CInt 1, CFloat 1, CInt 0]]]"
    by code_simp
  from vF obtain files where h1: "?F = Inr files"
    and cF: "?cells files = [[[CInt 2, CFloat 1, CInt 1, CFloat 1, CInt 1, CFloat 1, CInt 1]]]"
    by (cases ?F) simp_all
  from vG obtain files' where h2: "?G = Inr files'"
    and cG: "?cells files' = [[[CInt 2, CFloat 1, CInt 1, CFloat 1, CInt 1, CFloat 1, CInt 0]]]"
    by (cases ?G) simp_all
  from cF obtain name header r where
    f: "take 1 files = [(name, header, [r])]" and r13: "r ! 13 = CInt 1"
    by (auto simp: map_eq_Cons_conv)
  from cG obtain name' header' r' where
    g: "take 1 files' = [(name', header', [r'])]" and r13': "r' ! 13 = CInt 0"
    by (auto simp: map_eq_Cons_conv)
  from r13 r13' have d: "r ! 13 \<noteq> r' ! 13" by simp
  from master_totals_from_base_only [OF h1 h2]
  have "\<forall>r \<in> set [r]. \<forall>r' \<in> set [r']. \<forall>k \<in> {1, 2, 53, 54, 105, 106}. r ! k = r' ! k"
    unfolding f g by fastforce
  then have "r ! 1 = r' ! 1 \<and> r ! 2 = r' ! 2 \<and> r ! 53 = r' ! 53 \<and> r ! 54 = r' ! 54 \<and>
      r ! 105 = r' ! 105 \<and> r ! 106 = r' ! 106"
    by simp
  with d f g h1 h2 have "\<exists>files files' name header rows name' header' rows' r r'.
      ?F = Inr files \<and> ?G = Inr files' \<and>
      (name, header, rows) \<in> set (take 1 files) \<and>
      (name', header', rows') \<in> set (take 1 files') \<and>
      r \<in> set rows \<and> r' \<in> set rows' \<and> r ! 13 \<noteq> r' ! 13 \<and>
      r ! 1 = r' ! 1 \<and> r ! 2 = r' ! 2 \<and> r ! 53 = r' ! 53 \<and> r ! 54 = r' ! 54 \<and>
      r ! 105 = r' ! 105 \<and> r ! 106 = r' ! 106"
    by (intro exI [of _ files] exI [of _ files'] exI [of _ name] exI [of _ header] exI [of _ "[r]"]
          exI [of _ name'] exI [of _ header'] exI [of _ "[r']"] exI [of _ r] exI [of _ r']) simp
  with vF vG show ?thesis by blast
qed

subsection \<open>C7: total share of the YoY rows\<close>

lemma total_share_msum: "total_share (msum m) = CFloat (if 0 < msum m then 1 else 0)"
  using msum_zero_or_pos [of m] by (auto simp: total_share_def)

lemma yoy_row_cells:
  assumes "yoy_row g arr msk = Inr r"
  shows "yoy_cells (msum msk) r"
proof -
  from assms obtain b where b: "scenario_block arr msk (msum msk) = Inr b" and r: "r = [CStr g] @ b"
    by (auto simp: yoy_row_def split: sum.splits)
  from scenario_block_Inr [OF b] have
    len: "length b = 52" and b0: "b ! 0 = CInt (msum msk)" and b1: "b ! 1 = total_share (msum msk)"
    and sh: "\<forall>k < 25. b ! (3 + 2 * k) = CFloat 0 \<or> 0 < msum msk"
    by simp_all
  have c: "r ! 1 = b ! 0" "r ! 2 = b ! 1" "\<And>k. r ! (4 + 2 * k) = b ! (3 + 2 * k)"
    unfolding r by (simp_all add: numeral_eq_Suc)
  have "msum msk = 0 \<longrightarrow> (\<forall>k < 25. r ! (4 + 2 * k) = CFloat 0)"
    unfolding c using sh by auto
  then show ?thesis
    unfolding yoy_cells_def c b0 b1 total_share_msum using len r msum_nonneg [of msk] by simp
qed

lemma hist_row_cells:
  assumes "hist_row g label arr msk = Inr r"
  shows "hist_cells label (msum msk) r"
proof -
  from assms obtain b where b: "scenario_block arr msk (msum msk) = Inr b"
    and r: "r = [CStr g, CStr label] @ b"
    by (auto simp: hist_row_def split: sum.splits)
  from scenario_block_Inr [OF b] have
    len: "length b = 52" and b0: "b ! 0 = CInt (msum msk)" and b1: "b ! 1 = total_share (msum msk)"
    and sh: "\<forall>k < 25. b ! (3 + 2 * k) = CFloat 0 \<or> 0 < msum msk"
    by simp_all
  have c: "r ! 1 = CStr label" "r ! 2 = b ! 0" "r ! 3 = b ! 1"
    "\<And>k. r ! (5 + 2 * k) = b ! (3 + 2 * k)"
    unfolding r by (simp_all add: numeral_eq_Suc)
  have "msum msk = 0 \<longrightarrow> (\<forall>k < 25. r ! (5 + 2 * k) = CFloat 0)"
    unfolding c using sh by auto
  then show ?thesis
    unfolding hist_cells_def c b0 b1 total_share_msum using len r msum_nonneg [of msk] by simp
qed

lemma hist_pairs_append:
  "hist_pairs t0 t1 rs \<Longrightarrow> hist_cells ''no_prior_direct'' t0 r0 \<Longrightarrow>
   hist_cells ''prior_direct'' t1 r1 \<Longrightarrow> hist_pairs t0 t1 (rs @ [r0, r1])"
  by (induction t0 t1 rs rule: hist_pairs.induct) simp_all

lemma group_rows_yoy:
  assumes "group_rows base_df totals tmp g acc = Inr acc'"
    and "yoy_tables base_df (length (master_rows acc)) (indirect_rows acc) (indirect_hist_rows acc)
           (direct_rows acc) (direct_hist_rows acc) (never_rows acc)"
  shows "yoy_tables base_df (length (master_rows acc')) (indirect_rows acc')
           (indirect_hist_rows acc') (direct_rows acc') (direct_hist_rows acc') (never_rows acc')"
proof -
  let ?mi = "map mask_indirect_yoy base_df" and ?md = "map mask_direct_yoy base_df"
    and ?mn = "map mask_never base_df"
    and ?h0 = "map (\<lambda>r. cum_interlock_direct_prev r = 0) base_df"
    and ?h1 = "map (\<lambda>r. cum_interlock_direct_prev r > 0) base_df"
  from assms(1) obtain arr row r_i r_i0 r_i1 r_d r_d0 r_d1 r_n where
    rows: "yoy_row g arr ?mi = Inr r_i"
      "hist_row g ''no_prior_direct'' arr (mask_and ?mi ?h0) = Inr r_i0"
      "hist_row g ''prior_direct'' arr (mask_and ?mi ?h1) = Inr r_i1"
      "yoy_row g arr ?md = Inr r_d"
      "hist_row g ''no_prior_direct'' arr (mask_and ?md ?h0) = Inr r_d0"
      "hist_row g ''prior_direct'' arr (mask_and ?md ?h1) = Inr r_d1"
      "yoy_row g arr ?mn = Inr r_n"
    and acc': "master_rows acc' = master_rows acc @ [row]"
      "indirect_rows acc' = indirect_rows acc @ [r_i]"
      "indirect_hist_rows acc' = indirect_hist_rows acc @ [r_i0, r_i1]"
      "direct_rows acc' = direct_rows acc @ [r_d]"
      "direct_hist_rows acc' = direct_hist_rows acc @ [r_d0, r_d1]"
      "never_rows acc' = never_rows acc @ [r_n]"
    unfolding group_rows_def Let_def bind_err_Inr by auto
  note c = yoy_row_cells [OF rows(1)] hist_row_cells [OF rows(2)] hist_row_cells [OF rows(3)]
    yoy_row_cells [OF rows(4)] hist_row_cells [OF rows(5)] hist_row_cells [OF rows(6)]
    yoy_row_cells [OF rows(7)]
  from assms(2) c show ?thesis
    unfolding yoy_tables_def Let_def acc' by (simp add: hist_pairs_append)
qed

lemma groups_loop_yoy:
  assumes "groups_loop base_df totals tmp gs acc = Inr acc'"
    and "yoy_tables base_df (length (master_rows acc)) (indirect_rows acc) (indirect_hist_rows acc)
           (direct_rows acc) (direct_hist_rows acc) (never_rows acc)"
  shows "yoy_tables base_df (length (master_rows acc')) (indirect_rows acc')
           (indirect_hist_rows acc') (direct_rows acc') (direct_hist_rows acc') (never_rows acc')"
  using assms
proof (induction gs arbitrary: acc)
  case Nil
  then show ?case by simp
next
  case (Cons g gs)
  from Cons.prems(1) obtain acc1 where
    1: "group_rows base_df totals tmp g acc = Inr acc1"
    and 2: "groups_loop base_df totals tmp gs acc1 = Inr acc'"
    by (auto simp: bind_err_Inr)
  from 2 group_rows_yoy [OF 1 Cons.prems(2)] show ?case by (rule Cons.IH)
qed

lemma batch_loop_yoy:
  assumes "batch_loop base_df totals valid citeline groups BATCH ss acc = Inr acc'"
    and "yoy_tables base_df (length (master_rows acc)) (indirect_rows acc) (indirect_hist_rows acc)
           (direct_rows acc) (direct_hist_rows acc) (never_rows acc)"
  shows "yoy_tables base_df (length (master_rows acc')) (indirect_rows acc')
           (indirect_hist_rows acc') (direct_rows acc') (direct_hist_rows acc') (never_rows acc')"
  using assms
proof (induction ss arbitrary: acc)
  case Nil
  then show ?case by simp
next
  case (Cons s ss)
  let ?batch = "take (nat BATCH) (drop s groups)"
  show ?case
  proof (cases "attach_entity_batch base_df valid citeline ?batch")
    case None
    with Cons.prems(1) have "batch_loop base_df totals valid citeline groups BATCH ss acc = Inr acc'"
      by (simp add: Let_def)
    then show ?thesis using Cons.prems(2) by (rule Cons.IH)
  next
    case (Some tmp)
    show ?thesis
    proof (cases "tmp = []")
      case True
      with Some Cons.prems(1) have "batch_loop base_df totals valid citeline groups BATCH ss acc = Inr acc'"
        by (simp add: Let_def)
      then show ?thesis using Cons.prems(2) by (rule Cons.IH)
    next
      case False
      with Some Cons.prems(1) obtain acc1 where
        1: "groups_loop base_df totals tmp ?batch acc = Inr acc1"
        and 2: "batch_loop base_df totals valid citeline groups BATCH ss acc1 = Inr acc'"
        by (auto simp: Let_def bind_err_Inr)
      from 2 groups_loop_yoy [OF 1 Cons.prems(2)] show ?thesis by (rule Cons.IH)
    qed
  qed
qed

lemma yoy_tables_empty: "yoy_tables base_df 0 [] [] [] [] []"
  by (simp add: yoy_tables_def)

lemma yoy_header:
  "key # tl (yoy_cols tc ts) = key # tc # ts # block_cols ''a'' ''b'' ''rn''"
  by (simp add: yoy_cols_def)

lemma hist_header:
  "hist_cols key tc ts = key # ''HistoryBucket'' # tc # ts # block_cols ''a'' ''b'' ''rn''"
  by (simp add: hist_cols_def)

text \<open>
  C7: whenever \<open>run_entity\<close> returns for a non-empty list of groups, it has written nine
  files; the last five are the Indirect-YoY table, its history table, the Direct-YoY
  table, its history table and the Never table. Each YoY table has as many rows as the
  master table and each history table twice as many. In every row of these five tables
  the total count is the number of true rows of the row's base mask, the total share is
  exactly 1 when that count is positive and exactly 0 when it is 0, and when the count is
  0 every one of the 25 mask shares of the row is exactly 0. The total count and the total
  share stand in the columns that the headers name so.
\<close>

theorem yoy_rows_total_share:
  assumes "run_entity base_df entity groups BATCH valid citeline = Inr files"
    and "groups \<noteq> []"
  shows "\<exists>master l1 l2 l3 indirect_rs indirect_hist_rs direct_rs direct_hist_rs never_rs.
           map (\<lambda>(name, header, rows). rows) files =
             [master, l1, l2, l3, indirect_rs, indirect_hist_rs, direct_rs, direct_hist_rs, never_rs] \<and>
           map (\<lambda>(name, header, rows). (header ! 1, header ! 2)) [files ! 4, files ! 6, files ! 8] =
             [(''Total_Interlock_Event_Count'', ''Total_Interlock_Event_Share''),
              (''Total_Direct_Interlock_Event_Count'', ''Total_Direct_Interlock_Event_Share''),
              (''Total_NoInterlock_Event_Count'', ''Total_NoInterlock_Event_Share'')] \<and>
           map (\<lambda>(name, header, rows). (header ! 1, header ! 2, header ! 3)) [files ! 5, files ! 7] =
             [(''HistoryBucket'', ''Total_Interlock_Event_Count'', ''Total_Interlock_Event_Share''),
              (''HistoryBucket'', ''Total_Direct_Interlock_Event_Count'',
               ''Total_Direct_Interlock_Event_Share'')] \<and>
           yoy_tables base_df (length master) indirect_rs indirect_hist_rs direct_rs
             direct_hist_rs never_rs"
proof -
  from assms obtain starts acc where
    bl: "batch_loop base_df (base_totals base_df) valid citeline groups BATCH starts no_rows = Inr acc"
    and files: "files = emit_master entity (master_rows acc) @
                   emit_yoy entity (indirect_rows acc) (indirect_hist_rows acc)
                     (direct_rows acc) (direct_hist_rows acc) (never_rows acc)"
    by (auto simp: run_entity_def Let_def bind_err_Inr base_totals_def)
  from bl have t: "yoy_tables base_df (length (master_rows acc)) (indirect_rows acc)
      (indirect_hist_rows acc) (direct_rows acc) (direct_hist_rows acc) (never_rows acc)"
    by (rule batch_loop_yoy) (simp add: no_rows_def yoy_tables_empty)
  have rows: "map (\<lambda>(name, header, rows). rows) files =
      [master_rows acc, legacy_block 0 (master_rows acc), legacy_block 1 (master_rows acc),
       legacy_block 2 (master_rows acc), indirect_rows acc, indirect_hist_rows acc,
       direct_rows acc, direct_hist_rows acc, never_rows acc]"
    unfolding files by (simp add: emit_master_def emit_yoy_def Let_def)
  have h1: "map (\<lambda>(name, header, rows). (header ! 1, header ! 2)) [files ! 4, files ! 6, files ! 8] =
             [(''Total_Interlock_Event_Count'', ''Total_Interlock_Event_Share''),
              (''Total_Direct_Interlock_Event_Count'', ''Total_Direct_Interlock_Event_Share''),
              (''Total_NoInterlock_Event_Count'', ''Total_NoInterlock_Event_Share'')]"
    unfolding files emit_master_def emit_yoy_def Let_def yoy_header hist_header by simp
  have h2: "map (\<lambda>(name, header, rows). (header ! 1, header ! 2, header ! 3)) [files ! 5, files ! 7] =
             [(''HistoryBucket'', ''Total_Interlock_Event_Count'', ''Total_Interlock_Event_Share''),
              (''HistoryBucket'', ''Total_Direct_Interlock_Event_Count'',
               ''Total_Direct_Interlock_Event_Share'')]"
    unfolding files emit_master_def emit_yoy_def Let_def yoy_header hist_header by simp
  show ?thesis
    by (intro exI conjI) (rule rows, rule h1, rule h2, rule t)
qed

theorem yoy_rows_total_share_witness:
  "[''X''] \<noteq> ([] :: string list) \<and>
   map_sum id (\<lambda>files. map (\<lambda>(name, header, rows). map (take 6) rows) (drop 4 files))
     (run_entity (base_table ex_valid ex_interlock) ''disease'' [''X''] 20 ex_valid ex_citeline) =
     Inr [[[CStr ''X'', CInt 2, CFloat 1, CInt 0, CFloat 0, CInt 0]],
          [[CStr ''X'', CStr ''no_prior_direct'', CInt 1, CFloat 1, CInt 0, CFloat 0],
           [CStr ''X'', CStr ''prior_direct'', CInt 1, CFloat 1, CInt 0, CFloat 0]],
          [[CStr ''X'', CInt 1, CFloat 1, CInt 0, CFloat 0, CInt 0]],
          [[CStr ''X'', CStr ''no_prior_direct'', CInt 1, CFloat 1, CInt 0, CFloat 0],
           [CStr ''X'', CStr ''prior_direct'', CInt 0, CFloat 0, CInt 0, CFloat 0]],
          [[CStr ''X'', CInt 1, CFloat 1, CInt 0, CFloat 0, CInt 0]]] \<and>
   (\<exists>files master l1 l2 l3 indirect_rs indirect_hist_rs direct_rs direct_hist_rs never_rs.
      run_entity (base_table ex_valid ex_interlock) ''disease'' [''X''] 20 ex_valid ex_citeline
        = Inr files \<and>
      map (\<lambda>(name, header, rows). rows) files =
        [master, l1, l2, l3, indirect_rs, indirect_hist_rs, direct_rs, direct_hist_rs, never_rs] \<and>
      length master = 1 \<and>
      yoy_tables (base_table ex_valid ex_interlock) (length master) indirect_rs indirect_hist_rs
        direct_rs direct_hist_rs never_rs)"
proof -
  let ?F = "run_entity (base_table ex_valid ex_interlock) ''disease'' [''X''] 20 ex_valid ex_citeline"
  have ne: "[''X''] \<noteq> ([] :: string list)" by simp
  have v: "map_sum id (\<lambda>files. map (\<lambda>(name, header, rows). map (take 6) rows) (drop 4 files)) ?F =
     Inr [[[CStr ''X'', CInt 2, CFloat 1, CInt 0, CFloat 0, CInt 0]],
          [[CStr ''X'', CStr ''no_prior_direct'', CInt 1, CFloat 1, CInt 0, CFloat 0],
           [CStr ''X'', CStr ''prior_direct'', CInt 1, CFloat 1, CInt 0, CFloat 0]],
          [[CStr ''X'', CInt 1, CFloat 1, CInt 0, CFloat 0, CInt 0]],
          [[CStr ''X'', CStr ''no_prior_direct'', CInt 1, CFloat 1, CInt 0, CFloat 0],
           [CStr ''X'', CStr ''prior_direct'', CInt 0, CFloat 0, CInt 0, CFloat 0]],
          [[CStr ''X'', CInt 1, CFloat 1, CInt 0, CFloat 0, CInt 0]]]"
    by code_simp
  from v obtain files where h: "?F = Inr files"
    and c: "map (\<lambda>(name, header, rows). map (take 6) rows) (drop 4 files) =
     [[[CStr ''X'', CInt 2, CFloat 1, CInt 0, CFloat 0, CInt 0]],
          [[CStr ''X'', CStr ''no_prior_direct'', CInt 1, CFloat 1, CInt 0, CFloat 0],
           [CStr ''X'', CStr ''prior_direct'', CInt 1, CFloat 1, CInt 0, CFloat 0]],
          [[CStr ''X'', CInt 1, CFloat 1, CInt 0, CFloat 0, CInt 0]],
          [[CStr ''X'', CStr ''no_prior_direct'', CInt 1, CFloat 1, CInt 0, CFloat 0],
           [CStr ''X'', CStr ''prior_direct'', CInt 0, CFloat 0, CInt 0, CFloat 0]],
          [[CStr ''X'', CInt 1, CFloat 1, CInt 0, CFloat 0, CInt 0]]]"
    by (cases ?F) simp_all
  from yoy_rows_total_share [OF h ne] obtain master l1 l2 l3 indirect_rs indirect_hist_rs
    direct_rs direct_hist_rs never_rs where
    rows: "map (\<lambda>(name, header, rows). rows) files =
        [master, l1, l2, l3, indirect_rs, indirect_hist_rs, direct_rs, direct_hist_rs, never_rs]"
    and t: "yoy_tables (base_table ex_valid ex_interlock) (length master) indirect_rs
        indirect_hist_rs direct_rs direct_hist_rs never_rs"
    apply (elim exE conjE)
    apply (rule that)
     apply assumption
    apply assumption
    done
  from rows have "map (\<lambda>(name, header, rows). rows) (drop 4 files) =
      [indirect_rs, indirect_hist_rs, direct_rs, direct_hist_rs, never_rs]"
    by (simp add: drop_map [symmetric])
  with c have "length indirect_rs = 1"
    by (auto simp: map_eq_Cons_conv)
  with t have len: "length master = 1"
    by (simp add: yoy_tables_def Let_def)
  have ex: "\<exists>files master l1 l2 l3 indirect_rs indirect_hist_rs direct_rs direct_hist_rs never_rs.
      ?F = Inr files \<and>
      map (\<lambda>(name, header, rows). rows) files =
        [master, l1, l2, l3, indirect_rs, indirect_hist_rs, direct_rs, direct_hist_rs, never_rs] \<and>
      length master = 1 \<and>
      yoy_tables (base_table ex_valid ex_interlock) (length master) indirect_rs indirect_hist_rs
        direct_rs direct_hist_rs never_rs"
    by (intro exI conjI) (rule h, rule rows, rule len, rule t)
  show ?thesis
    by (intro conjI) (rule ne, rule v, rule ex)
qed

lemma build_base_groups:
  "build_base cols0 run_entities valid interlock =
     (if list_all (\<lambda>ent. detect_groups cols0 ent = []) run_entities then Inl RuntimeError
      else Inr (base_table valid interlock, map (\<lambda>ent. (ent, detect_groups cols0 ent)) run_entities))"
  by (auto simp: build_base_def Let_def list_ex_iff list_all_iff)

lemma map_of_groups:
  "ent \<in> set run_entities \<Longrightarrow>
   map_of (map (\<lambda>ent. (ent, detect_groups cols0 ent)) run_entities) ent = Some (detect_groups cols0 ent)"
  by (induction run_entities) auto

lemma run_entity_no_groups: "run_entity df ent [] BATCH valid citeline = Inr []"
  by (simp add: run_entity_def)

lemma entities_loop_cong:
  assumes "\<forall>ent \<in> set ents. map_of gbe ent = map_of gbe' ent"
  shows "entities_loop df gbe valid citeline ents written =
         entities_loop df gbe' valid citeline ents written"
  using assms by (induction ents arbitrary: written) (simp_all split: sum.splits)

lemma entities_loop_skip:
  assumes "\<forall>ent \<in> set ents. map_of gbe ent = Some (G ent)"
  shows "entities_loop df gbe valid citeline ents written =
         entities_loop df gbe valid citeline (filter (\<lambda>ent. G ent \<noteq> []) ents) written"
  using assms
  by (induction ents arbitrary: written) (simp_all add: run_entity_no_groups split: sum.splits)

lemma entities_loop_files:
  assumes "entities_loop df gbe valid citeline ents written = (out, None)"
    and "\<forall>ent \<in> set ents. map_of gbe ent = Some (G ent)"
  shows "out = written @
           concat (map (\<lambda>ent. case run_entity df ent (G ent) 20 valid (citeline ent) of
                                Inl e \<Rightarrow> [] | Inr files \<Rightarrow> files) ents)"
  using assms
proof (induction ents arbitrary: written)
  case Nil
  then show ?case by simp
next
  case (Cons ent ents)
  from Cons.prems(2) have g: "map_of gbe ent = Some (G ent)"
    and gs: "\<forall>ent \<in> set ents. map_of gbe ent = Some (G ent)"
    by simp_all
  show ?case
  proof (cases "run_entity df ent (G ent) 20 valid (citeline ent)")
    case (Inl e)
    with Cons.prems(1) g show ?thesis by simp
  next
    case (Inr files)
    with Cons.prems(1) g have
      "entities_loop df gbe valid citeline ents (written @ files) = (out, None)"
      by simp
    from Cons.IH [OF this gs] Inr show ?thesis by simp
  qed
qed

lemma main_skip:
  assumes "\<not> list_all (\<lambda>ent. detect_groups cols0 ent = []) run_entities"
  shows "main cols0 valid interlock citeline run_entities =
         main cols0 valid interlock citeline
           (filter (\<lambda>ent. detect_groups cols0 ent \<noteq> []) run_entities)"
proof -
  let ?P = "\<lambda>ent. detect_groups cols0 ent \<noteq> []"
  let ?gbe = "\<lambda>ents. map (\<lambda>ent. (ent, detect_groups cols0 ent)) ents"
  let ?df = "base_table valid interlock"
  from assms have ne: "\<not> list_all (\<lambda>ent. detect_groups cols0 ent = []) (filter ?P run_entities)"
    by (auto simp: list_all_iff)
  have "main cols0 valid interlock citeline run_entities =
      entities_loop ?df (?gbe run_entities) valid citeline run_entities []"
    using assms by (simp add: main_def build_base_groups)
  also have "\<dots> = entities_loop ?df (?gbe run_entities) valid citeline (filter ?P run_entities) []"
    by (rule entities_loop_skip) (simp add: map_of_groups)
  also have "\<dots> = entities_loop ?df (?gbe (filter ?P run_entities)) valid citeline
      (filter ?P run_entities) []"
    by (rule entities_loop_cong) (simp add: map_of_groups)
  also have "\<dots> = main cols0 valid interlock citeline (filter ?P run_entities)"
    using ne by (simp add: main_def build_base_groups)
  finally show ?thesis .
qed

lemma main_files:
  assumes "\<not> list_all (\<lambda>ent. detect_groups cols0 ent = []) run_entities"
    and "snd (main cols0 valid interlock citeline run_entities) = None"
  shows "fst (main cols0 valid interlock citeline run_entities) =
           concat (map (\<lambda>ent. case run_entity (base_table valid interlock) ent
                                     (detect_groups cols0 ent) 20 valid (citeline ent) of
                                Inl e \<Rightarrow> [] | Inr files \<Rightarrow> files)
                     (filter (\<lambda>ent. detect_groups cols0 ent \<noteq> []) run_entities))"
proof -
  let ?P = "\<lambda>ent. detect_groups cols0 ent \<noteq> []"
  let ?gbe = "map (\<lambda>ent. (ent, detect_groups cols0 ent)) run_entities"
  let ?df = "base_table valid interlock"
  have m: "main cols0 valid interlock citeline run_entities =
      entities_loop ?df ?gbe valid citeline (filter ?P run_entities) []"
    using assms(1) entities_loop_skip [of run_entities ?gbe "detect_groups cols0" ?df valid citeline "[]"]
    by (simp add: main_def build_base_groups map_of_groups)
  obtain out err where oe: "entities_loop ?df ?gbe valid citeline (filter ?P run_entities) [] = (out, err)"
    by (cases "entities_loop ?df ?gbe valid citeline (filter ?P run_entities) []") simp
  with assms(2) m have err: "err = None" by simp
  from oe [unfolded err] have "out = [] @
      concat (map (\<lambda>ent. case run_entity ?df ent (detect_groups cols0 ent) 20 valid (citeline ent) of
                            Inl e \<Rightarrow> [] | Inr files \<Rightarrow> files) (filter ?P run_entities))"
    by (rule entities_loop_files) (simp add: map_of_groups)
  with m oe show ?thesis by simp
qed

subsection \<open>C8: empty group discovery\<close>

text \<open>
  C8 as stated asks that the run aborts with an error, before any output, whenever group
  discovery is empty. The abort in \<open>build_base\<close> only happens when discovery is empty for
  every requested entity: with columns for disease groups only and both entities
  requested, discovery for \<open>therapeutic\<close> is empty, the run ends without an error and the
  nine disease files are written.
\<close>

theorem partial_discovery_counterexample:
  "detect_groups ex_cols0 ''therapeutic'' = [] \<and>
   snd (main ex_cols0 ex_valid ex_interlock (\<lambda>ent. ex_citeline) [''disease'', ''therapeutic'']) = None \<and>
   map fst (fst (main ex_cols0 ex_valid ex_interlock (\<lambda>ent. ex_citeline) [''disease'', ''therapeutic''])) =
     [''full_disease_results_with_all_scenarios.csv'',
      ''originate_changes_interlock_indirect_with_shares.csv'',
      ''originate_changes_interlock_direct_with_shares.csv'',
      ''originate_changes_not_interlock_indirect_with_shares.csv'',
      ''originate_changes_interlock_indirect_with_shares_YoY_events.csv'',
      ''originate_changes_interlock_indirect_with_shares_by_prior_direct_history.csv'',
      ''originate_changes_interlock_direct_with_shares_YoY_events.csv'',
      ''originate_changes_interlock_direct_with_share_by_prior_direct_history.csv'',
      ''originate_changes_not_interlock_with_shares_YoY_events.csv'']"
  by code_simp

text \<open>
  C8, amended: if group discovery is empty for every requested entity, the run aborts with
  an error and nothing is written. Otherwise the run does not abort in \<open>build_base\<close>, and
  the entities whose own discovery is empty are skipped: the run has the result of the
  run on the other entities alone, and when it ends without an error the files written
  are those of \<open>run_entity\<close> on each of the other entities, in their order; \<open>run_entity\<close>
  on an entity with an empty discovery returns without an error and without a file.
\<close>

theorem empty_discovery:
  "(list_all (\<lambda>ent. detect_groups cols0 ent = []) run_entities \<longrightarrow>
      main cols0 valid interlock citeline run_entities = ([], Some RuntimeError)) \<and>
   (\<not> list_all (\<lambda>ent. detect_groups cols0 ent = []) run_entities \<longrightarrow>
      main cols0 valid interlock citeline run_entities =
        main cols0 valid interlock citeline
          (filter (\<lambda>ent. detect_groups cols0 ent \<noteq> []) run_entities) \<and>
      (snd (main cols0 valid interlock citeline run_entities) = None \<longrightarrow>
         fst (main cols0 valid interlock citeline run_entities) =
           concat (map (\<lambda>ent. case run_entity (base_table valid interlock) ent
                                     (detect_groups cols0 ent) 20 valid (citeline ent) of
                                Inl e \<Rightarrow> [] | Inr files \<Rightarrow> files)
                     (filter (\<lambda>ent. detect_groups cols0 ent \<noteq> []) run_entities))) \<and>
      (\<exists>df groups_by_entity.
         build_base cols0 run_entities valid interlock = Inr (df, groups_by_entity) \<and>
         (\<forall>ent \<in> set run_entities.
            map_of groups_by_entity ent = Some (detect_groups cols0 ent) \<and>
            (detect_groups cols0 ent = [] \<longrightarrow>
               run_entity df ent (detect_groups cols0 ent) 20 valid (citeline ent) = Inr []))))"
proof (intro conjI impI)
  assume "list_all (\<lambda>ent. detect_groups cols0 ent = []) run_entities"
  then show "main cols0 valid interlock citeline run_entities = ([], Some RuntimeError)"
    by (simp add: main_def build_base_groups)
next
  assume "\<not> list_all (\<lambda>ent. detect_groups cols0 ent = []) run_entities"
  then show "main cols0 valid interlock citeline run_entities =
        main cols0 valid interlock citeline
          (filter (\<lambda>ent. detect_groups cols0 ent \<noteq> []) run_entities)"
    by (rule main_skip)
next
  assume "\<not> list_all (\<lambda>ent. detect_groups cols0 ent = []) run_entities"
    and "snd (main cols0 valid interlock citeline run_entities) = None"
  then show "fst (main cols0 valid interlock citeline run_entities) =
           concat (map (\<lambda>ent. case run_entity (base_table valid interlock) ent
                                     (detect_groups cols0 ent) 20 valid (citeline ent) of
                                Inl e \<Rightarrow> [] | Inr files \<Rightarrow> files)
                     (filter (\<lambda>ent. detect_groups cols0 ent \<noteq> []) run_entities))"
    by (rule main_files)
next
  assume "\<not> list_all (\<lambda>ent. detect_groups cols0 ent = []) run_entities"
  then have "build_base cols0 run_entities valid interlock =
      Inr (base_table valid interlock, map (\<lambda>ent. (ent, detect_groups cols0 ent)) run_entities)"
    by (simp add: build_base_groups)
  moreover have "\<forall>ent \<in> set run_entities.
      map_of (map (\<lambda>ent. (ent, detect_groups cols0 ent)) run_entities) ent = Some (detect_groups cols0 ent) \<and>
      (detect_groups cols0 ent = [] \<longrightarrow>
         run_entity (base_table valid interlock) ent (detect_groups cols0 ent) 20 valid (citeline ent) = Inr [])"
    by (simp add: map_of_groups run_entity_def)
  ultimately show "\<exists>df groups_by_entity.
         build_base cols0 run_entities valid interlock = Inr (df, groups_by_entity) \<and>
         (\<forall>ent \<in> set run_entities.
            map_of groups_by_entity ent = Some (detect_groups cols0 ent) \<and>
            (detect_groups cols0 ent = [] \<longrightarrow>
               run_entity df ent (detect_groups cols0 ent) 20 valid (citeline ent) = Inr []))"
    by blast
qed

theorem empty_discovery_witness:
  "list_all (\<lambda>ent. detect_groups [''BoardName'', ''year''] ent = []) [''therapeutic'', ''disease''] \<and>
   main [''BoardName'', ''year''] ex_valid ex_interlock (\<lambda>ent. ex_citeline) [''therapeutic'', ''disease'']
     = ([], Some RuntimeError) \<and>
   \<not> list_all (\<lambda>ent. detect_groups ex_cols0 ent = []) [''therapeutic'', ''disease''] \<and>
   detect_groups ex_cols0 ''therapeutic'' = [] \<and>
   filter (\<lambda>ent. detect_groups ex_cols0 ent \<noteq> []) [''therapeutic'', ''disease''] = [''disease''] \<and>
   main ex_cols0 ex_valid ex_interlock (\<lambda>ent. ex_citeline) [''therapeutic'', ''disease''] =
     main ex_cols0 ex_valid ex_interlock (\<lambda>ent. ex_citeline) [''disease''] \<and>
   snd (main ex_cols0 ex_valid ex_interlock (\<lambda>ent. ex_citeline) [''therapeutic'', ''disease'']) = None \<and>
   map (\<lambda>(name, header, rows). (name, length rows))
     (fst (main ex_cols0 ex_valid ex_interlock (\<lambda>ent. ex_citeline) [''therapeutic'', ''disease''])) =
     [(''full_disease_results_with_all_scenarios.csv'', 1),
      (''originate_changes_interlock_indirect_with_shares.csv'', 1),
      (''originate_changes_interlock_direct_with_shares.csv'', 1),
      (''originate_changes_not_interlock_indirect_with_shares.csv'', 1),
      (''originate_changes_interlock_indirect_with_shares_YoY_events.csv'', 1),
      (''originate_changes_interlock_indirect_with_shares_by_prior_direct_history.csv'', 2),
      (''originate_changes_interlock_direct_with_shares_YoY_events.csv'', 1),
      (''originate_changes_interlock_direct_with_share_by_prior_direct_history.csv'', 2),
      (''originate_changes_not_interlock_with_shares_YoY_events.csv'', 1)] \<and>
   run_entity (base_table ex_valid ex_interlock) ''therapeutic'' (detect_groups ex_cols0 ''therapeutic'')
     20 ex_valid ex_citeline = Inr []"
proof -
  let ?M = "\<lambda>ents. main ex_cols0 ex_valid ex_interlock (\<lambda>ent. ex_citeline) ents"
  have h1: "list_all (\<lambda>ent. detect_groups [''BoardName'', ''year''] ent = []) [''therapeutic'', ''disease'']"
    by code_simp
  have h2: "\<not> list_all (\<lambda>ent. detect_groups ex_cols0 ent = []) [''therapeutic'', ''disease'']"
    by code_simp
  have h3: "detect_groups ex_cols0 ''therapeutic'' = []"
    by code_simp
  have f: "filter (\<lambda>ent. detect_groups ex_cols0 ent \<noteq> []) [''therapeutic'', ''disease''] = [''disease'']"
    by code_simp
  have d: "snd (?M [''disease'']) = None \<and>
     map (\<lambda>(name, header, rows). (name, length rows)) (fst (?M [''disease''])) =
     [(''full_disease_results_with_all_scenarios.csv'', 1),
      (''originate_changes_interlock_indirect_with_shares.csv'', 1),
      (''originate_changes_interlock_direct_with_shares.csv'', 1),
      (''originate_changes_not_interlock_indirect_with_shares.csv'', 1),
      (''originate_changes_interlock_indirect_with_shares_YoY_events.csv'', 1),
      (''originate_changes_interlock_indirect_with_shares_by_prior_direct_history.csv'', 2),
      (''originate_changes_interlock_direct_with_shares_YoY_events.csv'', 1),
      (''originate_changes_interlock_direct_with_share_by_prior_direct_history.csv'', 2),
      (''originate_changes_not_interlock_with_shares_YoY_events.csv'', 1)]"
    by code_simp
  from h1 empty_discovery [of "[''BoardName'', ''year'']" "[''therapeutic'', ''disease'']"
      ex_valid ex_interlock "\<lambda>ent. ex_citeline"]
  have a: "main [''BoardName'', ''year''] ex_valid ex_interlock (\<lambda>ent. ex_citeline)
      [''therapeutic'', ''disease''] = ([], Some RuntimeError)"
    by blast
  note e = empty_discovery [of ex_cols0 "[''therapeutic'', ''disease'']"
      ex_valid ex_interlock "\<lambda>ent. ex_citeline"]
  from h2 e have m: "?M [''therapeutic'', ''disease''] = ?M [''disease'']"
    unfolding f by blast
  from h2 e obtain df gbe where
    b: "build_base ex_cols0 [''therapeutic'', ''disease''] ex_valid ex_interlock = Inr (df, gbe)"
    and c: "\<forall>ent \<in> set [''therapeutic'', ''disease''].
            map_of gbe ent = Some (detect_groups ex_cols0 ent) \<and>
            (detect_groups ex_cols0 ent = [] \<longrightarrow>
               run_entity df ent (detect_groups ex_cols0 ent) 20 ex_valid ex_citeline = Inr [])"
    by blast
  from b have "df = base_table ex_valid ex_interlock"
    by (simp add: build_base_groups split: if_splits)
  with c h3 have r: "run_entity (base_table ex_valid ex_interlock) ''therapeutic''
      (detect_groups ex_cols0 ''therapeutic'') 20 ex_valid ex_citeline = Inr []"
    by simp
  from d have d': "snd (?M [''therapeutic'', ''disease'']) = None \<and>
     map (\<lambda>(name, header, rows). (name, length rows)) (fst (?M [''therapeutic'', ''disease''])) =
     [(''full_disease_results_with_all_scenarios.csv'', 1),
      (''originate_changes_interlock_indirect_with_shares.csv'', 1),
      (''originate_changes_interlock_direct_with_shares.csv'', 1),
      (''originate_changes_not_interlock_indirect_with_shares.csv'', 1),
      (''originate_changes_interlock_indirect_with_shares_YoY_events.csv'', 1),
      (''originate_changes_interlock_indirect_with_shares_by_prior_direct_history.csv'', 2),
      (''originate_changes_interlock_direct_with_shares_YoY_events.csv'', 1),
      (''originate_changes_interlock_direct_with_share_by_prior_direct_history.csv'', 2),
      (''originate_changes_not_interlock_with_shares_YoY_events.csv'', 1)]"
    unfolding m .
  from h1 a h2 h3 f m d' r show ?thesis by blast
qed

end
